(* ===== verification/Prelude.thy ===== *)
theory Prelude
  imports Complex_Main
begin

text \<open>
  Shared material: the vocabulary in which every component is written (tables as lists of rows,
  keyed look-up, conditional update, results as sums) and the generic facts about it.

  A database table is the list of its rows, in the order in which the server returns them.
  \<open>fetch key i\<close> is \<open>session.get(Model, i)\<close>, \<open>update_where P f\<close> is
  \<open>UPDATE ... WHERE P\<close> and \<open>count_where P\<close> is both \<open>SELECT count(*) ... WHERE P\<close>
  and the row count that an \<open>UPDATE ... WHERE P\<close> reports.
  The collection \<open>row_simps\<close> holds the rewriting facts about these three operations.
\<close>

named_theorems row_simps \<open>rewriting of table operations\<close>

subsection \<open>Table operations\<close>

definition fetch :: "('r \<Rightarrow> int) \<Rightarrow> int \<Rightarrow> 'r list \<Rightarrow> 'r option" where
  "fetch key i rs = find (\<lambda>r. key r = i) rs"

definition update_where :: "('r \<Rightarrow> bool) \<Rightarrow> ('r \<Rightarrow> 'r) \<Rightarrow> 'r list \<Rightarrow> 'r list" where
  "update_where P f rs = map (\<lambda>r. if P r then f r else r) rs"

definition count_where :: "('r \<Rightarrow> bool) \<Rightarrow> 'r list \<Rightarrow> nat" where
  "count_where P rs = length (filter P rs)"

lemma fetch_Nil [row_simps]: "fetch key i [] = None"
  by (simp add: fetch_def)

lemma fetch_Cons [row_simps]:
  "fetch key i (r # rs) = (if key r = i then Some r else fetch key i rs)"
  by (simp add: fetch_def)

lemma fetch_SomeD: "fetch key i rs = Some r \<Longrightarrow> r \<in> set rs \<and> key r = i"
  by (induction rs) (auto simp: fetch_def split: if_splits)

lemma fetch_None_iff: "fetch key i rs = None \<longleftrightarrow> i \<notin> key ` set rs"
  by (induction rs) (auto simp: fetch_def)

lemma fetch_append [row_simps]:
  "fetch key i (rs @ qs) = (case fetch key i rs of None \<Rightarrow> fetch key i qs | Some r \<Rightarrow> Some r)"
  by (induction rs) (auto simp: fetch_def)

lemma fetch_Some_iff:
  "distinct (map key rs) \<Longrightarrow> fetch key i rs = Some r \<longleftrightarrow> r \<in> set rs \<and> key r = i"
  by (induction rs) (auto simp: fetch_def inj_on_def)

lemma fetch_update_where:
  assumes "\<And>r. key (f r) = key r"
  shows "fetch key i (update_where P f rs)
    = map_option (\<lambda>r. if P r then f r else r) (fetch key i rs)"
  using assms by (induction rs) (auto simp: fetch_def update_where_def)

lemma map_update_where:
  assumes "\<And>r. g (f r) = g r"
  shows "map g (update_where P f rs) = map g rs"
  using assms by (induction rs) (auto simp: update_where_def)

lemma set_update_where:
  "set (update_where P f rs) = {f r | r. r \<in> set rs \<and> P r} \<union> {r \<in> set rs. \<not> P r}"
  by (auto simp: update_where_def)

lemma in_update_whereE:
  assumes "r \<in> set (update_where P f rs)"
  obtains q where "q \<in> set rs" "r = (if P q then f q else q)"
  using assms by (auto simp: update_where_def)

lemma bex_update_where:
  "(\<exists>r \<in> set (update_where P f rs). Q r) \<longleftrightarrow> (\<exists>r \<in> set rs. if P r then Q (f r) else Q r)"
  by (induction rs) (auto simp: update_where_def)

lemma image_update_where:
  assumes "\<And>r. g (f r) = g r"
  shows "g ` set (update_where P f rs) = g ` set rs"
  using map_update_where [of g f P rs, OF assms] by (metis list.set_map)

lemma update_where_id [row_simps]: "update_where (\<lambda>_. False) f rs = rs"
  by (simp add: update_where_def)

lemma length_update_where [row_simps]: "length (update_where P f rs) = length rs"
  by (simp add: update_where_def)

lemma count_where_Nil [row_simps]: "count_where P [] = 0"
  by (simp add: count_where_def)

lemma count_where_append [row_simps]: "count_where P (rs @ qs) = count_where P rs + count_where P qs"
  by (simp add: count_where_def)

lemma count_where_Cons [row_simps]:
  "count_where P (r # rs) = (if P r then Suc (count_where P rs) else count_where P rs)"
  by (simp add: count_where_def)

lemma count_where_0_iff: "count_where P rs = 0 \<longleftrightarrow> (\<forall>r \<in> set rs. \<not> P r)"
  by (auto simp: count_where_def filter_empty_conv)

lemma count_where_mono:
  "(\<And>r. r \<in> set rs \<Longrightarrow> P r \<Longrightarrow> Q r) \<Longrightarrow> count_where P rs \<le> count_where Q rs"
  by (induction rs) (auto simp: count_where_def intro: le_SucI)

lemma count_where_update_le:
  assumes "\<And>r. P r \<Longrightarrow> Q (f r) \<Longrightarrow> Q r"
  shows "count_where Q (update_where P f rs) \<le> count_where Q rs"
  using assms by (induction rs) (auto simp: count_where_def update_where_def intro: le_SucI)

lemma count_where_key_le_1:
  "distinct (map key rs) \<Longrightarrow> count_where (\<lambda>r. key r = i \<and> P r) rs \<le> 1"
proof (induction rs)
  case (Cons r rs)
  show ?case
  proof (cases "key r = i")
    case True
    with Cons.prems have "count_where (\<lambda>r. key r = i \<and> P r) rs = 0"
      by (auto simp: count_where_0_iff) (metis image_eqI)
    then show ?thesis by (simp add: row_simps)
  next
    case False
    with Cons show ?thesis by (simp add: row_simps)
  qed
qed (simp add: row_simps)

lemma find_Some_iff_unique:
  "\<lbrakk> \<And>r q. r \<in> set rs \<Longrightarrow> q \<in> set rs \<Longrightarrow> P r \<Longrightarrow> P q \<Longrightarrow> r = q \<rbrakk> \<Longrightarrow>
   find P rs = Some r \<longleftrightarrow> r \<in> set rs \<and> P r"
  by (induction rs) auto

lemma find_SomeD: "find P rs = Some r \<Longrightarrow> r \<in> set rs \<and> P r"
  by (induction rs) (auto split: if_splits)

lemma find_append: "find P (rs @ qs) = (case find P rs of None \<Rightarrow> find P qs | Some r \<Rightarrow> Some r)"
  by (induction rs) auto

lemma sorted_filter_sort_key:
  fixes k :: "'r \<Rightarrow> 'k :: linorder"
  assumes "\<And>x. Q x \<Longrightarrow> \<not> P x"
  shows "sorted (map k (filter P (sort_key k (filter P xs) @ filter Q xs)))"
proof -
  have "filter P (filter Q xs) = []" using assms by (auto simp: filter_empty_conv)
  moreover have "filter P (sort_key k (filter P xs)) = sort_key k (filter P xs)"
    by (rule filter_True) simp
  ultimately show ?thesis by simp
qed

subsection \<open>Results\<close>

definition is_ok :: "'e + 'a \<Rightarrow> bool" where
  "is_ok x \<longleftrightarrow> (case x of Inl _ \<Rightarrow> False | Inr _ \<Rightarrow> True)"

lemma is_ok_simps [simp]: "\<not> is_ok (Inl e)" "is_ok (Inr a)"
  by (simp_all add: is_ok_def)

lemma is_ok_iff: "is_ok x \<longleftrightarrow> (\<exists>a. x = Inr a)"
  by (cases x) auto

text \<open>\<open>yields x P\<close>: the operation succeeds, with a result and a state that satisfy \<open>P\<close>.\<close>

definition yields :: "'e + ('a \<times> 's) \<Rightarrow> ('a \<Rightarrow> 's \<Rightarrow> bool) \<Rightarrow> bool" where
  "yields x P \<longleftrightarrow> (case x of Inl _ \<Rightarrow> False | Inr (a, s) \<Rightarrow> P a s)"

lemma yields_iff: "yields x P \<longleftrightarrow> (\<exists>a s. x = Inr (a, s) \<and> P a s)"
  by (auto simp: yields_def split: sum.splits)

lemma yieldsE:
  assumes "yields x P" obtains a s where "x = Inr (a, s)" "P a s"
  using assms by (auto simp: yields_iff)

subsection \<open>Transition systems\<close>

text \<open>
  The contract every state machine of the development shares: initial states, steps, and a
  predicate that holds initially and is kept by each step.  The states reachable from the
  initial ones then all satisfy it.
\<close>

inductive reach :: "('s \<Rightarrow> bool) \<Rightarrow> ('s \<Rightarrow> 's \<Rightarrow> bool) \<Rightarrow> 's \<Rightarrow> bool" for init step where
  reach_init: "init s \<Longrightarrow> reach init step s"
| reach_step: "reach init step s \<Longrightarrow> step s t \<Longrightarrow> reach init step t"

locale invariant_system =
  fixes init :: "'s \<Rightarrow> bool"
    and step :: "'s \<Rightarrow> 's \<Rightarrow> bool"
    and inv :: "'s \<Rightarrow> bool"
  assumes inv_init: "init s \<Longrightarrow> inv s"
    and inv_step: "inv s \<Longrightarrow> step s t \<Longrightarrow> inv t"
begin

lemma inv_reach: "reach init step s \<Longrightarrow> inv s"
  by (induction rule: reach.induct) (blast intro: inv_init inv_step)+

lemma inv_steps: "step\<^sup>*\<^sup>* s t \<Longrightarrow> inv s \<Longrightarrow> inv t"
  by (induction rule: rtranclp_induct) (blast intro: inv_step)+

end

text \<open>A simulation: each step of the detailed system, from a state it can reach, is a step of the abstract
  one on the abstractions of the two states.  Every run is then a run of the abstract system.\<close>

locale simulation =
  fixes cinit :: "'s \<Rightarrow> bool"
    and cstep :: "'s \<Rightarrow> 's \<Rightarrow> bool"
    and ainit :: "'a \<Rightarrow> bool"
    and astep :: "'a \<Rightarrow> 'a \<Rightarrow> bool"
    and view :: "'s \<Rightarrow> 'a"
  assumes sim_init: "cinit s \<Longrightarrow> ainit (view s)"
    and sim_step: "reach cinit cstep s \<Longrightarrow> cstep s t \<Longrightarrow> astep (view s) (view t)"
begin

lemma sim_reach: "reach cinit cstep s \<Longrightarrow> reach ainit astep (view s)"
proof (induction rule: reach.induct)
  case (reach_init s)
  then show ?case by (blast intro: reach.reach_init sim_init)
next
  case (reach_step s t)
  then show ?case by (blast intro: reach.reach_step sim_step)
qed

lemma sim_invariant:
  assumes "invariant_system ainit astep good" "reach cinit cstep s"
  shows "good (view s)"
  using invariant_system.inv_reach [OF assms(1) sim_reach [OF assms(2)]] .

end

text \<open>The values of a signed integer column of \<open>n\<close> bits.\<close>

definition in_bits :: "nat \<Rightarrow> int \<Rightarrow> bool" where
  "in_bits n i \<longleftrightarrow> - (2 ^ (n - 1)) \<le> i \<and> i < 2 ^ (n - 1)"

lemma in_bits_numeral [simp]: "in_bits 32 1" "in_bits 32 (numeral k) \<longleftrightarrow> numeral k < (2147483648 :: int)"
  by (simp_all add: in_bits_def)

end
