(* ===== verification/Config.thy ===== *)
theory Config
  imports Prelude
begin

text \<open>
  The settings of \<open>core/config.py\<close> that the modelled code reads, with the defaults of the
  source, and the start-up guard \<open>_enforce_production_guards\<close> of \<open>main.py\<close>.
  Percentages are rationals, because comparing finite floats is exact.  Settings that only
  configure third-party code (database URL, pool, log level, TLS of the client) are left out.
\<close>

datatype app_env = Development | Staging | Production | Test

datatype auth_provider = Mock | Cnu_sso | Cnu_mail_oauth

record settings =
  app_env :: app_env
  app_version :: string
  cors_origins :: "string list"
  expose_docs :: bool
  enable_metrics :: bool
  auth_provider :: auth_provider
  session_secret :: string
  session_cookie_name :: string
  session_ttl_seconds :: int
  session_cookie_secure :: bool
  auth_login_path :: string
  reservation_slot_minutes :: int
  max_concurrent_reservations :: int
  max_reservation_hours_per_day :: int
  max_reservation_duration_minutes :: int
  reservation_lookahead_days :: int
  connect_token_grace_seconds :: int
  agent_token_ttl_days :: int
  host_offline_after_seconds :: int
  host_degraded_cpu_pct :: rat
  host_degraded_mem_pct :: rat
  host_status_monitor_interval_seconds :: int
  internal_api_token :: "string option"
  sunshine_config_port :: int
  sunshine_pair_max_attempts :: int
  sunshine_pair_backoff_base_seconds :: rat

definition default_settings :: settings where
  "default_settings =
     \<lparr>app_env = Development,
      app_version = ''0.1.0'',
      cors_origins = [''http://localhost:3000'', ''http://localhost:5173''],
      expose_docs = True,
      enable_metrics = True,
      auth_provider = Mock,
      session_secret = ''change-me'',
      session_cookie_name = ''broker_session'',
      session_ttl_seconds = 60 * 60 * 8,
      session_cookie_secure = True,
      auth_login_path = ''/api/v1/auth/mock/login'',
      reservation_slot_minutes = 30,
      max_concurrent_reservations = 5,
      max_reservation_hours_per_day = 8,
      max_reservation_duration_minutes = 240,
      reservation_lookahead_days = 14,
      connect_token_grace_seconds = 60,
      agent_token_ttl_days = 3650,
      host_offline_after_seconds = 90,
      host_degraded_cpu_pct = 90,
      host_degraded_mem_pct = 95,
      host_status_monitor_interval_seconds = 60,
      internal_api_token = None,
      sunshine_config_port = 47990,
      sunshine_pair_max_attempts = 5,
      sunshine_pair_backoff_base_seconds = 1 / 2\<rparr>"

lemmas default_settings_simps = default_settings_def

text \<open>The four reasons for which \<open>_enforce_production_guards\<close> refuses to boot.\<close>

datatype boot_error =
  MockProviderInProduction
| UnsafeSessionSecret
| InsecureSessionCookie
| UnsafeInternalToken

definition enforce_production_guards :: "settings \<Rightarrow> boot_error + unit" where
  "enforce_production_guards cfg =
     (if app_env cfg = Production then
        (if auth_provider cfg = Mock then Inl MockProviderInProduction
         else if session_secret cfg \<in> {''change-me'', ''dev-secret'', ''''} then Inl UnsafeSessionSecret
         else if \<not> session_cookie_secure cfg then Inl InsecureSessionCookie
         else if (case internal_api_token cfg of
                    None \<Rightarrow> True
                  | Some tok \<Rightarrow> tok = '''' \<or> tok \<in> {''change-me'', ''dev-secret''})
           then Inl UnsafeInternalToken
         else Inr ())
      else Inr ())"

text \<open>A production deployment boots exactly when every secret is safe: the provider is a
  real one, the session secret and the internal token are neither empty nor a placeholder, and
  the session cookie is marked secure.\<close>
theorem production_boot_iff_safe:
  "is_ok (enforce_production_guards (cfg\<lparr>app_env := Production\<rparr>)) \<longleftrightarrow>
     auth_provider cfg \<noteq> Mock
     \<and> session_secret cfg \<notin> {''change-me'', ''dev-secret'', ''''}
     \<and> session_cookie_secure cfg
     \<and> (\<exists>tok. internal_api_token cfg = Some tok \<and> tok \<notin> {'''', ''change-me'', ''dev-secret''})"
  by (auto simp: enforce_production_guards_def split: option.splits)

end
