(* ===== verification/Clock.thy ===== *)
theory Clock
  imports Prelude
begin

text \<open>
  Dates and times as the broker uses them.  An instant is a number of microseconds since
  1970-01-01T00:00Z (\<open>TIMESTAMPTZ\<close> columns, \<open>datetime.now(UTC)\<close>); a \<open>datetime\<close> is
  what a client sends: a wall clock reading and a UTC offset, or no offset for a naive one.
  Offsets are fixed and whole minutes, which is what the request parser produces.  The year-9999 overflow of
  Python's \<open>datetime\<close> is not modelled.
\<close>

type_synonym instant = int

abbreviation sec_us :: int where "sec_us \<equiv> 1000000"
abbreviation min_us :: int where "min_us \<equiv> 60000000"
abbreviation hour_us :: int where "hour_us \<equiv> 3600000000"
abbreviation day_us :: int where "day_us \<equiv> 86400000000"

record datetime =
  dt_wall :: int
  dt_tz :: "int option"

definition aware :: "datetime \<Rightarrow> bool" where
  "aware d \<longleftrightarrow> dt_tz d \<noteq> None"

definition instant_of :: "datetime \<Rightarrow> instant" where
  "instant_of d = dt_wall d - (case dt_tz d of None \<Rightarrow> 0 | Some off \<Rightarrow> off * min_us)"

definition at_utc :: "instant \<Rightarrow> datetime" where
  "at_utc t = \<lparr>dt_wall = t, dt_tz = Some 0\<rparr>"

lemma instant_of_at_utc [simp]: "instant_of (at_utc t) = t"
  and aware_at_utc [simp]: "aware (at_utc t)"
  and dt_wall_at_utc [simp]: "dt_wall (at_utc t) = t"
  by (simp_all add: at_utc_def instant_of_def aware_def)

text \<open>The components of a wall clock reading, and \<open>datetime.replace\<close> on them.\<close>

definition minute :: "int \<Rightarrow> int" where
  "minute w = (w div min_us) mod 60"

definition second :: "int \<Rightarrow> int" where
  "second w = (w div sec_us) mod 60"

definition microsecond :: "int \<Rightarrow> int" where
  "microsecond w = w mod sec_us"

definition replace_microsecond :: "int \<Rightarrow> int \<Rightarrow> int" where
  "replace_microsecond w us = w - microsecond w + us"

definition replace_below_hour :: "int \<Rightarrow> int \<Rightarrow> int \<Rightarrow> int \<Rightarrow> int" where
  "replace_below_hour w m s us = w - w mod hour_us + m * min_us + s * sec_us + us"

definition midnight :: "int \<Rightarrow> int" where
  "midnight w = w - w mod day_us"

lemma second_microsecond_zero_iff:
  "second w = 0 \<and> microsecond w = 0 \<longleftrightarrow> w mod min_us = 0"
proof -
  have "w mod min_us = sec_us * second w + microsecond w"
    using zmod_zmult2_eq [of 60 w sec_us] by (simp add: second_def microsecond_def)
  moreover have "0 \<le> second w" "0 \<le> microsecond w"
    by (simp_all add: second_def microsecond_def)
  ultimately show ?thesis by auto
qed

lemma replace_microsecond_0: "replace_microsecond w 0 = w - w mod sec_us"
  by (simp add: replace_microsecond_def microsecond_def)

lemma replace_microsecond_bounds:
  "replace_microsecond w 0 \<le> w" "w < replace_microsecond w 0 + sec_us"
  by (simp_all add: replace_microsecond_0)

lemma midnight_bounds: "midnight w \<le> w" "w < midnight w + day_us"
  by (simp_all add: midnight_def)

lemma replace_half_hour:
  "replace_below_hour w ((minute w div 30) * 30) 0 0 = w - w mod (30 * min_us)"
proof -
  have "w mod hour_us = (w div min_us mod 60) * min_us + w mod min_us"
    using zmod_zmult2_eq [of 60 w min_us] by simp
  moreover have "w mod (30 * min_us) = (w div min_us mod 30) * min_us + w mod min_us"
    using zmod_zmult2_eq [of 30 w min_us] by simp
  moreover have "w div min_us mod 60 = (w div min_us mod 60 div 30) * 30 + w div min_us mod 30"
    using div_mult_mod_eq [of "w div min_us mod 60" 30] by (simp add: mod_mod_cancel)
  ultimately show ?thesis
    by (simp add: replace_below_hour_def minute_def algebra_simps)
qed

end
