(* ===== verification/Errors.thy ===== *)
theory Errors
  imports Config Clock
begin

text \<open>
  The exceptions the services raise (\<open>core/errors.py\<close>, \<open>services/reservation.py\<close>,
  \<open>core/auth_responses.py\<close>), JSON values as they occur in error details and audit rows, and
  the exception handlers that turn an exception into a status code and an error body.
  Human-readable message texts are not modelled; the reason an exception carries in its
  \<open>detail\<close> is.  The list of field errors of a request that fails validation is left empty: it is
  made by the validation library.
\<close>

datatype json =
  JNull
| JBool bool
| JInt int
| JRat rat
| JStr string
| JTime datetime
| JArr "json list"
| JObj "(string \<times> json) list"

datatype reservation_status = CONFIRMED | CANCELED | COMPLETED

datatype host_status = OFFLINE | IDLE | IN_USE | DEGRADED

text \<open>Why a window was refused (\<open>InvalidReservationWindowError\<close>), a quota exceeded
  (\<open>ReservationQuotaError\<close>) or a connect token not issued (\<open>InvalidConnectWindowError\<close>).\<close>

datatype window_reason =
  NaiveDatetime
| Misaligned "string option" int
| StartNotBeforeEnd "(datetime \<times> datetime) option"
| DurationExceeded int int
| StartsInPast datetime instant
| BeyondLookahead datetime int
| UnknownHost int
| FromToNotPaired "datetime option" "datetime option"

datatype quota_reason =
  ConcurrentLimit int int
| DailyLimit int int int

datatype connect_reason =
  ReservationNotActive reservation_status
| TooEarly instant instant int
| ExpiredWindow instant instant

text \<open>What the database driver reports for a refused statement.\<close>

record integrity_error =
  ie_constraint :: "string option"
  ie_message :: string

datatype http_detail = DetailText string | DetailDict "(string \<times> json) list"

datatype app_error =
  ReservationConflict
| ReservationQuota quota_reason
| InvalidReservationWindow window_reason
| InvalidConnectWindow connect_reason
| NotOwner
| ReservationNotFound int
| HostNotFound int
| HostNotAvailable int host_status
| HTTPException int http_detail
| Unauthenticated string
| RequestValidation
| Integrity integrity_error
| DataError
| RuntimeError
| ZeroDivisionError
| TypeError

subsection \<open>Exception handlers\<close>

record error_response =
  er_status :: int
  er_error :: string
  er_detail :: "(string \<times> json) list option"

text \<open>\<open>detail or None\<close>: an empty dictionary becomes \<open>None\<close>.\<close>

definition or_none :: "'a list \<Rightarrow> 'a list option" where
  "or_none xs = (case xs of [] \<Rightarrow> None | _ # _ \<Rightarrow> Some xs)"

definition status_json :: "reservation_status \<Rightarrow> json" where
  "status_json s = JStr (case s of CONFIRMED \<Rightarrow> ''CONFIRMED'' | CANCELED \<Rightarrow> ''CANCELED''
     | COMPLETED \<Rightarrow> ''COMPLETED'')"

definition host_status_name :: "host_status \<Rightarrow> string" where
  "host_status_name s = (case s of OFFLINE \<Rightarrow> ''OFFLINE'' | IDLE \<Rightarrow> ''IDLE''
     | IN_USE \<Rightarrow> ''IN_USE'' | DEGRADED \<Rightarrow> ''DEGRADED'')"

lemma host_status_name_inj [simp]: "host_status_name a = host_status_name b \<longleftrightarrow> a = b"
  by (cases a; cases b) (simp_all add: host_status_name_def)

text \<open>The string form of an error code that a route put into a detail dictionary
  (\<open>str(detail.pop("error", "http_error"))\<close>); the routes only put strings there.\<close>

definition pop_error :: "(string \<times> json) list \<Rightarrow> string" where
  "pop_error d = (case map_of d ''error'' of Some (JStr s) \<Rightarrow> s | _ \<Rightarrow> ''http_error'')"

definition http_exc :: "int \<Rightarrow> http_detail \<Rightarrow> error_response" where
  "http_exc code det =
     (case det of
        DetailDict d \<Rightarrow>
          \<lparr>er_status = code, er_error = pop_error d,
           er_detail = or_none (filter (\<lambda>kv. fst kv \<notin> {''error'', ''message''}) d)\<rparr>
      | DetailText _ \<Rightarrow> \<lparr>er_status = code, er_error = ''http_error'', er_detail = None\<rparr>)"

definition quota_detail :: "quota_reason \<Rightarrow> (string \<times> json) list" where
  "quota_detail q =
     (case q of
        ConcurrentLimit cur mx \<Rightarrow>
          [(''limit'', JStr ''concurrent''), (''current'', JInt cur), (''max'', JInt mx)]
      | DailyLimit used req mx \<Rightarrow>
          [(''limit'', JStr ''daily_minutes''), (''used_minutes'', JInt used),
           (''requested_minutes'', JInt req), (''max_minutes'', JInt mx)])"

definition opt_time_json :: "datetime option \<Rightarrow> json" where
  "opt_time_json t = (case t of None \<Rightarrow> JNull | Some d \<Rightarrow> JTime d)"

definition window_detail :: "window_reason \<Rightarrow> (string \<times> json) list" where
  "window_detail w =
     (case w of
        NaiveDatetime \<Rightarrow> []
      | Misaligned field slot \<Rightarrow>
          (case field of None \<Rightarrow> [] | Some f \<Rightarrow> [(''field'', JStr f)]) @ [(''slot_minutes'', JInt slot)]
      | StartNotBeforeEnd None \<Rightarrow> []
      | StartNotBeforeEnd (Some (s, e)) \<Rightarrow> [(''starts_at'', JTime s), (''ends_at'', JTime e)]
      | DurationExceeded m mx \<Rightarrow> [(''duration_minutes'', JInt m), (''max_minutes'', JInt mx)]
      | StartsInPast s now \<Rightarrow> [(''starts_at'', JTime s), (''now'', JTime (at_utc now))]
      | BeyondLookahead s days \<Rightarrow> [(''starts_at'', JTime s), (''lookahead_days'', JInt days)]
      | UnknownHost h \<Rightarrow> [(''host_id'', JInt h)]
      | FromToNotPaired f t \<Rightarrow> [(''from'', opt_time_json f), (''to'', opt_time_json t)])"

definition connect_detail :: "connect_reason \<Rightarrow> (string \<times> json) list" where
  "connect_detail c =
     (case c of
        ReservationNotActive st \<Rightarrow>
          [(''reason'', JStr ''reservation_not_active''), (''status'', status_json st)]
      | TooEarly starts_at now grace \<Rightarrow>
          [(''reason'', JStr ''too_early''), (''starts_at'', JTime (at_utc starts_at)),
           (''now'', JTime (at_utc now)), (''grace_seconds'', JInt grace)]
      | ExpiredWindow ends_at now \<Rightarrow>
          [(''reason'', JStr ''expired_window''), (''ends_at'', JTime (at_utc ends_at)),
           (''now'', JTime (at_utc now))])"

definition error_response_of :: "app_error \<Rightarrow> error_response" where
  "error_response_of e =
     (case e of
        HTTPException code det \<Rightarrow> http_exc code det
      | Unauthenticated url \<Rightarrow>
          \<lparr>er_status = 401, er_error = ''unauthenticated'',
           er_detail = Some [(''login_url'', JStr url)]\<rparr>
      | ReservationConflict \<Rightarrow>
          \<lparr>er_status = 409, er_error = ''reservation_conflict'', er_detail = None\<rparr>
      | ReservationQuota q \<Rightarrow>
          \<lparr>er_status = 429, er_error = ''reservation_quota_exceeded'',
           er_detail = or_none (quota_detail q)\<rparr>
      | RequestValidation \<Rightarrow>
          \<lparr>er_status = 422, er_error = ''validation_error'', er_detail = Some [(''errors'', JArr [])]\<rparr>
      | InvalidReservationWindow w \<Rightarrow>
          \<lparr>er_status = 422, er_error = ''invalid_reservation_window'',
           er_detail = or_none (window_detail w)\<rparr>
      | InvalidConnectWindow c \<Rightarrow>
          \<lparr>er_status = 422, er_error = ''invalid_connect_window'',
           er_detail = or_none (connect_detail c)\<rparr>
      | _ \<Rightarrow> \<lparr>er_status = 500, er_error = ''internal_error'', er_detail = None\<rparr>)"

end
