(* ===== verification/Domain.thy ===== *)
theory Domain
  imports Errors
begin

text \<open>
  The tables of \<open>domain/*.py\<close> and of the migrations, the constraints the migrations declare
  on them, and the audit log.  A row is a record, a table the list of its rows and the whole
  database the record \<open>db\<close>.  Primary keys and default timestamps are produced by the server:
  an insertion takes them as arguments and refuses a key that is already taken.  Columns the code
  never reads (\<open>public_id\<close>, \<open>created_at\<close> and \<open>updated_at\<close> outside reservations) and
  the \<open>sessions\<close> table, which no code touches, are left out.
\<close>

subsection \<open>Ranges of time\<close>

text \<open>\<open>TSTZRANGE\<close> values with bounds \<open>[)\<close>.  \<open>tstzrange(s, e, '[)')\<close> refuses
  \<open>e < s\<close> and gives the empty range for \<open>e = s\<close>; the bounds of the empty range are null.\<close>

datatype time_range = EmptyRange | TimeRange instant instant

definition mk_range :: "instant \<Rightarrow> instant \<Rightarrow> app_error + time_range" where
  "mk_range s e =
     (if e < s then Inl DataError else if e = s then Inr EmptyRange else Inr (TimeRange s e))"

fun range_lower :: "time_range \<Rightarrow> instant option" where
  "range_lower EmptyRange = None"
| "range_lower (TimeRange s e) = Some s"

fun range_upper :: "time_range \<Rightarrow> instant option" where
  "range_upper EmptyRange = None"
| "range_upper (TimeRange s e) = Some e"

fun range_overlaps :: "time_range \<Rightarrow> time_range \<Rightarrow> bool" where
  "range_overlaps (TimeRange s e) (TimeRange s' e') \<longleftrightarrow> s < e' \<and> s' < e"
| "range_overlaps _ _ \<longleftrightarrow> False"

fun range_contains :: "time_range \<Rightarrow> instant \<Rightarrow> bool" where
  "range_contains (TimeRange s e) t \<longleftrightarrow> s \<le> t \<and> t < e"
| "range_contains EmptyRange t \<longleftrightarrow> False"

fun range_ok :: "time_range \<Rightarrow> bool" where
  "range_ok (TimeRange s e) \<longleftrightarrow> s < e"
| "range_ok EmptyRange \<longleftrightarrow> True"

lemma mk_range_Inr: "mk_range s e = Inr tr \<longleftrightarrow> s \<le> e \<and> tr = (if e = s then EmptyRange else TimeRange s e)"
  by (auto simp: mk_range_def)

lemma mk_range_lt: "s < e \<Longrightarrow> mk_range s e = Inr (TimeRange s e)"
  by (simp add: mk_range_def)

lemma mk_range_ok: "mk_range s e = Inr tr \<Longrightarrow> range_ok tr"
  by (auto simp: mk_range_def split: if_splits)

lemma range_overlaps_sym: "range_overlaps a b \<longleftrightarrow> range_overlaps b a"
  by (cases a; cases b) auto

lemma range_overlaps_common:
  assumes "range_ok a" "range_ok b"
  shows "range_overlaps a b \<longleftrightarrow> (\<exists>t. range_contains a t \<and> range_contains b t)"
proof (cases a; cases b)
  fix s e s' e' assume ab: "a = TimeRange s e" "b = TimeRange s' e'"
  with assms have "range_overlaps a b \<Longrightarrow> range_contains a (max s s') \<and> range_contains b (max s s')"
    by auto
  with ab show ?thesis by fastforce
qed auto

subsection \<open>Rows\<close>

record user =
  u_id :: int
  u_external_id :: string
  u_provider :: string
  u_display_name :: string
  u_email :: "string option"
  u_role :: string
  u_is_active :: bool

record host =
  h_id :: int
  h_hostname :: string
  h_display_name :: string
  h_location :: "string option"
  h_ip_address :: "string option"
  h_sunshine_port :: int
  h_sunshine_broker_token :: "string option"
  h_gpu_model :: "string option"
  h_status :: host_status
  h_last_heartbeat_at :: "instant option"
  h_metadata :: "(string \<times> json) list"

record reservation =
  r_id :: int
  r_user_id :: int
  r_host_id :: int
  r_time_range :: time_range
  r_status :: reservation_status
  r_canceled_at :: "instant option"
  r_created_at :: instant

datatype token_purpose = Connect | Agent | Session

record token =
  t_id :: int
  t_jti :: string
  t_user_id :: int
  t_host_id :: "int option"
  t_reservation_id :: "int option"
  t_purpose :: token_purpose
  t_issued_at :: instant
  t_expires_at :: instant
  t_consumed_at :: "instant option"
  t_revoked_at :: "instant option"

datatype actor_kind = ActorUser | ActorSystem | ActorAgent

datatype audit_result = AuditSuccess | AuditFailure | AuditDenied

record audit_log =
  a_action :: string
  a_actor_user_id :: "int option"
  a_actor_kind :: actor_kind
  a_target_kind :: "string option"
  a_target_id :: "int option"
  a_result :: audit_result
  a_detail :: "(string \<times> json) list"
  a_auth_provider :: "string option"
  a_ip_address :: "string option"

record db =
  db_users :: "user list"
  db_hosts :: "host list"
  db_reservations :: "reservation list"
  db_tokens :: "token list"
  db_audits :: "audit_log list"

definition empty_db :: db where
  "empty_db = \<lparr>db_users = [], db_hosts = [], db_reservations = [], db_tokens = [], db_audits = []\<rparr>"

definition is_admin :: "user \<Rightarrow> bool" where
  "is_admin u \<longleftrightarrow> u_role u = ''admin''"

definition get_user :: "db \<Rightarrow> int \<Rightarrow> user option" where
  "get_user d i = fetch u_id i (db_users d)"

definition get_host :: "db \<Rightarrow> int \<Rightarrow> host option" where
  "get_host d i = fetch h_id i (db_hosts d)"

definition get_reservation_row :: "db \<Rightarrow> int \<Rightarrow> reservation option" where
  "get_reservation_row d i = fetch r_id i (db_reservations d)"

definition save_host :: "host \<Rightarrow> db \<Rightarrow> db" where
  "save_host h d = d\<lparr>db_hosts := update_where (\<lambda>h'. h_id h' = h_id h) (\<lambda>_. h) (db_hosts d)\<rparr>"

subsection \<open>Audit log\<close>

definition write_audit ::
  "string \<Rightarrow> int option \<Rightarrow> actor_kind \<Rightarrow> string option \<Rightarrow> int option \<Rightarrow> audit_result \<Rightarrow>
   (string \<times> json) list \<Rightarrow> string option \<Rightarrow> string option \<Rightarrow> db \<Rightarrow> db" where
  "write_audit action actor kind target_kind target_id res detail provider ip d =
     d\<lparr>db_audits := db_audits d @
        [\<lparr>a_action = action, a_actor_user_id = actor, a_actor_kind = kind,
          a_target_kind = target_kind, a_target_id = target_id, a_result = res,
          a_detail = detail, a_auth_provider = provider, a_ip_address = ip\<rparr>]\<rparr>"

lemma write_audit_frame [simp]:
  "db_users (write_audit a ac k tk ti r de p ip d) = db_users d"
  "db_hosts (write_audit a ac k tk ti r de p ip d) = db_hosts d"
  "db_reservations (write_audit a ac k tk ti r de p ip d) = db_reservations d"
  "db_tokens (write_audit a ac k tk ti r de p ip d) = db_tokens d"
  by (simp_all add: write_audit_def)

lemma get_write_audit [simp]:
  "get_host (write_audit a ac k tk ti r de p ip d) i = get_host d i"
  "get_reservation_row (write_audit a ac k tk ti r de p ip d) i = get_reservation_row d i"
  "get_user (write_audit a ac k tk ti r de p ip d) i = get_user d i"
  by (simp_all add: get_host_def get_reservation_row_def get_user_def)

lemma save_host_frame [simp]:
  "db_users (save_host h d) = db_users d"
  "db_reservations (save_host h d) = db_reservations d"
  "db_tokens (save_host h d) = db_tokens d"
  "db_audits (save_host h d) = db_audits d"
  by (simp_all add: save_host_def)

lemma save_host_ids [simp]: "map h_id (db_hosts (save_host h d)) = map h_id (db_hosts d)"
  by (auto simp: save_host_def update_where_def)

lemma fetch_replace_row:
  "fetch key i (update_where (\<lambda>r. key r = key q) (\<lambda>_. q) rs)
     = (if i = key q \<and> fetch key i rs \<noteq> None then Some q else fetch key i rs)"
  by (induction rs) (auto simp: fetch_def update_where_def)

lemma get_host_save_host:
  "get_host (save_host h d) i =
     (if i = h_id h \<and> get_host d i \<noteq> None then Some h else get_host d i)"
  by (auto simp: get_host_def save_host_def fetch_replace_row)

end
