(* ===== verification/Database.thy ===== *)
theory Database
  imports Domain
begin

text \<open>
  The statements that change the tables, with the constraints of migration 0001 they are subject
  to: primary keys, the exclusion constraint \<open>reservations_no_overlap\<close>, the unique columns
  \<open>tokens.jti\<close>, \<open>hosts.hostname\<close> and \<open>(users.provider, users.external_id)\<close>, and the
  foreign keys.  A statement that would violate one is refused and leaves the tables as they were.
  \<open>wf_db\<close> is what the constraints together promise; every statement keeps it.
\<close>

named_theorems wf_intros \<open>preservation of database well-formedness\<close>

subsection \<open>Constraints\<close>

definition reservation_active :: "reservation_status \<Rightarrow> bool" where
  "reservation_active s \<longleftrightarrow> s = CONFIRMED \<or> s = COMPLETED"

lemma reservation_active_simps [simp]:
  "reservation_active CONFIRMED" "reservation_active COMPLETED" "\<not> reservation_active CANCELED"
  by (simp_all add: reservation_active_def)

lemma reservation_active_iff: "reservation_active s \<longleftrightarrow> s \<noteq> CANCELED"
  by (cases s) (simp_all add: reservation_active_def)

definition RESERVATION_OVERLAP_CONSTRAINT :: string where
  "RESERVATION_OVERLAP_CONSTRAINT = ''reservations_no_overlap''"

definition violation :: "string \<Rightarrow> app_error" where
  "violation c = Integrity \<lparr>ie_constraint = Some c, ie_message = ''violates constraint '' @ c\<rparr>"

definition excluded :: "reservation list \<Rightarrow> int \<Rightarrow> time_range \<Rightarrow> bool" where
  "excluded rs hid tr \<longleftrightarrow>
     (\<exists>r \<in> set rs. reservation_active (r_status r) \<and> r_host_id r = hid
        \<and> range_overlaps (r_time_range r) tr)"

definition insert_reservation ::
  "int \<Rightarrow> int \<Rightarrow> int \<Rightarrow> instant \<Rightarrow> instant \<Rightarrow> instant \<Rightarrow> db \<Rightarrow> app_error + db" where
  "insert_reservation nid uid hid s e created d =
     (case mk_range s e of
        Inl err \<Rightarrow> Inl err
      | Inr tr \<Rightarrow>
          if nid \<in> r_id ` set (db_reservations d) then Inl (violation ''reservations_pkey'')
          else if excluded (db_reservations d) hid tr
            then Inl (violation RESERVATION_OVERLAP_CONSTRAINT)
          else if get_user d uid = None then Inl (violation ''reservations_user_id_fkey'')
          else if get_host d hid = None then Inl (violation ''reservations_host_id_fkey'')
          else Inr (d\<lparr>db_reservations := db_reservations d @
                 [\<lparr>r_id = nid, r_user_id = uid, r_host_id = hid, r_time_range = tr,
                   r_status = CONFIRMED, r_canceled_at = None, r_created_at = created\<rparr>]\<rparr>))"

definition insert_token :: "token \<Rightarrow> db \<Rightarrow> app_error + db" where
  "insert_token t d =
     (if t_id t \<in> t_id ` set (db_tokens d) then Inl (violation ''tokens_pkey'')
      else if t_jti t \<in> t_jti ` set (db_tokens d) then Inl (violation ''tokens_jti_key'')
      else if get_user d (t_user_id t) = None then Inl (violation ''tokens_user_id_fkey'')
      else if (case t_host_id t of None \<Rightarrow> False | Some i \<Rightarrow> get_host d i = None)
        then Inl (violation ''tokens_host_id_fkey'')
      else if (case t_reservation_id t of None \<Rightarrow> False | Some i \<Rightarrow> get_reservation_row d i = None)
        then Inl (violation ''tokens_reservation_id_fkey'')
      else Inr (d\<lparr>db_tokens := db_tokens d @ [t]\<rparr>))"

definition insert_host :: "host \<Rightarrow> db \<Rightarrow> app_error + db" where
  "insert_host h d =
     (if h_id h \<in> h_id ` set (db_hosts d) then Inl (violation ''hosts_pkey'')
      else if h_hostname h \<in> h_hostname ` set (db_hosts d) then Inl (violation ''hosts_hostname_key'')
      else Inr (d\<lparr>db_hosts := db_hosts d @ [h]\<rparr>))"

definition cancel_row :: "int \<Rightarrow> instant \<Rightarrow> db \<Rightarrow> db" where
  "cancel_row i now d =
     d\<lparr>db_reservations := update_where (\<lambda>r. r_id r = i)
        (\<lambda>r. r\<lparr>r_status := CANCELED, r_canceled_at := Some now\<rparr>) (db_reservations d)\<rparr>"

lemma cancel_row_frame [simp]:
  "db_users (cancel_row i now d) = db_users d"
  "db_hosts (cancel_row i now d) = db_hosts d"
  "db_tokens (cancel_row i now d) = db_tokens d"
  "db_audits (cancel_row i now d) = db_audits d"
  by (simp_all add: cancel_row_def)

subsection \<open>Well-formedness\<close>

definition exclusive :: "reservation list \<Rightarrow> bool" where
  "exclusive rs \<longleftrightarrow>
     (\<forall>r \<in> set rs. \<forall>q \<in> set rs. r_id r \<noteq> r_id q \<longrightarrow> r_host_id r = r_host_id q \<longrightarrow>
        reservation_active (r_status r) \<longrightarrow> reservation_active (r_status q) \<longrightarrow>
        \<not> range_overlaps (r_time_range r) (r_time_range q))"

definition reservations_wf :: "reservation list \<Rightarrow> bool" where
  "reservations_wf rs \<longleftrightarrow>
     distinct (map r_id rs) \<and> (\<forall>r \<in> set rs. range_ok (r_time_range r)) \<and> exclusive rs"

definition tokens_wf :: "token list \<Rightarrow> bool" where
  "tokens_wf ts \<longleftrightarrow> distinct (map t_id ts) \<and> distinct (map t_jti ts)"

definition hosts_wf :: "host list \<Rightarrow> bool" where
  "hosts_wf hs \<longleftrightarrow> distinct (map h_id hs) \<and> distinct (map h_hostname hs)"

definition users_wf :: "user list \<Rightarrow> bool" where
  "users_wf us \<longleftrightarrow> distinct (map u_id us) \<and> distinct (map (\<lambda>u. (u_provider u, u_external_id u)) us)"

definition refs_wf :: "db \<Rightarrow> bool" where
  "refs_wf d \<longleftrightarrow>
     (\<forall>r \<in> set (db_reservations d). r_user_id r \<in> u_id ` set (db_users d)
        \<and> r_host_id r \<in> h_id ` set (db_hosts d))
     \<and> (\<forall>t \<in> set (db_tokens d). t_user_id t \<in> u_id ` set (db_users d)
        \<and> set_option (t_host_id t) \<subseteq> h_id ` set (db_hosts d)
        \<and> set_option (t_reservation_id t) \<subseteq> r_id ` set (db_reservations d))"

definition wf_db :: "db \<Rightarrow> bool" where
  "wf_db d \<longleftrightarrow> users_wf (db_users d) \<and> hosts_wf (db_hosts d)
     \<and> reservations_wf (db_reservations d) \<and> tokens_wf (db_tokens d) \<and> refs_wf d"

lemmas wf_defs = wf_db_def users_wf_def hosts_wf_def reservations_wf_def tokens_wf_def refs_wf_def

text \<open>\<open>session.get(Model, i)\<close> for a number of a request: the key of the models is an \<open>Integer\<close>, so the driver
  binds 32 bits and raises when the number has more.\<close>

definition session_get :: "(db \<Rightarrow> int \<Rightarrow> 'r option) \<Rightarrow> db \<Rightarrow> int \<Rightarrow> app_error + 'r option" where
  "session_get get d i = (if in_bits 32 i then Inr (get d i) else Inl DataError)"

lemma session_get_simps [simp]:
  "in_bits 32 i \<Longrightarrow> session_get get d i = Inr (get d i)" "\<not> in_bits 32 i \<Longrightarrow> session_get get d i = Inl DataError"
  by (simp_all add: session_get_def)

lemma session_get_iff [simp]:
  "session_get get d i = Inr x \<longleftrightarrow> in_bits 32 i \<and> x = get d i"
  "session_get get d i = Inl err \<longleftrightarrow> \<not> in_bits 32 i \<and> err = DataError"
  by (auto simp: session_get_def)

lemma get_None_iff:
  "get_host d i = None \<longleftrightarrow> i \<notin> h_id ` set (db_hosts d)"
  "get_user d i = None \<longleftrightarrow> i \<notin> u_id ` set (db_users d)"
  "get_reservation_row d i = None \<longleftrightarrow> i \<notin> r_id ` set (db_reservations d)"
  by (simp_all add: get_host_def get_user_def get_reservation_row_def fetch_None_iff)

lemma get_reservation_rowD:
  "get_reservation_row d i = Some r \<Longrightarrow> r \<in> set (db_reservations d) \<and> r_id r = i"
  by (auto simp: get_reservation_row_def dest: fetch_SomeD)

lemma get_hostD: "get_host d i = Some h \<Longrightarrow> h \<in> set (db_hosts d) \<and> h_id h = i"
  by (auto simp: get_host_def dest: fetch_SomeD)

lemma wf_empty_db [simp]: "wf_db empty_db"
  by (simp add: wf_defs empty_db_def exclusive_def)

lemma wf_write_audit [wf_intros]: "wf_db d \<Longrightarrow> wf_db (write_audit a ac k tk ti r de p ip d)"
  by (simp add: wf_defs)

subsection \<open>The statements keep the tables well-formed\<close>

text \<open>What a successful insertion has established and done.\<close>

lemma insert_reservation_Inr:
  assumes "insert_reservation nid uid hid s e created d = Inr d'"
  obtains tr where "mk_range s e = Inr tr"
    and "nid \<notin> r_id ` set (db_reservations d)"
    and "\<not> excluded (db_reservations d) hid tr"
    and "uid \<in> u_id ` set (db_users d)" and "hid \<in> h_id ` set (db_hosts d)"
    and "d' = d\<lparr>db_reservations := db_reservations d @
                 [\<lparr>r_id = nid, r_user_id = uid, r_host_id = hid, r_time_range = tr,
                   r_status = CONFIRMED, r_canceled_at = None, r_created_at = created\<rparr>]\<rparr>"
  using assms
  by (auto simp: insert_reservation_def get_None_iff split: sum.splits if_splits)

lemma exclusive_append:
  assumes "exclusive rs" "\<not> excluded rs (r_host_id r) (r_time_range r)"
  shows "exclusive (rs @ [r])"
  using assms unfolding exclusive_def excluded_def by (auto simp: range_overlaps_sym)

lemma reservations_wf_insert:
  assumes "insert_reservation nid uid hid s e created d = Inr d'"
    and "reservations_wf (db_reservations d)"
  shows "reservations_wf (db_reservations d')"
  using assms(1)
proof (rule insert_reservation_Inr)
  fix tr
  assume tr: "mk_range s e = Inr tr" and new: "nid \<notin> r_id ` set (db_reservations d)"
    and free: "\<not> excluded (db_reservations d) hid tr"
    and d': "d' = d\<lparr>db_reservations := db_reservations d @
                 [\<lparr>r_id = nid, r_user_id = uid, r_host_id = hid, r_time_range = tr,
                   r_status = CONFIRMED, r_canceled_at = None, r_created_at = created\<rparr>]\<rparr>"
  from free have "exclusive (db_reservations d')"
    unfolding d' using assms(2) by (auto simp: reservations_wf_def intro!: exclusive_append)
  moreover from mk_range_ok [OF tr] new assms(2)
  have "distinct (map r_id (db_reservations d'))"
    and "\<forall>r \<in> set (db_reservations d'). range_ok (r_time_range r)"
    by (auto simp: d' reservations_wf_def)
  ultimately show ?thesis by (simp add: reservations_wf_def)
qed

lemma wf_insert_reservation [wf_intros]:
  assumes "insert_reservation nid uid hid s e created d = Inr d'" and "wf_db d"
  shows "wf_db d'"
proof -
  from assms have "reservations_wf (db_reservations d')"
    by (auto simp: wf_db_def intro: reservations_wf_insert)
  moreover have "refs_wf d'"
    using assms(1) by (rule insert_reservation_Inr) (use assms(2) in \<open>auto simp: wf_db_def refs_wf_def\<close>)
  moreover have "db_users d' = db_users d" "db_hosts d' = db_hosts d" "db_tokens d' = db_tokens d"
    using assms(1) by (auto elim: insert_reservation_Inr)
  ultimately show ?thesis using assms(2) by (simp add: wf_db_def)
qed

lemma insert_token_Inr:
  assumes "insert_token t d = Inr d'"
  shows "d' = d\<lparr>db_tokens := db_tokens d @ [t]\<rparr>" "t_id t \<notin> t_id ` set (db_tokens d)"
    "t_jti t \<notin> t_jti ` set (db_tokens d)" "t_user_id t \<in> u_id ` set (db_users d)"
    "set_option (t_host_id t) \<subseteq> h_id ` set (db_hosts d)"
    "set_option (t_reservation_id t) \<subseteq> r_id ` set (db_reservations d)"
  using assms by (auto simp: insert_token_def get_None_iff split: if_splits option.splits)

lemma wf_insert_token [wf_intros]:
  assumes "insert_token t d = Inr d'" and "wf_db d"
  shows "wf_db d'"
  using insert_token_Inr [OF assms(1)] assms(2)
  by (auto simp: wf_db_def tokens_wf_def refs_wf_def)

lemma insert_host_Inr:
  assumes "insert_host h d = Inr d'"
  shows "d' = d\<lparr>db_hosts := db_hosts d @ [h]\<rparr>" "h_id h \<notin> h_id ` set (db_hosts d)"
    "h_hostname h \<notin> h_hostname ` set (db_hosts d)"
  using assms by (auto simp: insert_host_def split: if_splits)

lemma wf_insert_host [wf_intros]:
  assumes "insert_host h d = Inr d'" and "wf_db d"
  shows "wf_db d'"
  using insert_host_Inr [OF assms(1)] assms(2)
  by (auto simp: wf_db_def hosts_wf_def refs_wf_def)

lemma exclusive_update:
  assumes "exclusive rs"
    and "\<And>r. r_id (f r) = r_id r" "\<And>r. r_host_id (f r) = r_host_id r"
    and "\<And>r. r_time_range (f r) = r_time_range r"
    and "\<And>r. reservation_active (r_status (f r)) \<Longrightarrow> reservation_active (r_status r)"
  shows "exclusive (update_where P f rs)"
  unfolding exclusive_def
proof (intro ballI impI)
  fix r q
  assume r: "r \<in> set (update_where P f rs)" and q: "q \<in> set (update_where P f rs)"
    and diff: "r_id r \<noteq> r_id q" "r_host_id r = r_host_id q"
    and act: "reservation_active (r_status r)" "reservation_active (r_status q)"
  from r obtain r' where r': "r' \<in> set rs" "r = (if P r' then f r' else r')"
    by (rule in_update_whereE)
  from q obtain q' where q': "q' \<in> set rs" "q = (if P q' then f q' else q')"
    by (rule in_update_whereE)
  have "reservation_active (r_status r')" "reservation_active (r_status q')"
    using act r'(2) q'(2) by (auto dest: assms(5) split: if_splits)
  with assms(1) r'(1) q'(1) diff show "\<not> range_overlaps (r_time_range r) (r_time_range q)"
    unfolding r'(2) q'(2) exclusive_def by (simp add: assms(2-4) split: if_splits)
qed

lemma wf_cancel_row [wf_intros]:
  assumes "wf_db d" shows "wf_db (cancel_row i now d)"
proof -
  let ?f = "\<lambda>r. r\<lparr>r_status := CANCELED, r_canceled_at := Some now\<rparr>"
  let ?rs = "update_where (\<lambda>r. r_id r = i) ?f (db_reservations d)"
  have "reservations_wf ?rs"
    using assms by (auto simp: wf_db_def reservations_wf_def map_update_where set_update_where
        intro!: exclusive_update)
  moreover have "r_id ` set ?rs = r_id ` set (db_reservations d)"
    by (simp add: image_update_where)
  moreover from this have "refs_wf (d\<lparr>db_reservations := ?rs\<rparr>)"
    using assms by (auto simp: wf_db_def refs_wf_def elim!: in_update_whereE)
  ultimately show ?thesis
    using assms by (simp add: wf_db_def cancel_row_def)
qed

lemma wf_save_host [wf_intros]:
  assumes "wf_db d" "get_host d (h_id h) = Some h0" "h_hostname h = h_hostname h0"
  shows "wf_db (save_host h d)"
proof -
  have h0: "h0 \<in> set (db_hosts d)" "h_id h0 = h_id h"
    using assms(2) by (auto dest: get_hostD)
  with assms(1) have "q \<in> set (db_hosts d) \<Longrightarrow> h_id q = h_id h \<Longrightarrow> q = h0" for q
    by (auto simp: wf_db_def hosts_wf_def distinct_map inj_on_def)
  then have "map h_hostname (db_hosts (save_host h d)) = map h_hostname (db_hosts d)"
    using assms(3) by (auto simp: save_host_def update_where_def)
  moreover have "h_id ` set (db_hosts (save_host h d)) = h_id ` set (db_hosts d)"
    using save_host_ids [of h d] by (metis list.set_map)
  ultimately show ?thesis
    using assms(1) by (simp add: wf_db_def hosts_wf_def refs_wf_def)
qed

end
