(* ===== verification/Reservation_Rules.thy ===== *)
theory Reservation_Rules
  imports Database
begin

text \<open>
  The checks of \<open>services/reservation.py\<close> that come before an insertion: the 30-minute grid,
  the window policy, the window of an instant use, the next reservation of a host and the two
  quotas.  The clock readings of \<open>_now()\<close> are arguments.  A check returns \<open>Inr\<close> when it
  passes and \<open>Inl\<close> of the exception it raises otherwise.
\<close>

subsection \<open>Grid and window\<close>

definition is_grid_aligned :: "datetime \<Rightarrow> int \<Rightarrow> app_error + bool" where
  "is_grid_aligned dt slot_minutes =
     (let w = dt_wall dt in
      if dt_tz dt = None then Inr False
      else if slot_minutes = 30 then
        Inr (minute w \<in> {0, 30} \<and> second w = 0 \<and> microsecond w = 0)
      else if slot_minutes = 0 then Inl ZeroDivisionError
      else Inr (minute w mod slot_minutes = 0 \<and> second w = 0 \<and> microsecond w = 0))"

text \<open>\<open>if not _is_grid_aligned(...): raise ...\<close>\<close>

definition require_aligned :: "string \<Rightarrow> datetime \<Rightarrow> int \<Rightarrow> app_error + unit" where
  "require_aligned field dt slot_minutes =
     (case is_grid_aligned dt slot_minutes of
        Inl err \<Rightarrow> Inl err
      | Inr False \<Rightarrow> Inl (InvalidReservationWindow (Misaligned (Some field) slot_minutes))
      | Inr True \<Rightarrow> Inr ())"

definition validate_window ::
  "settings \<Rightarrow> instant \<Rightarrow> datetime \<Rightarrow> datetime \<Rightarrow> app_error + unit" where
  "validate_window cfg now starts_at ends_at =
     (let slot_minutes = reservation_slot_minutes cfg;
          s = instant_of starts_at; e = instant_of ends_at;
          duration = e - s;
          max_duration = max_reservation_duration_minutes cfg * min_us in
      if \<not> aware starts_at \<or> \<not> aware ends_at
        then Inl (InvalidReservationWindow NaiveDatetime)
      else case require_aligned ''starts_at'' starts_at slot_minutes of
        Inl err \<Rightarrow> Inl err
      | Inr _ \<Rightarrow> (case require_aligned ''ends_at'' ends_at slot_minutes of
          Inl err \<Rightarrow> Inl err
        | Inr _ \<Rightarrow>
            if s \<ge> e then Inl (InvalidReservationWindow (StartNotBeforeEnd (Some (starts_at, ends_at))))
            else if duration > max_duration
              then Inl (InvalidReservationWindow (DurationExceeded (duration div min_us)
                     (max_reservation_duration_minutes cfg)))
            else if s < now then Inl (InvalidReservationWindow (StartsInPast starts_at now))
            else if s > now + reservation_lookahead_days cfg * day_us
              then Inl (InvalidReservationWindow (BeyondLookahead starts_at (reservation_lookahead_days cfg)))
            else Inr ()))"

lemma half_hour_minute: "minute w mod 30 = 0 \<longleftrightarrow> minute w \<in> {0, 30}"
proof -
  have "0 \<le> minute w" "minute w < 60" by (simp_all add: minute_def)
  then show ?thesis by (simp only: insert_iff empty_iff) presburger
qed

lemma is_grid_aligned_30:
  "is_grid_aligned dt 30 = Inr (aware dt \<and> dt_wall dt mod (30 * min_us) = 0)"
proof -
  have "w mod (30 * min_us) = (minute w mod 30) * min_us + w mod min_us" for w
    using zmod_zmult2_eq [of 30 w min_us] by (simp add: minute_def mod_mod_cancel)
  moreover have "0 \<le> minute w mod 30" "0 \<le> w mod min_us" for w by simp_all
  ultimately have "w mod (30 * min_us) = 0 \<longleftrightarrow> minute w mod 30 = 0 \<and> w mod min_us = 0" for w
    by (smt (verit, best))
  then show ?thesis
    using second_microsecond_zero_iff [of "dt_wall dt"] half_hour_minute
    by (auto simp: is_grid_aligned_def aware_def Let_def)
qed

lemma require_aligned_30:
  "require_aligned field dt 30 =
     (if aware dt \<and> dt_wall dt mod (30 * min_us) = 0 then Inr ()
      else Inl (InvalidReservationWindow (Misaligned (Some field) 30)))"
  by (auto simp: require_aligned_def is_grid_aligned_30 split: bool.splits)

definition window_accepted :: "settings \<Rightarrow> instant \<Rightarrow> datetime \<Rightarrow> datetime \<Rightarrow> bool" where
  "window_accepted cfg now s e \<longleftrightarrow>
     aware s \<and> aware e
     \<and> dt_wall s mod (30 * min_us) = 0 \<and> dt_wall e mod (30 * min_us) = 0
     \<and> instant_of s < instant_of e
     \<and> instant_of e - instant_of s \<le> max_reservation_duration_minutes cfg * min_us
     \<and> now \<le> instant_of s \<and> instant_of s \<le> now + reservation_lookahead_days cfg * day_us"

text \<open>With the deployed slot of 30 minutes, the window check passes exactly on the windows of
  the policy: both ends carry an offset and lie on the half-hour grid of their own wall clock, the
  start is before the end, the length is at most the maximum, and the start is neither past nor
  beyond the lookahead.\<close>
theorem validate_window_iff:
  "reservation_slot_minutes cfg = 30 \<Longrightarrow>
     is_ok (validate_window cfg now s e) \<longleftrightarrow> window_accepted cfg now s e"
  by (auto simp: validate_window_def window_accepted_def require_aligned_30 Let_def)

lemma validate_window_Inr:
  "reservation_slot_minutes cfg = 30 \<Longrightarrow>
     validate_window cfg now s e = Inr u \<longleftrightarrow> window_accepted cfg now s e"
  by (auto simp: validate_window_def window_accepted_def require_aligned_30 Let_def)

theorem validate_window_iff_witness:
  "is_ok (validate_window default_settings 0 (at_utc 0) (at_utc hour_us))
   \<and> \<not> is_ok (validate_window default_settings 0 (at_utc 0) (at_utc (5 * hour_us)))"
proof -
  have "reservation_slot_minutes default_settings = 30" by (simp add: default_settings_def)
  moreover have "window_accepted default_settings 0 (at_utc 0) (at_utc hour_us)"
    "\<not> window_accepted default_settings 0 (at_utc 0) (at_utc (5 * hour_us))" by code_simp+
  ultimately show ?thesis using validate_window_iff [of default_settings] by blast
qed

text \<open>Whatever the settings, a window that passes is a proper one.\<close>

lemma validate_window_proper:
  "validate_window cfg now s e = Inr u \<Longrightarrow>
     aware s \<and> aware e \<and> instant_of s < instant_of e \<and> now \<le> instant_of s"
  by (auto simp: validate_window_def Let_def split: sum.splits if_splits)

subsection \<open>Instant use\<close>

definition INSTANT_USE_DURATION :: int where
  "INSTANT_USE_DURATION = 2 * hour_us + 30 * min_us"

definition instant_window :: "instant \<Rightarrow> instant option \<Rightarrow> instant \<times> instant" where
  "instant_window now next_reservation_at =
     (let starts_at = replace_microsecond now 0;
          target = now + INSTANT_USE_DURATION;
          floored = replace_below_hour target ((minute target div 30) * 30) 0 0;
          ends_at = floored + 30 * min_us in
      (starts_at,
       case next_reservation_at of
         None \<Rightarrow> ends_at
       | Some n \<Rightarrow> if n < ends_at then n else ends_at))"

fun min_option :: "int list \<Rightarrow> int option" where
  "min_option [] = None"
| "min_option (x # xs) = (case min_option xs of None \<Rightarrow> Some x | Some m \<Rightarrow> Some (min x m))"

lemma min_option_None [simp]: "min_option xs = None \<longleftrightarrow> xs = []"
  by (cases xs) (auto split: option.splits)

lemma min_option_Some: "min_option xs = Some m \<Longrightarrow> m \<in> set xs \<and> (\<forall>x \<in> set xs. m \<le> x)"
  by (induction xs arbitrary: m) (auto split: option.splits if_splits simp: min_def)

definition next_reservation_start :: "db \<Rightarrow> int \<Rightarrow> instant \<Rightarrow> instant option" where
  "next_reservation_start d hid after =
     min_option (List.map_filter (\<lambda>r.
        if r_host_id r = hid \<and> r_status r = CONFIRMED then
          (case range_lower (r_time_range r) of
             None \<Rightarrow> None | Some l \<Rightarrow> if l > after then Some l else None)
        else None) (db_reservations d))"

text \<open>The end of the uncut window: the first half hour strictly after now plus two and a half.\<close>

definition instant_limit :: "instant \<Rightarrow> instant" where
  "instant_limit now =
     (let target = now + INSTANT_USE_DURATION in target - target mod (30 * min_us) + 30 * min_us)"

lemma instant_window_eq:
  "instant_window now nxt =
     (now - now mod sec_us,
      case nxt of None \<Rightarrow> instant_limit now | Some n \<Rightarrow> min n (instant_limit now))"
  by (simp add: instant_window_def instant_limit_def replace_half_hour replace_microsecond_0 Let_def
      min_def split: option.splits)

lemma instant_limit_bounds:
  "now + INSTANT_USE_DURATION < instant_limit now"
  "instant_limit now \<le> now + INSTANT_USE_DURATION + 30 * min_us"
  "instant_limit now mod (30 * min_us) = 0"
proof -
  show "instant_limit now mod (30 * min_us) = 0"
    by (simp add: instant_limit_def Let_def minus_mod_eq_mult_div)
qed (simp_all add: instant_limit_def Let_def)

lemma next_reservation_start_Some:
  assumes "next_reservation_start d hid after = Some n"
  shows "after < n"
    and "\<exists>r \<in> set (db_reservations d). r_host_id r = hid \<and> r_status r = CONFIRMED
           \<and> range_lower (r_time_range r) = Some n"
    and "\<lbrakk> r \<in> set (db_reservations d); r_host_id r = hid; r_status r = CONFIRMED;
           range_lower (r_time_range r) = Some l; after < l \<rbrakk> \<Longrightarrow> n \<le> l"
  using min_option_Some [OF assms [unfolded next_reservation_start_def]]
  by (fastforce simp: List.map_filter_def split: if_splits option.splits)+

lemma next_reservation_start_None:
  assumes "next_reservation_start d hid after = None" "r \<in> set (db_reservations d)"
    "r_host_id r = hid" "r_status r = CONFIRMED" "range_lower (r_time_range r) = Some l"
  shows "l \<le> after"
  using assms
  by (fastforce simp: next_reservation_start_def List.map_filter_def filter_empty_conv split: if_splits)

lemma next_reservation_start_le:
  assumes "r \<in> set (db_reservations d)" "r_host_id r = hid" "r_status r = CONFIRMED"
    "range_lower (r_time_range r) = Some l" "after < l"
  shows "\<exists>n. next_reservation_start d hid after = Some n \<and> n \<le> l"
proof (cases "next_reservation_start d hid after")
  case None
  from next_reservation_start_None [OF this assms(1-4)] assms(5) show ?thesis by simp
next
  case (Some n)
  from next_reservation_start_Some(3) [OF this assms] Some show ?thesis by simp
qed

lemma instant_window_bounds:
  "(case instant_window now (next_reservation_start d hid now) of (s, e) \<Rightarrow>
     s \<le> now \<and> now < s + sec_us \<and> s mod sec_us = 0 \<and> now < e
     \<and> e \<le> now + 3 * hour_us
     \<and> (if next_reservation_start d hid now = Some e then True
        else now + INSTANT_USE_DURATION < e \<and> e mod (30 * min_us) = 0))"
proof -
  have "now mod sec_us < sec_us" "0 \<le> now mod sec_us" by simp_all
  moreover have "(now - now mod sec_us) mod sec_us = 0" by (simp add: minus_mod_eq_mult_div)
  moreover note instant_limit_bounds [of now]
  ultimately show ?thesis
    by (auto simp: instant_window_eq INSTANT_USE_DURATION_def min_def split: option.splits
        dest: next_reservation_start_Some(1))
qed

lemma instant_window_proper:
  assumes "instant_window now (next_reservation_start d hid now) = (s, e)"
  shows "s \<le> now" "now < e" "s < e"
  using instant_window_bounds [of now d hid] assms by (auto split: if_splits)

text \<open>The window of an instant use: it starts at the current second, ends on the half-hour
  grid between two and a half and three hours later unless the next reservation of the host starts
  before that, in which case it ends exactly there; it is never empty and always covers the
  present.\<close>
theorem instant_window_spec:
  "(case instant_window now (next_reservation_start d hid now) of (s, e) \<Rightarrow>
     s \<le> now \<and> now < s + sec_us \<and> s mod sec_us = 0 \<and> now < e
     \<and> e \<le> now + 3 * hour_us
     \<and> (if next_reservation_start d hid now = Some e then True
        else now + INSTANT_USE_DURATION < e \<and> e mod (30 * min_us) = 0))"
  by (rule instant_window_bounds)

subsection \<open>Quotas\<close>

definition ends_after :: "instant \<Rightarrow> time_range \<Rightarrow> bool" where
  "ends_after t tr \<longleftrightarrow> (case range_upper tr of None \<Rightarrow> False | Some u \<Rightarrow> u > t)"

definition concurrent_count :: "db \<Rightarrow> int \<Rightarrow> instant \<Rightarrow> int" where
  "concurrent_count d uid now =
     int (count_where (\<lambda>r. r_user_id r = uid \<and> reservation_active (r_status r)
            \<and> ends_after now (r_time_range r)) (db_reservations d))"

definition clipped_minutes :: "instant \<Rightarrow> instant \<Rightarrow> time_range \<Rightarrow> int" where
  "clipped_minutes day_start day_end raw =
     (case (range_lower raw, range_upper raw) of
        (Some lower, Some upper) \<Rightarrow>
          (let clipped_lower = max lower day_start; clipped_upper = min upper day_end in
           if clipped_upper > clipped_lower then (clipped_upper - clipped_lower) div min_us else 0)
      | _ \<Rightarrow> 0)"

definition used_minutes :: "db \<Rightarrow> int \<Rightarrow> instant \<Rightarrow> instant \<Rightarrow> int" where
  "used_minutes d uid day_start day_end =
     sum_list (map (\<lambda>r. clipped_minutes day_start day_end (r_time_range r))
       (filter (\<lambda>r. r_user_id r = uid \<and> reservation_active (r_status r)
                  \<and> range_overlaps (r_time_range r) (TimeRange day_start day_end))
          (db_reservations d)))"

definition day_start_of :: "datetime \<Rightarrow> instant" where
  "day_start_of starts_at = instant_of (starts_at\<lparr>dt_wall := midnight (dt_wall starts_at)\<rparr>)"

definition validate_quota ::
  "settings \<Rightarrow> instant \<Rightarrow> db \<Rightarrow> user \<Rightarrow> datetime \<Rightarrow> datetime \<Rightarrow> app_error + unit" where
  "validate_quota cfg now d usr starts_at ends_at =
     (let current = concurrent_count d (u_id usr) now;
          day_start = day_start_of starts_at; day_end = day_start + day_us;
          new_duration_minutes = (instant_of ends_at - instant_of starts_at) div min_us;
          used = used_minutes d (u_id usr) day_start day_end;
          max_minutes = max_reservation_hours_per_day cfg * 60 in
      if current \<ge> max_concurrent_reservations cfg
        then Inl (ReservationQuota (ConcurrentLimit current (max_concurrent_reservations cfg)))
      else if used + new_duration_minutes > max_minutes
        then Inl (ReservationQuota (DailyLimit used new_duration_minutes max_minutes))
      else Inr ())"

lemma validate_quota_Inr:
  "validate_quota cfg now d usr s e = Inr u \<longleftrightarrow>
     concurrent_count d (u_id usr) now < max_concurrent_reservations cfg
     \<and> used_minutes d (u_id usr) (day_start_of s) (day_start_of s + day_us)
         + (instant_of e - instant_of s) div min_us \<le> max_reservation_hours_per_day cfg * 60"
  by (auto simp: validate_quota_def Let_def)

lemma clipped_minutes_nonneg: "0 \<le> clipped_minutes a b tr"
  by (auto simp: clipped_minutes_def Let_def split: option.splits intro!: div_int_pos_iff [THEN iffD2])

lemma clipped_minutes_le:
  assumes "s < e" shows "clipped_minutes a b (TimeRange s e) \<le> (e - s) div min_us"
  using assms by (auto simp: clipped_minutes_def Let_def intro!: zdiv_mono1)

lemma day_start_of_le: "day_start_of s \<le> instant_of s" "instant_of s < day_start_of s + day_us"
  using midnight_bounds [of "dt_wall s"]
  by (auto simp: day_start_of_def instant_of_def split: option.splits)

lemma int_nat_diff: "int (nat (y - x)) = (if x < y then y - x else 0)" for x y :: int
  by auto

text \<open>What the clipping computes: the whole minutes of the time the range and the day have in
  common.\<close>

lemma clipped_minutes_card:
  "range_ok tr \<Longrightarrow> clipped_minutes a b tr
     = int (card {t. range_contains tr t \<and> a \<le> t \<and> t < b}) div min_us"
proof (cases tr)
  case (TimeRange s e)
  have "{t. range_contains tr t \<and> a \<le> t \<and> t < b} = {max s a ..< min e b}"
    using TimeRange by auto
  then have card: "int (card {t. range_contains tr t \<and> a \<le> t \<and> t < b})
      = (if max s a < min e b then min e b - max s a else 0)"
    by (simp only: card_atLeastLessThan_int int_nat_diff)
  show ?thesis
    unfolding card by (simp only: TimeRange clipped_minutes_def range_lower.simps range_upper.simps
        prod.case option.case Let_def) simp
qed (simp add: clipped_minutes_def)

end
