(* ===== verification/Reservation_Service.thy ===== *)
theory Reservation_Service
  imports Reservation_Rules
begin

text \<open>
  The operations of \<open>services/reservation.py\<close>: booking a window, booking for immediate use,
  cancelling, reading and listing reservations, the hosts that are free right now and the
  reservation a host is serving.  An operation takes the database and returns an exception or a
  result with the new database; the caller commits.  Each reading of the clock and the key the
  server assigns to a new row are arguments, in the order in which the code obtains them.
\<close>

fun contains_str :: "string \<Rightarrow> string \<Rightarrow> bool" where
  "contains_str p [] \<longleftrightarrow> p = []"
| "contains_str p (c # cs) \<longleftrightarrow> take (length p) (c # cs) = p \<or> contains_str p cs"

definition is_overlap_violation :: "integrity_error \<Rightarrow> bool" where
  "is_overlap_violation exc \<longleftrightarrow>
     (if ie_constraint exc = Some RESERVATION_OVERLAP_CONSTRAINT then True
      else contains_str RESERVATION_OVERLAP_CONSTRAINT (ie_message exc))"

definition validate_host_exists :: "db \<Rightarrow> int \<Rightarrow> app_error + host" where
  "validate_host_exists d hid =
     (case session_get get_host d hid of
        Inl err \<Rightarrow> Inl err
      | Inr None \<Rightarrow> Inl (HostNotFound hid)
      | Inr (Some h) \<Rightarrow> Inr h)"

lemma validate_host_exists_iff:
  "validate_host_exists d hid = Inr h \<longleftrightarrow> in_bits 32 hid \<and> get_host d hid = Some h"
  "validate_host_exists d hid = Inl err \<longleftrightarrow>
     (if in_bits 32 hid then get_host d hid = None \<and> err = HostNotFound hid else err = DataError)"
  "is_ok (validate_host_exists d hid) \<longleftrightarrow> in_bits 32 hid \<and> get_host d hid \<noteq> None"
  by (auto simp: validate_host_exists_def is_ok_def split: sum.splits option.splits)

text \<open>The statement \<open>INSERT ... RETURNING id\<close> with the handling of \<open>IntegrityError\<close>, the
  re-read of the row and the audit entry, which both ways of booking share.\<close>

definition book_row ::
  "int \<Rightarrow> instant \<Rightarrow> user \<Rightarrow> int \<Rightarrow> datetime \<Rightarrow> datetime \<Rightarrow> (string \<times> json) list \<Rightarrow> db \<Rightarrow>
     app_error + (reservation \<times> db)" where
  "book_row nid created usr hid s e extra d =
     (case insert_reservation nid (u_id usr) hid (instant_of s) (instant_of e) created d of
        Inl (Integrity exc) \<Rightarrow>
          if is_overlap_violation exc then Inl ReservationConflict else Inl (Integrity exc)
      | Inl err \<Rightarrow> Inl err
      | Inr d' \<Rightarrow>
          (case get_reservation_row d' nid of
             None \<Rightarrow> Inl RuntimeError
           | Some r \<Rightarrow>
               Inr (r, write_audit ''reservation_create'' (Some (u_id usr)) ActorUser
                      (Some ''reservation'') (Some (r_id r)) AuditSuccess
                      ([(''host_id'', JInt hid), (''starts_at'', JTime s), (''ends_at'', JTime e)] @ extra)
                      (Some (u_provider usr)) None d')))"

definition create_reservation ::
  "settings \<Rightarrow> instant \<Rightarrow> instant \<Rightarrow> int \<Rightarrow> instant \<Rightarrow> user \<Rightarrow> int \<Rightarrow> datetime \<Rightarrow> datetime \<Rightarrow> db \<Rightarrow>
     app_error + (reservation \<times> db)" where
  "create_reservation cfg now1 now2 nid created usr hid starts_at ends_at d =
     (case validate_window cfg now1 starts_at ends_at of
        Inl err \<Rightarrow> Inl err
      | Inr _ \<Rightarrow> (case validate_host_exists d hid of
          Inl err \<Rightarrow> Inl err
        | Inr _ \<Rightarrow> (case validate_quota cfg now2 d usr starts_at ends_at of
            Inl err \<Rightarrow> Inl err
          | Inr _ \<Rightarrow> book_row nid created usr hid starts_at ends_at [] d)))"

definition create_instant_reservation ::
  "settings \<Rightarrow> instant \<Rightarrow> instant \<Rightarrow> int \<Rightarrow> instant \<Rightarrow> user \<Rightarrow> int \<Rightarrow> db \<Rightarrow>
     app_error + (reservation \<times> db)" where
  "create_instant_reservation cfg now now2 nid created usr hid d =
     (case validate_host_exists d hid of
        Inl err \<Rightarrow> Inl err
      | Inr h \<Rightarrow>
          if h_status h \<noteq> IDLE then Inl (HostNotAvailable hid (h_status h))
          else (case instant_window now (next_reservation_start d hid now) of (s, e) \<Rightarrow>
            (case validate_quota cfg now2 d usr (at_utc s) (at_utc e) of
               Inl err \<Rightarrow> Inl err
             | Inr _ \<Rightarrow>
                 book_row nid created usr hid (at_utc s) (at_utc e) [(''instant'', JBool True)] d)))"

definition assert_can_access :: "reservation \<Rightarrow> user \<Rightarrow> app_error + unit" where
  "assert_can_access r usr =
     (if is_admin usr then Inr () else if r_user_id r = u_id usr then Inr () else Inl NotOwner)"

definition get_reservation :: "user \<Rightarrow> int \<Rightarrow> db \<Rightarrow> app_error + reservation" where
  "get_reservation usr rid d =
     (case session_get get_reservation_row d rid of
        Inl err \<Rightarrow> Inl err
      | Inr None \<Rightarrow> Inl (ReservationNotFound rid)
      | Inr (Some r) \<Rightarrow> (case assert_can_access r usr of Inl err \<Rightarrow> Inl err | Inr _ \<Rightarrow> Inr r))"

definition cancel_reservation ::
  "instant \<Rightarrow> user \<Rightarrow> int \<Rightarrow> db \<Rightarrow> app_error + (reservation \<times> db)" where
  "cancel_reservation now usr rid d =
     (case get_reservation usr rid d of
        Inl err \<Rightarrow> Inl err
      | Inr r \<Rightarrow>
          if r_status r = CANCELED then Inr (r, d)
          else
            (let d' = cancel_row (r_id r) now d in
             case get_reservation_row d' (r_id r) of
               None \<Rightarrow> Inl RuntimeError
             | Some r' \<Rightarrow>
                 Inr (r', write_audit ''reservation_cancel'' (Some (u_id usr)) ActorUser
                        (Some ''reservation'') (Some (r_id r')) AuditSuccess
                        [(''by'', JStr (if is_admin usr then ''admin'' else ''owner''))]
                        (Some (u_provider usr)) None d')))"

definition list_reservations ::
  "user \<Rightarrow> instant option \<Rightarrow> instant option \<Rightarrow> int option \<Rightarrow> int option \<Rightarrow> db \<Rightarrow> reservation list" where
  "list_reservations viewer from_at to_at hid user_id_filter d =
     (let rows = filter (\<lambda>r.
        reservation_active (r_status r)
        \<and> (if is_admin viewer then (case user_id_filter of None \<Rightarrow> True | Some u \<Rightarrow> r_user_id r = u)
           else r_user_id r = u_id viewer)
        \<and> (case hid of None \<Rightarrow> True | Some h \<Rightarrow> r_host_id r = h)
        \<and> (case from_at of None \<Rightarrow> True | Some f \<Rightarrow> ends_after f (r_time_range r))
        \<and> (case to_at of None \<Rightarrow> True
           | Some t \<Rightarrow> (case range_lower (r_time_range r) of None \<Rightarrow> False | Some l \<Rightarrow> l < t)))
        (db_reservations d) in
      sort_key (\<lambda>r. the (range_lower (r_time_range r)))
        (filter (\<lambda>r. range_lower (r_time_range r) \<noteq> None) rows)
      @ filter (\<lambda>r. range_lower (r_time_range r) = None) rows)"

definition get_active_reservation_for_host :: "db \<Rightarrow> int \<Rightarrow> instant \<Rightarrow> reservation option" where
  "get_active_reservation_for_host d hid at_time =
     find (\<lambda>r. r_host_id r = hid \<and> r_status r = CONFIRMED \<and> range_contains (r_time_range r) at_time)
       (db_reservations d)"

definition list_instant_available_hosts :: "instant \<Rightarrow> db \<Rightarrow> (host \<times> instant) list" where
  "list_instant_available_hosts now d =
     map (\<lambda>h. (h, snd (instant_window now (next_reservation_start d (h_id h) now))))
       (sort_key h_id (filter (\<lambda>h. h_status h = IDLE
          \<and> \<not> (\<exists>r \<in> set (db_reservations d). r_host_id r = h_id h
                 \<and> reservation_active (r_status r) \<and> range_contains (r_time_range r) now))
          (db_hosts d)))"

definition reservation_bounds :: "reservation \<Rightarrow> app_error + (instant \<times> instant)" where
  "reservation_bounds r =
     (case (range_lower (r_time_range r), range_upper (r_time_range r)) of
        (Some lower, Some upper) \<Rightarrow> Inr (lower, upper)
      | _ \<Rightarrow> Inl RuntimeError)"

subsection \<open>What the operations do\<close>

lemma is_overlap_violation_simps:
  "is_overlap_violation \<lparr>ie_constraint = Some RESERVATION_OVERLAP_CONSTRAINT, ie_message = m\<rparr>"
  "violation c = Integrity exc \<Longrightarrow>
     c \<in> {''reservations_pkey'', ''reservations_user_id_fkey'', ''reservations_host_id_fkey''} \<Longrightarrow>
     \<not> is_overlap_violation exc"
  by (auto simp: is_overlap_violation_def violation_def RESERVATION_OVERLAP_CONSTRAINT_def)

text \<open>A booking succeeds exactly when the insertion does, and fails with a conflict exactly when
  the exclusion constraint refuses the row.\<close>

definition booked :: "int \<Rightarrow> user \<Rightarrow> int \<Rightarrow> instant \<Rightarrow> instant \<Rightarrow> instant \<Rightarrow> reservation" where
  "booked nid usr hid s e created =
     \<lparr>r_id = nid, r_user_id = u_id usr, r_host_id = hid, r_time_range = TimeRange s e,
      r_status = CONFIRMED, r_canceled_at = None, r_created_at = created\<rparr>"

lemma book_row_Inr:
  assumes "book_row nid created usr hid s e extra d = Inr (r, d')" "instant_of s < instant_of e"
  shows "r = booked nid usr hid (instant_of s) (instant_of e) created"
    and "db_reservations d' = db_reservations d @ [r]"
    and "\<not> excluded (db_reservations d) hid (TimeRange (instant_of s) (instant_of e))"
    and "nid \<notin> r_id ` set (db_reservations d)"
    and "\<exists>d1. insert_reservation nid (u_id usr) hid (instant_of s) (instant_of e) created d = Inr d1"
    and "db_users d' = db_users d \<and> db_hosts d' = db_hosts d \<and> db_tokens d' = db_tokens d"
proof -
  obtain d1 where ins: "insert_reservation nid (u_id usr) hid (instant_of s) (instant_of e) created d = Inr d1"
    using assms(1) by (auto simp: book_row_def split: sum.splits app_error.splits if_splits)
  then show "\<exists>d1. insert_reservation nid (u_id usr) hid (instant_of s) (instant_of e) created d = Inr d1" ..
  have d1: "d1 = d\<lparr>db_reservations := db_reservations d @
              [booked nid usr hid (instant_of s) (instant_of e) created]\<rparr>"
    and new: "nid \<notin> r_id ` set (db_reservations d)"
    and free: "\<not> excluded (db_reservations d) hid (TimeRange (instant_of s) (instant_of e))"
    using ins assms(2) by (auto elim!: insert_reservation_Inr simp: booked_def mk_range_lt)
  from new have "get_reservation_row d1 nid = Some (booked nid usr hid (instant_of s) (instant_of e) created)"
    by (simp add: d1 get_reservation_row_def fetch_append fetch_None_iff [THEN iffD2] row_simps)
       (simp add: booked_def)
  with assms(1) ins show "r = booked nid usr hid (instant_of s) (instant_of e) created"
    and "db_reservations d' = db_reservations d @ [r]"
    and "db_users d' = db_users d \<and> db_hosts d' = db_hosts d \<and> db_tokens d' = db_tokens d"
    by (auto simp: book_row_def d1)
  show "nid \<notin> r_id ` set (db_reservations d)"
    and "\<not> excluded (db_reservations d) hid (TimeRange (instant_of s) (instant_of e))"
    by (rule new, rule free)
qed

lemma book_row_conflict_iff:
  assumes "instant_of s < instant_of e" "nid \<notin> r_id ` set (db_reservations d)"
  shows "book_row nid created usr hid s e extra d = Inl ReservationConflict \<longleftrightarrow>
     excluded (db_reservations d) hid (TimeRange (instant_of s) (instant_of e))"
  using assms
  by (auto simp: book_row_def insert_reservation_def mk_range_lt is_overlap_violation_simps
      violation_def split: option.splits if_splits)

lemma book_row_frame:
  "book_row nid created usr hid s e extra d = Inr (r, d') \<Longrightarrow> wf_db d \<Longrightarrow> wf_db d'"
  by (auto simp: book_row_def split: sum.splits app_error.splits if_splits option.splits
      intro!: wf_write_audit intro: wf_insert_reservation)

end
