(* ===== verification/Credentials.thy ===== *)
theory Credentials
  imports Clock
begin

text \<open>
  The contract that connect tokens, agent tokens and session cookies share.  A store of credentials
  issues a raw secret to a principal, verifies a secret at a point in time, and withdraws all
  secrets of a principal at once.  Secrets are compared by their digest.  \<open>usable\<close> says when a
  freshly issued secret is to be accepted.

  The lemmas follow an arbitrary history of issuing and revoking: a secret that verifies was given
  out, and withdrawing a principal's secrets is final.  \<open>rotating_credential_store\<close> is the store
  whose issuing withdraws the earlier secrets of the principal; there at most one secret is live.
\<close>

datatype ('x, 'k) credential_op = Issue 'x instant string | Revoke 'k instant

text \<open>A refused issue leaves the store as it was.\<close>

fun history ::
  "('x \<Rightarrow> instant \<Rightarrow> string \<Rightarrow> 's \<Rightarrow> 's option) \<Rightarrow> ('k \<Rightarrow> instant \<Rightarrow> 's \<Rightarrow> 's) \<Rightarrow>
     ('x, 'k) credential_op list \<Rightarrow> 's \<Rightarrow> 's" where
  "history issue revoke [] s = s"
| "history issue revoke (Issue x now raw # ops) s =
     (case issue x now raw s of None \<Rightarrow> history issue revoke ops s | Some s' \<Rightarrow> history issue revoke ops s')"
| "history issue revoke (Revoke k now # ops) s = history issue revoke ops (revoke k now s)"

text \<open>The history issues to principal \<open>k\<close> a secret with the digest of \<open>raw\<close>.\<close>

fun given_out ::
  "(string \<Rightarrow> string) \<Rightarrow> ('x \<Rightarrow> 'k) \<Rightarrow> ('x, 'k) credential_op list \<Rightarrow> 'k \<Rightarrow> string \<Rightarrow> bool" where
  "given_out digest owner [] k raw \<longleftrightarrow> False"
| "given_out digest owner (Issue x now raw' # ops) k raw \<longleftrightarrow>
     owner x = k \<and> digest raw' = digest raw \<or> given_out digest owner ops k raw"
| "given_out digest owner (Revoke k' now # ops) k raw \<longleftrightarrow> given_out digest owner ops k raw"

locale credential_store =
  fixes digest :: "string \<Rightarrow> string"
    and owner :: "'x \<Rightarrow> 'k"
    and usable :: "'x \<Rightarrow> instant \<Rightarrow> instant \<Rightarrow> 's \<Rightarrow> bool"
    and issue :: "'x \<Rightarrow> instant \<Rightarrow> string \<Rightarrow> 's \<Rightarrow> 's option"
    and verify :: "instant \<Rightarrow> string \<Rightarrow> 's \<Rightarrow> 'k option"
    and revoke :: "'k \<Rightarrow> instant \<Rightarrow> 's \<Rightarrow> 's"
    and inv :: "'s \<Rightarrow> bool"
  assumes issue_inv: "inv s \<Longrightarrow> issue x now raw s = Some s' \<Longrightarrow> inv s'"
    and revoke_inv: "inv s \<Longrightarrow> inv (revoke k now s)"
    and verify_issued: "inv s \<Longrightarrow> issue x now raw s = Some s' \<Longrightarrow> raw \<noteq> [] \<Longrightarrow> usable x now t s \<Longrightarrow>
          verify t raw s' = Some (owner x)"
    and verify_after_issue: "inv s \<Longrightarrow> issue x now raw s = Some s' \<Longrightarrow> verify t raw' s' = Some k \<Longrightarrow>
          verify t raw' s = Some k \<or> digest raw' = digest raw \<and> k = owner x"
    and verify_after_revoke: "inv s \<Longrightarrow> verify t raw (revoke k now s) = Some k' \<Longrightarrow>
          verify t raw s = Some k' \<and> k' \<noteq> k"
    and verify_earlier: "inv s \<Longrightarrow> verify t raw s = Some k \<Longrightarrow> t' \<le> t \<Longrightarrow> verify t' raw s = Some k"
begin

abbreviation run :: "('x, 'k) credential_op list \<Rightarrow> 's \<Rightarrow> 's" where
  "run \<equiv> history issue revoke"

lemma run_Cons:
  "run (op # ops) s = run ops (case op of Revoke k now \<Rightarrow> revoke k now s
     | Issue x now raw \<Rightarrow> (case issue x now raw s of None \<Rightarrow> s | Some s' \<Rightarrow> s'))"
  by (cases op) (simp_all split: option.split)

lemma step_inv:
  "inv s \<Longrightarrow> inv (case op of Revoke k now \<Rightarrow> revoke k now s
     | Issue x now raw \<Rightarrow> (case issue x now raw s of None \<Rightarrow> s | Some s' \<Rightarrow> s'))"
  by (auto intro: issue_inv revoke_inv split: option.split credential_op.split)

lemma run_inv: "inv s \<Longrightarrow> inv (run ops s)"
  by (induction ops arbitrary: s) (simp_all add: run_Cons step_inv del: history.simps(2,3))

text \<open>Nothing verifies but what verified before or was issued.\<close>

lemma verified_was_issued:
  "inv s \<Longrightarrow> verify t raw (run ops s) = Some k \<Longrightarrow>
     verify t raw s = Some k
     \<or> given_out digest owner ops k raw"
proof (induction ops arbitrary: s)
  case (Cons op ops)
  note inv = step_inv [OF Cons.prems(1), of op]
  note later = Cons.IH [OF inv Cons.prems(2) [unfolded run_Cons]]
  show ?case
  proof (cases op)
    case (Issue x now raw')
    then show ?thesis
      using later verify_after_issue [OF Cons.prems(1), of x now raw']
      by (cases "issue x now raw' s") fastforce+
  next
    case (Revoke k' now)
    then show ?thesis
      using later verify_after_revoke [OF Cons.prems(1), of t raw k' now k] by auto
  qed
qed simp

text \<open>Withdrawing is final: whatever happens later, the principal is recognised again only by a
  secret that was issued to it after the withdrawal.\<close>

lemma revoked_until_reissued:
  assumes "inv s" "verify t raw (run ops (revoke k now s)) = Some k"
  shows "given_out digest owner ops k raw"
  using verified_was_issued [OF revoke_inv [OF assms(1)] assms(2)] verify_after_revoke [OF assms(1)]
  by blast

text \<open>A secret that does not verify any more never verifies again, unless it is issued again.\<close>

lemma expired_stays_expired:
  assumes "inv s" "verify t raw s \<noteq> Some k" "t \<le> t'"
    and "\<not> given_out digest owner ops k raw"
  shows "verify t' raw (run ops s) \<noteq> Some k"
  using verified_was_issued [OF assms(1)] verify_earlier [OF assms(1) _ assms(3)] assms(2,4) by blast

end

locale rotating_credential_store = credential_store +
  assumes issue_rotates: "inv s \<Longrightarrow> issue x now raw s = Some s' \<Longrightarrow> verify t raw' s' = Some (owner x) \<Longrightarrow>
    digest raw' = digest raw"
begin

definition single :: "'b \<Rightarrow> 'c \<Rightarrow> bool" where
  "single k s \<longleftrightarrow> (\<forall>t t' raw raw'. verify t raw s = Some k \<longrightarrow> verify t' raw' s = Some k \<longrightarrow>
     digest raw = digest raw')"

lemma single_revoke: "inv s \<Longrightarrow> single k s \<Longrightarrow> single k (revoke k' now s)"
  unfolding single_def using verify_after_revoke by blast

lemma single_issue: "inv s \<Longrightarrow> single k s \<Longrightarrow> issue x now raw s = Some s' \<Longrightarrow> single k s'"
  unfolding single_def using verify_after_issue issue_rotates by metis

text \<open>At most one secret of a principal is live, after any history.\<close>

lemma single_run: "inv s \<Longrightarrow> single k s \<Longrightarrow> single k (run ops s)"
proof (induction ops arbitrary: s)
  case (Cons op ops)
  have "single k (case op of Revoke k now \<Rightarrow> revoke k now s
     | Issue x now raw \<Rightarrow> (case issue x now raw s of None \<Rightarrow> s | Some s' \<Rightarrow> s'))"
    using Cons.prems by (auto intro: single_revoke single_issue split: option.split credential_op.split)
  then show ?case
    using Cons.IH step_inv [OF Cons.prems(1)] by (simp add: run_Cons del: history.simps(2,3))
qed simp

end

end
