(* ===== verification/Tokens.thy ===== *)
theory Tokens
  imports Reservation_Service Credentials
begin

text \<open>
  \<open>services/token_service.py\<close>, \<open>services/agent_token_service.py\<close> and
  \<open>core/auth_session.py\<close>: one-time connect tokens bound to a reservation, long-lived agent
  tokens bound to a host, and user sessions, all rows of the \<open>tokens\<close> table.  Only the digest
  of a raw secret is stored (\<open>t_jti\<close>).  SHA-256 is the argument \<open>sha\<close> of the operations, the
  randomness of \<open>secrets.token_urlsafe\<close> the argument \<open>raw\<close>, the key of the new row \<open>nid\<close>.
\<close>

subsection \<open>Live tokens\<close>

text \<open>The \<open>WHERE\<close> clause the three look-ups share.\<close>

definition token_live :: "token_purpose \<Rightarrow> instant \<Rightarrow> token \<Rightarrow> bool" where
  "token_live p now t \<longleftrightarrow>
     t_purpose t = p \<and> t_revoked_at t = None \<and> t_consumed_at t = None \<and> t_expires_at t > now"

definition lookup_token :: "(string \<Rightarrow> string) \<Rightarrow> token_purpose \<Rightarrow> instant \<Rightarrow> string \<Rightarrow> db \<Rightarrow> token option" where
  "lookup_token sha p now raw d = find (\<lambda>t. t_jti t = sha raw \<and> token_live p now t) (db_tokens d)"

text \<open>\<open>UPDATE tokens SET revoked_at = now WHERE ...\<close> with its row count.\<close>

definition revoke_where :: "(token \<Rightarrow> bool) \<Rightarrow> instant \<Rightarrow> db \<Rightarrow> nat \<times> db" where
  "revoke_where P now d =
     (count_where P (db_tokens d),
      d\<lparr>db_tokens := update_where P (\<lambda>t. t\<lparr>t_revoked_at := Some now\<rparr>) (db_tokens d)\<rparr>)"

definition open_token :: "token_purpose \<Rightarrow> token \<Rightarrow> bool" where
  "open_token p t \<longleftrightarrow> t_purpose t = p \<and> t_revoked_at t = None \<and> t_consumed_at t = None"

subsection \<open>Connect tokens\<close>

definition revoke_active_tokens_for_reservation :: "instant \<Rightarrow> int \<Rightarrow> db \<Rightarrow> nat \<times> db" where
  "revoke_active_tokens_for_reservation now rid =
     revoke_where (\<lambda>t. t_reservation_id t = Some rid \<and> open_token Connect t) now"

text \<open>The checks of \<open>issue_connect_token\<close>; the result is the end of the reservation.\<close>

definition connect_gate :: "settings \<Rightarrow> instant \<Rightarrow> user \<Rightarrow> reservation \<Rightarrow> app_error + instant" where
  "connect_gate cfg now usr r =
     (case assert_can_access r usr of
        Inl err \<Rightarrow> Inl err
      | Inr _ \<Rightarrow>
          if r_status r \<noteq> CONFIRMED then Inl (InvalidConnectWindow (ReservationNotActive (r_status r)))
          else (case reservation_bounds r of
            Inl err \<Rightarrow> Inl err
          | Inr (starts_at, ends_at) \<Rightarrow>
              if now < starts_at - connect_token_grace_seconds cfg * sec_us
                then Inl (InvalidConnectWindow (TooEarly starts_at now (connect_token_grace_seconds cfg)))
              else if now \<ge> ends_at then Inl (InvalidConnectWindow (ExpiredWindow ends_at now))
              else Inr ends_at))"

definition connect_row :: "(string \<Rightarrow> string) \<Rightarrow> instant \<Rightarrow> string \<Rightarrow> int \<Rightarrow> user \<Rightarrow> reservation \<Rightarrow> instant \<Rightarrow> token" where
  "connect_row sha now raw nid usr r ends_at =
     \<lparr>t_id = nid, t_jti = sha raw, t_user_id = u_id usr, t_host_id = Some (r_host_id r),
      t_reservation_id = Some (r_id r), t_purpose = Connect, t_issued_at = now,
      t_expires_at = ends_at, t_consumed_at = None, t_revoked_at = None\<rparr>"

definition issue_connect_token ::
  "(string \<Rightarrow> string) \<Rightarrow> settings \<Rightarrow> instant \<Rightarrow> instant \<Rightarrow> string \<Rightarrow> int \<Rightarrow> user \<Rightarrow> reservation \<Rightarrow> db \<Rightarrow>
     app_error + ((string \<times> token \<times> nat) \<times> db)" where
  "issue_connect_token sha cfg now revoke_now raw nid usr r d =
     (case connect_gate cfg now usr r of
        Inl err \<Rightarrow> Inl err
      | Inr ends_at \<Rightarrow>
          (case revoke_active_tokens_for_reservation revoke_now (r_id r) d of
             (revoked_count, d1) \<Rightarrow>
               (let tok = connect_row sha now raw nid usr r ends_at in
                case insert_token tok d1 of
                  Inl err \<Rightarrow> Inl err
                | Inr d2 \<Rightarrow> Inr ((raw, tok, revoked_count), d2))))"

definition verify_connect_token ::
  "(string \<Rightarrow> string) \<Rightarrow> instant \<Rightarrow> string \<Rightarrow> db \<Rightarrow> token option" where
  "verify_connect_token sha now raw d = (if raw = [] then None else lookup_token sha Connect now raw d)"

definition mark_consumed :: "instant \<Rightarrow> token \<Rightarrow> db \<Rightarrow> bool \<times> db" where
  "mark_consumed now tok d =
     (let P = (\<lambda>t. t_id t = t_id tok \<and> t_consumed_at t = None \<and> t_revoked_at t = None) in
      (count_where P (db_tokens d) = 1,
       d\<lparr>db_tokens := update_where P (\<lambda>t. t\<lparr>t_consumed_at := Some now\<rparr>) (db_tokens d)\<rparr>))"

subsection \<open>Agent tokens\<close>

definition revoke_active_agent_tokens :: "instant \<Rightarrow> int \<Rightarrow> db \<Rightarrow> nat \<times> db" where
  "revoke_active_agent_tokens now hid =
     revoke_where (\<lambda>t. t_host_id t = Some hid \<and> open_token Agent t) now"

definition issue_agent_token ::
  "(string \<Rightarrow> string) \<Rightarrow> settings \<Rightarrow> instant \<Rightarrow> instant \<Rightarrow> string \<Rightarrow> int \<Rightarrow> int \<Rightarrow> user \<Rightarrow> db \<Rightarrow>
     app_error + ((string \<times> token \<times> nat) \<times> db)" where
  "issue_agent_token sha cfg revoke_now now raw nid hid issued_by d =
     (case revoke_active_agent_tokens revoke_now hid d of
        (revoked_count, d1) \<Rightarrow>
          (let tok = \<lparr>t_id = nid, t_jti = sha raw, t_user_id = u_id issued_by, t_host_id = Some hid,
                      t_reservation_id = None, t_purpose = Agent, t_issued_at = now,
                      t_expires_at = now + agent_token_ttl_days cfg * day_us,
                      t_consumed_at = None, t_revoked_at = None\<rparr> in
           case insert_token tok d1 of
             Inl err \<Rightarrow> Inl err
           | Inr d2 \<Rightarrow> Inr ((raw, tok, revoked_count), d2)))"

definition verify_agent_token ::
  "(string \<Rightarrow> string) \<Rightarrow> instant \<Rightarrow> string \<Rightarrow> db \<Rightarrow> token option" where
  "verify_agent_token sha now raw d = (if raw = [] then None else lookup_token sha Agent now raw d)"

subsection \<open>Sessions\<close>

definition issue_session ::
  "(string \<Rightarrow> string) \<Rightarrow> int \<Rightarrow> instant \<Rightarrow> string \<Rightarrow> int \<Rightarrow> user \<Rightarrow> db \<Rightarrow>
     app_error + ((string \<times> token) \<times> db)" where
  "issue_session sha ttl_seconds now raw nid usr d =
     (let tok = \<lparr>t_id = nid, t_jti = sha raw, t_user_id = u_id usr, t_host_id = None,
                 t_reservation_id = None, t_purpose = Session, t_issued_at = now,
                 t_expires_at = now + ttl_seconds * sec_us,
                 t_consumed_at = None, t_revoked_at = None\<rparr> in
      case insert_token tok d of
        Inl err \<Rightarrow> Inl err
      | Inr d' \<Rightarrow> Inr ((raw, tok), d'))"

text \<open>The first row of \<open>users JOIN tokens ON tokens.user_id = users.id WHERE ...\<close>\<close>

definition verify_session :: "(string \<Rightarrow> string) \<Rightarrow> instant \<Rightarrow> string \<Rightarrow> db \<Rightarrow> user option" where
  "verify_session sha now raw d =
     (if raw = [] then None
      else find (\<lambda>u. u_is_active u
          \<and> (\<exists>t \<in> set (db_tokens d). t_user_id t = u_id u \<and> t_jti t = sha raw \<and> token_live Session now t))
        (db_users d))"

definition revoke_session :: "(string \<Rightarrow> string) \<Rightarrow> instant \<Rightarrow> string \<Rightarrow> db \<Rightarrow> nat \<times> db" where
  "revoke_session sha now raw d =
     (if raw = [] then (0, d)
      else revoke_where (\<lambda>t. t_jti t = sha raw \<and> t_purpose t = Session \<and> t_revoked_at t = None) now d)"

definition revoke_all_sessions_for_user :: "instant \<Rightarrow> int \<Rightarrow> db \<Rightarrow> nat \<times> db" where
  "revoke_all_sessions_for_user now uid =
     revoke_where (\<lambda>t. t_user_id t = uid \<and> t_purpose t = Session \<and> t_revoked_at t = None) now"

subsection \<open>What the statements do to the table\<close>

named_theorems token_simps \<open>the effect of the token operations\<close>

lemma revoke_where_frame [token_simps]:
  "db_users (snd (revoke_where P now d)) = db_users d"
  "db_hosts (snd (revoke_where P now d)) = db_hosts d"
  "db_reservations (snd (revoke_where P now d)) = db_reservations d"
  "db_audits (snd (revoke_where P now d)) = db_audits d"
  "db_tokens (snd (revoke_where P now d)) = update_where P (\<lambda>t. t\<lparr>t_revoked_at := Some now\<rparr>) (db_tokens d)"
  "fst (revoke_where P now d) = count_where P (db_tokens d)"
  by (simp_all add: revoke_where_def)

lemma tokens_wf_update:
  assumes "tokens_wf ts" "\<And>t. t_id (f t) = t_id t" "\<And>t. t_jti (f t) = t_jti t"
  shows "tokens_wf (update_where P f ts)"
  using assms by (simp add: tokens_wf_def map_update_where)

lemma wf_update_tokens:
  assumes "wf_db d" "\<And>t. t_id (f t) = t_id t" "\<And>t. t_jti (f t) = t_jti t"
    "\<And>t. t_user_id (f t) = t_user_id t" "\<And>t. t_host_id (f t) = t_host_id t"
    "\<And>t. t_reservation_id (f t) = t_reservation_id t"
  shows "wf_db (d\<lparr>db_tokens := update_where P f (db_tokens d)\<rparr>)"
proof -
  have "\<forall>t \<in> set (update_where P f (db_tokens d)). \<exists>q \<in> set (db_tokens d).
      t_user_id t = t_user_id q \<and> t_host_id t = t_host_id q \<and> t_reservation_id t = t_reservation_id q"
    using assms(4-6) by (auto simp: set_update_where)
  then show ?thesis
    using assms(1) tokens_wf_update [of "db_tokens d" f P] assms(2,3)
    unfolding wf_db_def refs_wf_def by simp (metis (no_types, lifting))
qed

lemma wf_revoke_where [wf_intros]: "wf_db d \<Longrightarrow> wf_db (snd (revoke_where P now d))"
  by (simp add: revoke_where_def wf_update_tokens)

lemma wf_mark_consumed [wf_intros]: "wf_db d \<Longrightarrow> wf_db (snd (mark_consumed now tok d))"
  by (simp add: mark_consumed_def Let_def wf_update_tokens)

lemma mark_consumed_frame [token_simps]:
  "db_users (snd (mark_consumed now tok d)) = db_users d"
  "db_hosts (snd (mark_consumed now tok d)) = db_hosts d"
  "db_reservations (snd (mark_consumed now tok d)) = db_reservations d"
  "db_audits (snd (mark_consumed now tok d)) = db_audits d"
  by (simp_all add: mark_consumed_def Let_def)

text \<open>With unique digests a look-up finds the one live token with the digest of the secret.\<close>

lemma lookup_token_iff:
  assumes "tokens_wf (db_tokens d)"
  shows "lookup_token sha p now raw d = Some t \<longleftrightarrow>
     t \<in> set (db_tokens d) \<and> t_jti t = sha raw \<and> token_live p now t"
  unfolding lookup_token_def
  using assms by (subst find_Some_iff_unique) (auto simp: tokens_wf_def distinct_map inj_on_def)

lemma lookup_token_owner_iff:
  assumes "tokens_wf (db_tokens d)"
  shows "Option.bind (lookup_token sha p now raw d) f = Some k \<longleftrightarrow>
     (\<exists>t \<in> set (db_tokens d). t_jti t = sha raw \<and> token_live p now t \<and> f t = Some k)"
  unfolding bind_eq_Some_conv lookup_token_iff [OF assms] by blast

lemma token_live_earlier: "token_live p now t \<Longrightarrow> now' \<le> now \<Longrightarrow> token_live p now' t"
  by (simp add: token_live_def)

lemma in_revokedE:
  assumes "t \<in> set (update_where P (\<lambda>t. t\<lparr>t_revoked_at := Some now\<rparr>) ts)" "t_revoked_at t = None"
  shows "t \<in> set ts \<and> \<not> P t"
  using assms by (auto elim!: in_update_whereE split: if_splits)

lemma issue_connect_token_Inr:
  assumes "issue_connect_token sha cfg now revoke_now raw nid usr r d = Inr ((raw', tok, n), d')"
  shows "\<exists>ends_at. connect_gate cfg now usr r = Inr ends_at \<and> tok = connect_row sha now raw nid usr r ends_at"
    and "raw' = raw" and "n = count_where (\<lambda>t. t_reservation_id t = Some (r_id r) \<and> open_token Connect t) (db_tokens d)"
    and "insert_token tok (snd (revoke_active_tokens_for_reservation revoke_now (r_id r) d)) = Inr d'"
    and "db_tokens d' = db_tokens (snd (revoke_active_tokens_for_reservation revoke_now (r_id r) d)) @ [tok]"
    and "db_users d' = db_users d \<and> db_hosts d' = db_hosts d \<and> db_reservations d' = db_reservations d
         \<and> db_audits d' = db_audits d"
    and "sha raw \<notin> t_jti ` set (db_tokens d)"
proof -
  let ?d1 = "snd (revoke_active_tokens_for_reservation revoke_now (r_id r) d)"
  show "\<exists>ends_at. connect_gate cfg now usr r = Inr ends_at \<and> tok = connect_row sha now raw nid usr r ends_at"
    and "raw' = raw"
    and n: "n = count_where (\<lambda>t. t_reservation_id t = Some (r_id r) \<and> open_token Connect t) (db_tokens d)"
    and ins: "insert_token tok ?d1 = Inr d'"
    using assms by (auto simp: issue_connect_token_def Let_def revoke_active_tokens_for_reservation_def
        revoke_where_def split: sum.splits)
  from insert_token_Inr [OF ins] show "db_tokens d' = db_tokens ?d1 @ [tok]"
    and "db_users d' = db_users d \<and> db_hosts d' = db_hosts d \<and> db_reservations d' = db_reservations d
         \<and> db_audits d' = db_audits d"
    by (simp_all add: revoke_active_tokens_for_reservation_def token_simps)
  have "t_jti tok = sha raw"
    using assms by (auto simp: issue_connect_token_def Let_def connect_row_def split: sum.splits prod.splits)
  with insert_token_Inr(3) [OF ins] show "sha raw \<notin> t_jti ` set (db_tokens d)"
    by (simp add: revoke_active_tokens_for_reservation_def token_simps image_update_where)
qed

lemma issue_agent_token_Inr:
  assumes "issue_agent_token sha cfg revoke_now now raw nid hid usr d = Inr ((raw', tok, n), d')"
  shows "raw' = raw" "t_jti tok = sha raw" "t_host_id tok = Some hid" "open_token Agent tok"
    and "t_expires_at tok = now + agent_token_ttl_days cfg * day_us"
    and "n = count_where (\<lambda>t. t_host_id t = Some hid \<and> open_token Agent t) (db_tokens d)"
    and "insert_token tok (snd (revoke_active_agent_tokens revoke_now hid d)) = Inr d'"
    and "db_tokens d' = db_tokens (snd (revoke_active_agent_tokens revoke_now hid d)) @ [tok]"
proof -
  show "raw' = raw" "t_jti tok = sha raw" "t_host_id tok = Some hid" "open_token Agent tok"
    "t_expires_at tok = now + agent_token_ttl_days cfg * day_us"
    "n = count_where (\<lambda>t. t_host_id t = Some hid \<and> open_token Agent t) (db_tokens d)"
    and ins: "insert_token tok (snd (revoke_active_agent_tokens revoke_now hid d)) = Inr d'"
    using assms by (auto simp: issue_agent_token_def Let_def revoke_active_agent_tokens_def
        revoke_where_def open_token_def split: sum.splits)
  from insert_token_Inr(1) [OF ins]
  show "db_tokens d' = db_tokens (snd (revoke_active_agent_tokens revoke_now hid d)) @ [tok]" by simp
qed

lemma wf_issue_connect_token [wf_intros]:
  "issue_connect_token sha cfg now revoke_now raw nid usr r d = Inr (res, d') \<Longrightarrow> wf_db d \<Longrightarrow> wf_db d'"
proof -
  assume wf: "wf_db d" and "issue_connect_token sha cfg now revoke_now raw nid usr r d = Inr (res, d')"
  moreover obtain raw' tok n where "res = (raw', tok, n)" by (cases res)
  ultimately have "insert_token tok (snd (revoke_active_tokens_for_reservation revoke_now (r_id r) d)) = Inr d'"
    by (blast dest: issue_connect_token_Inr(4))
  then show ?thesis
    using wf_revoke_where [OF wf] wf_insert_token
    unfolding revoke_active_tokens_for_reservation_def by blast
qed

lemma wf_issue_agent_token [wf_intros]:
  "issue_agent_token sha cfg revoke_now now raw nid hid usr d = Inr (res, d') \<Longrightarrow> wf_db d \<Longrightarrow> wf_db d'"
proof -
  assume wf: "wf_db d" and "issue_agent_token sha cfg revoke_now now raw nid hid usr d = Inr (res, d')"
  moreover obtain raw' tok n where "res = (raw', tok, n)" by (cases res)
  ultimately have "insert_token tok (snd (revoke_active_agent_tokens revoke_now hid d)) = Inr d'"
    by (blast dest: issue_agent_token_Inr(7))
  then show ?thesis
    using wf_revoke_where [OF wf] wf_insert_token
    unfolding revoke_active_agent_tokens_def by blast
qed

lemma issue_session_Inr:
  assumes "issue_session sha ttl now raw nid usr d = Inr ((raw', tok), d')"
  shows "raw' = raw" "insert_token tok d = Inr d'" "db_tokens d' = db_tokens d @ [tok]"
    "t_jti tok = sha raw" "t_user_id tok = u_id usr" "t_purpose tok = Session"
    "t_expires_at tok = now + ttl * sec_us" "t_consumed_at tok = None" "t_revoked_at tok = None"
    "db_users d' = db_users d"
  using assms by (auto simp: issue_session_def Let_def dest: insert_token_Inr(1) split: sum.splits)

lemma wf_issue_session [wf_intros]:
  "issue_session sha ttl now raw nid usr d = Inr (res, d') \<Longrightarrow> wf_db d \<Longrightarrow> wf_db d'"
  by (cases res) (auto dest!: issue_session_Inr(2) intro: wf_insert_token)

end
