(* ===== verification/Reservation_Facts.thy ===== *)
theory Reservation_Facts
  imports Reservation_Service
begin

text \<open>
  The correctness of the reservation operations: what a booking requires and does, when it
  conflicts, what the quotas guarantee and what they do not, instant use, cancellation and
  listing.  The sample database at the end of the first section is the concrete input on which
  the theorems with hypotheses are exercised.
\<close>

subsection \<open>A sample database\<close>

text \<open>Instant \<open>0\<close> is taken as the present; one admin, two students, two hosts.\<close>

definition sample_user :: "int \<Rightarrow> string \<Rightarrow> user" where
  "sample_user i role =
     \<lparr>u_id = i, u_external_id = (if i = 1 then ''a1'' else if i = 2 then ''s2'' else ''s3''),
      u_provider = ''mock'', u_display_name = ''name'', u_email = None, u_role = role,
      u_is_active = True\<rparr>"

definition sample_host :: "int \<Rightarrow> host_status \<Rightarrow> host" where
  "sample_host i st =
     \<lparr>h_id = i, h_hostname = (if i = 7 then ''pc7'' else ''pc8''), h_display_name = ''PC'',
      h_location = None, h_ip_address = Some ''10.0.0.7'', h_sunshine_port = 47984,
      h_sunshine_broker_token = Some ''secret'', h_gpu_model = None, h_status = st,
      h_last_heartbeat_at = Some 0, h_metadata = []\<rparr>"

definition sample_db :: db where
  "sample_db = empty_db\<lparr>
     db_users := [sample_user 1 ''admin'', sample_user 2 ''user'', sample_user 3 ''user''],
     db_hosts := [sample_host 7 IDLE, sample_host 8 OFFLINE]\<rparr>"

definition sample_reservation :: "int \<Rightarrow> int \<Rightarrow> int \<Rightarrow> instant \<Rightarrow> instant \<Rightarrow> reservation" where
  "sample_reservation i uid hid s e = booked i (sample_user uid ''user'') hid s e 0"

definition busy_db :: db where
  "busy_db = sample_db\<lparr>db_reservations :=
     [sample_reservation 1 2 7 (2 * hour_us) (4 * hour_us),
      sample_reservation 2 3 8 (2 * hour_us) (3 * hour_us)]\<rparr>"

lemmas sample_defs = sample_user_def sample_host_def sample_db_def sample_reservation_def
  busy_db_def booked_def empty_db_def

lemma wf_sample_db: "wf_db sample_db" and wf_busy_db: "wf_db busy_db"
  by (simp_all add: wf_defs exclusive_def sample_defs)

subsection \<open>Booking\<close>

lemma book_row_success:
  assumes "instant_of s < instant_of e" "nid \<notin> r_id ` set (db_reservations d)"
    "u_id usr \<in> u_id ` set (db_users d)" "hid \<in> h_id ` set (db_hosts d)"
    "\<not> excluded (db_reservations d) hid (TimeRange (instant_of s) (instant_of e))"
  shows "\<exists>d'. book_row nid created usr hid s e extra d =
     Inr (booked nid usr hid (instant_of s) (instant_of e) created, d')"
proof -
  let ?r = "booked nid usr hid (instant_of s) (instant_of e) created"
  have "insert_reservation nid (u_id usr) hid (instant_of s) (instant_of e) created d =
      Inr (d\<lparr>db_reservations := db_reservations d @ [?r]\<rparr>)"
    using assms by (simp add: insert_reservation_def mk_range_lt get_None_iff booked_def)
  moreover have "get_reservation_row (d\<lparr>db_reservations := db_reservations d @ [?r]\<rparr>) nid = Some ?r"
    using assms(2) by (simp add: get_reservation_row_def fetch_append fetch_None_iff [THEN iffD2] row_simps)
      (simp add: booked_def)
  ultimately show ?thesis by (simp add: book_row_def)
qed


lemma create_reservation_InrD:
  assumes "create_reservation cfg now1 now2 nid created usr hid s e d = Inr (r, d')"
  shows "book_row nid created usr hid s e [] d = Inr (r, d')"
    and "validate_window cfg now1 s e = Inr ()" and "validate_quota cfg now2 d usr s e = Inr ()"
    and "instant_of s < instant_of e" and "now1 \<le> instant_of s"
  using assms
  by (auto simp: create_reservation_def split: sum.splits dest: validate_window_proper)

lemma excluded_iff:
  assumes "\<forall>r \<in> set rs. range_ok (r_time_range r)" "s < e"
  shows "excluded rs hid (TimeRange s e) \<longleftrightarrow>
    (\<exists>r \<in> set rs. reservation_active (r_status r) \<and> r_host_id r = hid
       \<and> (\<exists>t. range_contains (r_time_range r) t \<and> s \<le> t \<and> t < e))"
  using assms range_overlaps_common [of _ "TimeRange s e"] unfolding excluded_def by fastforce

text \<open>A booking that passed every check is refused as a conflict exactly when some active
  reservation of the same host has an instant in common with the requested window; windows that
  merely touch do not conflict.\<close>
theorem create_conflict_iff:
  assumes "wf_db d" and "is_ok (validate_window cfg now1 s e)"
    and "is_ok (validate_quota cfg now2 d usr s e)" and "is_ok (validate_host_exists d hid)"
    and "nid \<notin> r_id ` set (db_reservations d)"
  shows "create_reservation cfg now1 now2 nid created usr hid s e d = Inl ReservationConflict \<longleftrightarrow>
     (\<exists>r \<in> set (db_reservations d). reservation_active (r_status r) \<and> r_host_id r = hid
        \<and> (\<exists>t. range_contains (r_time_range r) t \<and> instant_of s \<le> t \<and> t < instant_of e))"
proof -
  have lt: "instant_of s < instant_of e"
    using assms(2) by (auto simp: is_ok_iff dest: validate_window_proper)
  have "create_reservation cfg now1 now2 nid created usr hid s e d = book_row nid created usr hid s e [] d"
    using assms(2-4) by (auto simp: create_reservation_def is_ok_iff)
  with book_row_conflict_iff [OF lt assms(5)] show ?thesis
    using excluded_iff [OF _ lt] assms(1) by (simp add: wf_db_def reservations_wf_def)
qed

lemma sample_windows:
  "validate_window default_settings 0 (at_utc (3 * hour_us)) (at_utc (5 * hour_us)) = Inr ()"
  "validate_quota default_settings 0 busy_db (sample_user 3 ''user'') (at_utc (3 * hour_us)) (at_utc (5 * hour_us)) = Inr ()"
  by code_simp+

theorem create_conflict_iff_witness:
  "create_reservation default_settings 0 0 9 0 (sample_user 3 ''user'') 7
     (at_utc (3 * hour_us)) (at_utc (5 * hour_us)) busy_db = Inl ReservationConflict"
proof -
  have "range_contains (r_time_range (sample_reservation 1 2 7 (2 * hour_us) (4 * hour_us))) (3 * hour_us)"
    by (simp add: sample_defs)
  then have "\<exists>r \<in> set (db_reservations busy_db). reservation_active (r_status r) \<and> r_host_id r = 7
      \<and> (\<exists>t. range_contains (r_time_range r) t \<and> instant_of (at_utc (3 * hour_us)) \<le> t
            \<and> t < instant_of (at_utc (5 * hour_us)))"
    by (intro bexI [of _ "sample_reservation 1 2 7 (2 * hour_us) (4 * hour_us)"] conjI
        exI [of _ "3 * hour_us"]) (simp_all add: sample_defs)
  moreover have "get_host busy_db 7 \<noteq> None" "9 \<notin> r_id ` set (db_reservations busy_db)"
    by (simp_all add: sample_defs get_host_def row_simps)
  ultimately show ?thesis
    using create_conflict_iff [OF wf_busy_db] sample_windows by (simp add: validate_host_exists_iff)
qed

subsection \<open>Quotas\<close>

lemma used_minutes_append:
  assumes "db_reservations d' = db_reservations d @ [r]"
    and "r_user_id r = uid" "reservation_active (r_status r)"
    and "range_overlaps (r_time_range r) (TimeRange a b)"
  shows "used_minutes d' uid a b = used_minutes d uid a b + clipped_minutes a b (r_time_range r)"
  using assms by (simp add: used_minutes_def)

text \<open>After a successful booking the user holds at most the allowed number of reservations
  that have not ended, and has at most the allowed minutes on the calendar day, in the offset the
  client sent, on which the booking starts.\<close>
theorem quotas_hold_after_booking:
  assumes "create_reservation cfg now1 now2 nid created usr hid s e d = Inr (r, d')"
  shows "concurrent_count d' (u_id usr) now2 \<le> max_concurrent_reservations cfg
    \<and> used_minutes d' (u_id usr) (day_start_of s) (day_start_of s + day_us)
        \<le> max_reservation_hours_per_day cfg * 60"
proof
  note c = create_reservation_InrD [OF assms]
  note b = book_row_Inr [OF c(1) c(4)]
  note q = c(3) [unfolded validate_quota_Inr]
  show "concurrent_count d' (u_id usr) now2 \<le> max_concurrent_reservations cfg"
    using q by (simp add: concurrent_count_def b(2) count_where_append row_simps)
  have "range_overlaps (r_time_range r) (TimeRange (day_start_of s) (day_start_of s + day_us))"
    using day_start_of_le [of s] c(4) by (simp add: b(1) booked_def)
  then have "used_minutes d' (u_id usr) (day_start_of s) (day_start_of s + day_us)
      = used_minutes d (u_id usr) (day_start_of s) (day_start_of s + day_us)
        + clipped_minutes (day_start_of s) (day_start_of s + day_us) (r_time_range r)"
    by (intro used_minutes_append) (simp_all add: b(2), simp_all add: b(1) booked_def)
  moreover have "clipped_minutes (day_start_of s) (day_start_of s + day_us) (r_time_range r)
      \<le> (instant_of e - instant_of s) div min_us"
    using clipped_minutes_le [OF c(4)] by (simp add: b(1) booked_def)
  ultimately show "used_minutes d' (u_id usr) (day_start_of s) (day_start_of s + day_us)
      \<le> max_reservation_hours_per_day cfg * 60"
    using q by linarith
qed

theorem quotas_hold_after_booking_witness:
  "\<exists>r d'. create_reservation default_settings 0 0 9 0 (sample_user 3 ''user'') 7
       (at_utc (4 * hour_us)) (at_utc (6 * hour_us)) busy_db = Inr (r, d')
     \<and> concurrent_count d' 3 0 \<le> 5 \<and> used_minutes d' 3 0 day_us \<le> 480"
proof -
  have "yields (create_reservation default_settings 0 0 9 0 (sample_user 3 ''user'') 7
       (at_utc (4 * hour_us)) (at_utc (6 * hour_us)) busy_db) (\<lambda>_ _. True)"
    by code_simp
  then obtain r d' where c: "create_reservation default_settings 0 0 9 0 (sample_user 3 ''user'') 7
       (at_utc (4 * hour_us)) (at_utc (6 * hour_us)) busy_db = Inr (r, d')"
    by (rule yieldsE)
  have "u_id (sample_user 3 ''user'') = 3" "day_start_of (at_utc (4 * hour_us)) = 0"
    by code_simp+
  with quotas_hold_after_booking [OF c] c show ?thesis
    by (auto simp: default_settings_def)
qed

text \<open>The daily limit is only checked on the day on which a booking starts: a student with
  eight hours on one day can add a booking that begins the evening before and runs past midnight,
  and then has ten hours on that day although the limit is eight.\<close>
theorem daily_limit_exceeded_across_midnight:
  "yields (create_reservation default_settings 0 0 1 0 (sample_user 2 ''user'') 7
      (at_utc (day_us + 4 * hour_us)) (at_utc (day_us + 8 * hour_us)) sample_db) (\<lambda>_ d1.
   yields (create_reservation default_settings 0 0 2 0 (sample_user 2 ''user'') 7
      (at_utc (day_us + 8 * hour_us)) (at_utc (day_us + 12 * hour_us)) d1) (\<lambda>_ d2.
   yields (create_reservation default_settings 0 0 3 0 (sample_user 2 ''user'') 7
      (at_utc (22 * hour_us)) (at_utc (day_us + 2 * hour_us)) d2) (\<lambda>_ d3.
     used_minutes d3 2 day_us (2 * day_us) = 600)))"
  by code_simp

text \<open>The day of the quota is the day in the offset the client sends: after eight hours on
  one day in UTC, a booking of four more hours on that same UTC day is accepted when the client
  writes the window with the offset -12:00.\<close>
theorem daily_limit_depends_on_client_offset:
  "yields (create_reservation default_settings 0 0 1 0 (sample_user 2 ''user'') 7
      (at_utc day_us) (at_utc (day_us + 4 * hour_us)) sample_db) (\<lambda>_ d1.
   yields (create_reservation default_settings 0 0 2 0 (sample_user 2 ''user'') 7
      (at_utc (day_us + 4 * hour_us)) (at_utc (day_us + 8 * hour_us)) d1) (\<lambda>_ d2.
   create_reservation default_settings 0 0 3 0 (sample_user 2 ''user'') 7
      (at_utc (day_us + 14 * hour_us)) (at_utc (day_us + 18 * hour_us)) d2
        = Inl (ReservationQuota (DailyLimit 480 240 480))
   \<and> yields (create_reservation default_settings 0 0 3 0 (sample_user 2 ''user'') 7
      \<lparr>dt_wall = day_us + 2 * hour_us, dt_tz = Some (- 720)\<rparr>
      \<lparr>dt_wall = day_us + 6 * hour_us, dt_tz = Some (- 720)\<rparr> d2) (\<lambda>_ d3.
     used_minutes d3 2 day_us (2 * day_us) = 720)))"
  by code_simp

subsection \<open>Instant use\<close>

text \<open>What the rest of the system keeps true of the reservations: their bounds are whole seconds,
  and a completed reservation does not lie in the future.\<close>

definition second_aligned :: "reservation list \<Rightarrow> bool" where
  "second_aligned rs \<longleftrightarrow>
     (\<forall>r \<in> set rs. \<forall>s e. r_time_range r = TimeRange s e \<longrightarrow> s mod sec_us = 0 \<and> e mod sec_us = 0)"

definition completed_started :: "instant \<Rightarrow> reservation list \<Rightarrow> bool" where
  "completed_started now rs \<longleftrightarrow>
     (\<forall>r \<in> set rs. \<forall>s e. r_status r = COMPLETED \<longrightarrow> r_time_range r = TimeRange s e \<longrightarrow> s \<le> now)"

definition covered :: "db \<Rightarrow> int \<Rightarrow> instant \<Rightarrow> bool" where
  "covered d hid now \<longleftrightarrow>
     (\<exists>r \<in> set (db_reservations d). r_host_id r = hid \<and> reservation_active (r_status r)
        \<and> range_contains (r_time_range r) now)"

lemma aligned_below_floor:
  fixes b now :: int
  assumes "b \<le> now" "b mod sec_us = 0"
  shows "b \<le> now - now mod sec_us"
proof -
  have "b div sec_us \<le> now div sec_us" using assms(1) by (simp add: zdiv_mono1)
  with assms(2) show ?thesis
    using div_mult_mod_eq [of b sec_us] div_mult_mod_eq [of now sec_us] by linarith
qed

lemma instant_window_free:
  assumes "second_aligned (db_reservations d)" "completed_started now (db_reservations d)"
    and "\<not> covered d hid now"
    and win: "instant_window now (next_reservation_start d hid now) = (s, e)"
  shows "\<not> excluded (db_reservations d) hid (TimeRange s e)"
proof
  assume "excluded (db_reservations d) hid (TimeRange s e)"
  then obtain r a b where r: "r \<in> set (db_reservations d)" "reservation_active (r_status r)"
    "r_host_id r = hid" "r_time_range r = TimeRange a b" "a < e" "s < b"
    unfolding excluded_def by (auto elim!: range_overlaps.elims(2))
  have al: "b mod sec_us = 0"
    using assms(1) r(1,4) unfolding second_aligned_def by blast
  have "\<not> range_contains (r_time_range r) now"
    using assms(3) r(1-3) unfolding covered_def by blast
  then have nc: "\<not> (a \<le> now \<and> now < b)" by (simp add: r(4))
  from win have s: "s = now - now mod sec_us" by (simp add: instant_window_eq)
  have "\<not> b \<le> now"
  proof
    assume "b \<le> now"
    from aligned_below_floor [OF this al] r(6) show False unfolding s by linarith
  qed
  with nc have a: "now < a" by simp
  with r assms(2) have "r_status r = CONFIRMED"
    by (cases "r_status r") (auto simp: completed_started_def)
  then obtain n where "next_reservation_start d hid now = Some n" "n \<le> a"
    using next_reservation_start_le [OF r(1,3) _ _ a] r(4) by auto
  with win r(5) show False by (auto simp: instant_window_eq)
qed

lemma instant_use_books:
  assumes "get_host d hid = Some h" and "h_status h = IDLE" and "\<not> covered d hid now"
    and "second_aligned (db_reservations d)" and "completed_started now (db_reservations d)"
    and "instant_window now (next_reservation_start d hid now) = (s, e)"
    and "is_ok (validate_quota cfg now2 d usr (at_utc s) (at_utc e))"
    and "u_id usr \<in> u_id ` set (db_users d)" and "nid \<notin> r_id ` set (db_reservations d)" and bound: "in_bits 32 hid"
  shows "yields (create_instant_reservation cfg now now2 nid created usr hid d) (\<lambda>r d'.
           r = booked nid usr hid s e created \<and> db_reservations d' = db_reservations d @ [r]
           \<and> range_contains (r_time_range r) now)"
proof -
  have bounds: "s \<le> now" "now < e"
    using instant_window_proper [OF assms(6)] by simp_all
  then have lt: "instant_of (at_utc s) < instant_of (at_utc e)" by simp
  have "hid \<in> h_id ` set (db_hosts d)" using assms(1) by (auto dest: get_hostD)
  then obtain d' where bk: "book_row nid created usr hid (at_utc s) (at_utc e) [(''instant'', JBool True)] d
      = Inr (booked nid usr hid s e created, d')"
    using book_row_success [OF lt assms(9,8)] instant_window_free [OF assms(4,5,3,6)] by fastforce
  from bk assms(1,2,6,7) have "create_instant_reservation cfg now now2 nid created usr hid d
      = Inr (booked nid usr hid s e created, d')"
    by (auto simp: create_instant_reservation_def validate_host_exists_def is_ok_iff bound)
  with book_row_Inr(2) [OF bk lt] bounds show ?thesis
    by (simp add: yields_iff booked_def)
qed

text \<open>Immediate use never fails for lack of the host: if the host is idle, no active
  reservation covers the present and the user's quotas allow it, then the booking succeeds and the
  new reservation covers the present.\<close>
theorem instant_use_succeeds:
  assumes "get_host d hid = Some h" and "h_status h = IDLE" and "\<not> covered d hid now"
    and "second_aligned (db_reservations d)" and "completed_started now (db_reservations d)"
    and "instant_window now (next_reservation_start d hid now) = (s, e)"
    and "is_ok (validate_quota cfg now2 d usr (at_utc s) (at_utc e))"
    and "u_id usr \<in> u_id ` set (db_users d)" and "nid \<notin> r_id ` set (db_reservations d)" and "in_bits 32 hid"
  shows "yields (create_instant_reservation cfg now now2 nid created usr hid d) (\<lambda>r d'.
           r = booked nid usr hid s e created \<and> db_reservations d' = db_reservations d @ [r]
           \<and> range_contains (r_time_range r) now)"
  using assms by (rule instant_use_books)

theorem instant_use_succeeds_witness:
  "yields (create_instant_reservation default_settings 0 0 9 0 (sample_user 3 ''user'') 7 busy_db)
     (\<lambda>r d'. r_time_range r = TimeRange 0 (2 * hour_us) \<and> range_contains (r_time_range r) 0)"
proof -
  have h: "get_host busy_db 7 = Some (sample_host 7 IDLE)"
    by (simp add: sample_defs get_host_def row_simps)
  have st: "h_status (sample_host 7 IDLE) = IDLE" by (simp add: sample_defs)
  have cov: "\<not> covered busy_db 7 0" by (simp add: covered_def sample_defs)
  have al: "second_aligned (db_reservations busy_db)" by (simp add: second_aligned_def sample_defs)
  have co: "completed_started 0 (db_reservations busy_db)"
    by (simp add: completed_started_def sample_defs)
  have win: "instant_window 0 (next_reservation_start busy_db 7 0) = (0, 2 * hour_us)" by code_simp
  have q: "is_ok (validate_quota default_settings 0 busy_db (sample_user 3 ''user'') (at_utc 0)
      (at_utc (2 * hour_us)))" by code_simp
  have u: "u_id (sample_user 3 ''user'') \<in> u_id ` set (db_users busy_db)"
    and n: "9 \<notin> r_id ` set (db_reservations busy_db)" by (simp_all add: sample_defs)
  show ?thesis
    using instant_use_succeeds [OF h st cov al co win q u n, of 0]
    by (auto simp: yields_iff booked_def)
qed

lemma list_instant_available_iff:
  "(h, until) \<in> set (list_instant_available_hosts now d) \<longleftrightarrow>
     h \<in> set (db_hosts d) \<and> h_status h = IDLE \<and> \<not> covered d (h_id h) now
     \<and> until = snd (instant_window now (next_reservation_start d (h_id h) now))"
  by (auto simp: list_instant_available_hosts_def covered_def)

lemma advertised_host_books:
  assumes "wf_db d" and "(h, until) \<in> set (list_instant_available_hosts now d)"
    and "second_aligned (db_reservations d)" and "completed_started now (db_reservations d)"
    and "is_ok (validate_quota cfg now2 d usr (at_utc (now - now mod sec_us)) (at_utc until))"
    and "u_id usr \<in> u_id ` set (db_users d)" and "nid \<notin> r_id ` set (db_reservations d)" and "in_bits 32 (h_id h)"
  shows "yields (create_instant_reservation cfg now now2 nid created usr (h_id h) d) (\<lambda>r d'.
           r_time_range r = TimeRange (now - now mod sec_us) until)"
proof -
  have "get_host d (h_id h) = Some h"
    using assms(1,2) by (auto simp: list_instant_available_iff get_host_def wf_db_def hosts_wf_def
        fetch_Some_iff)
  moreover have "instant_window now (next_reservation_start d (h_id h) now) = (now - now mod sec_us, until)"
    using assms(2) by (simp add: list_instant_available_iff instant_window_eq)
  ultimately show ?thesis
    using instant_use_books [of d "h_id h" h now] assms(2-)
    by (fastforce simp: list_instant_available_iff yields_iff booked_def)
qed

subsection \<open>Cancelling, reading, listing\<close>

text \<open>Who may read a reservation: exactly an administrator and the user it belongs to.\<close>

lemma get_reservation_Inr:
  "get_reservation usr rid d = Inr r \<longleftrightarrow>
     in_bits 32 rid \<and> get_reservation_row d rid = Some r \<and> (is_admin usr \<or> r_user_id r = u_id usr)"
  by (auto simp: get_reservation_def assert_can_access_def split: option.splits sum.splits)

lemma get_cancel_row:
  "get_reservation_row (cancel_row i now d) j =
     (if j = i then map_option (\<lambda>r. r\<lparr>r_status := CANCELED, r_canceled_at := Some now\<rparr>)
        (get_reservation_row d j)
      else get_reservation_row d j)"
  by (auto simp: get_reservation_row_def cancel_row_def fetch_update_where option.map_comp o_def
      dest!: fetch_SomeD split: option.splits intro!: map_option_cong map_option_idI)

lemma cancel_reservation_InrD:
  assumes "cancel_reservation now usr rid d = Inr (r, d')"
  obtains q where "get_reservation usr rid d = Inr q"
    and "r = (if r_status q = CANCELED then q else q\<lparr>r_status := CANCELED, r_canceled_at := Some now\<rparr>)"
    and "db_reservations d' = (if r_status q = CANCELED then db_reservations d
           else db_reservations (cancel_row rid now d))"
    and "db_users d' = db_users d" "db_hosts d' = db_hosts d" "db_tokens d' = db_tokens d"
proof -
  obtain q where q: "get_reservation usr rid d = Inr q"
    using assms by (auto simp: cancel_reservation_def split: sum.splits)
  then have "r_id q = rid" "get_reservation_row d rid = Some q"
    by (auto simp: get_reservation_Inr dest: get_reservation_rowD)
  with q assms show ?thesis
    by (intro that [of q]) (auto simp: cancel_reservation_def Let_def get_cancel_row split: if_splits)
qed

text \<open>Cancelling succeeds for every reservation the user may read; afterwards the reservation is
  cancelled, every other one is unchanged, and cancelling again changes nothing.\<close>
theorem cancel_reservation_spec:
  assumes "get_reservation usr rid d = Inr q"
  shows "yields (cancel_reservation now usr rid d) (\<lambda>r d'.
           r_status r = CANCELED \<and> r_time_range r = r_time_range q
           \<and> get_reservation_row d' rid = Some r
           \<and> (\<forall>i. i = rid \<or> get_reservation_row d' i = get_reservation_row d i)
           \<and> cancel_reservation later usr rid d' = Inr (r, d'))"
proof -
  have q: "get_reservation_row d rid = Some q" "r_id q = rid" "is_admin usr \<or> r_user_id q = u_id usr" "in_bits 32 rid"
    using assms by (auto simp: get_reservation_Inr dest: get_reservation_rowD)
  show ?thesis
  proof (cases "r_status q = CANCELED")
    case True
    with assms q show ?thesis by (simp add: yields_def cancel_reservation_def)
  next
    case False
    with assms q show ?thesis
      by (auto simp: yields_def cancel_reservation_def get_cancel_row get_reservation_def
          assert_can_access_def Let_def)
  qed
qed

theorem cancel_reservation_spec_witness:
  "yields (cancel_reservation 0 (sample_user 2 ''user'') 1 busy_db)
     (\<lambda>r d'. r_status r = CANCELED \<and> cancel_reservation 5 (sample_user 2 ''user'') 1 d' = Inr (r, d'))"
proof -
  have "get_reservation (sample_user 2 ''user'') 1 busy_db
      = Inr (sample_reservation 1 2 7 (2 * hour_us) (4 * hour_us))"
    by code_simp
  from cancel_reservation_spec [OF this, of 0 5] show ?thesis by (auto simp: yields_iff)
qed

text \<open>Cancelling frees the slot: once an active reservation is cancelled, no active reservation
  of the host overlaps its window any more, so the exclusion constraint accepts a new booking of
  the same window by anybody.\<close>
theorem cancel_frees_slot:
  assumes "wf_db d" and "get_reservation usr rid d = Inr q" and "reservation_active (r_status q)"
  shows "yields (cancel_reservation now usr rid d) (\<lambda>r d'.
           wf_db d' \<and> \<not> excluded (db_reservations d') (r_host_id q) (r_time_range q))"
proof -
  have q: "q \<in> set (db_reservations d)" "r_id q = rid" "get_reservation_row d rid = Some q"
    using assms(2) by (auto simp: get_reservation_Inr dest: get_reservation_rowD)
  have "\<not> excluded (db_reservations (cancel_row rid now d)) (r_host_id q) (r_time_range q)"
  proof
    assume "excluded (db_reservations (cancel_row rid now d)) (r_host_id q) (r_time_range q)"
    then obtain r where r: "r \<in> set (db_reservations d)" "r_id r \<noteq> rid"
      "reservation_active (r_status r)" "r_host_id r = r_host_id q"
      "range_overlaps (r_time_range r) (r_time_range q)"
      by (auto simp: excluded_def cancel_row_def elim!: in_update_whereE split: if_splits)
    with assms(1,3) q show False
      by (auto simp: wf_db_def reservations_wf_def exclusive_def)
  qed
  moreover have "wf_db (cancel_row rid now d)" using assms(1) by (rule wf_cancel_row)
  ultimately show ?thesis
    using assms(2,3) q
    by (auto simp: yields_def cancel_reservation_def Let_def get_cancel_row reservation_active_def
        intro: wf_write_audit)
qed

theorem cancel_frees_slot_witness:
  "yields (cancel_reservation 0 (sample_user 2 ''user'') 1 busy_db)
     (\<lambda>r d'. \<not> excluded (db_reservations d') 7 (TimeRange (2 * hour_us) (4 * hour_us)))"
proof -
  let ?q = "sample_reservation 1 2 7 (2 * hour_us) (4 * hour_us)"
  have g: "get_reservation (sample_user 2 ''user'') 1 busy_db = Inr ?q" by code_simp
  have a: "reservation_active (r_status ?q)" by (simp add: sample_defs)
  from cancel_frees_slot [OF wf_busy_db g a, of 0] show ?thesis by (auto simp: yields_iff sample_reservation_def booked_def)
qed

text \<open>A listing contains exactly the active reservations the viewer may see that meet the
  filters: an administrator sees everybody's or the chosen user's, anybody else only their own
  whatever user they ask for; the rows come in the order of their starts.\<close>
theorem list_reservations_spec:
  "set (list_reservations viewer from_at to_at hid uid d) =
     {r \<in> set (db_reservations d). reservation_active (r_status r)
        \<and> (if is_admin viewer then uid = None \<or> uid = Some (r_user_id r)
           else r_user_id r = u_id viewer)
        \<and> (hid = None \<or> hid = Some (r_host_id r))
        \<and> (case from_at of None \<Rightarrow> True | Some f \<Rightarrow> ends_after f (r_time_range r))
        \<and> (case to_at of None \<Rightarrow> True
            | Some t \<Rightarrow> (case range_lower (r_time_range r) of None \<Rightarrow> False | Some l \<Rightarrow> l < t))}
   \<and> sorted (map (\<lambda>r. the (range_lower (r_time_range r)))
       (filter (\<lambda>r. range_lower (r_time_range r) \<noteq> None)
          (list_reservations viewer from_at to_at hid uid d)))"
proof
  show "sorted (map (\<lambda>r. the (range_lower (r_time_range r)))
       (filter (\<lambda>r. range_lower (r_time_range r) \<noteq> None)
          (list_reservations viewer from_at to_at hid uid d)))"
    unfolding list_reservations_def Let_def by (rule sorted_filter_sort_key) simp
  show "set (list_reservations viewer from_at to_at hid uid d) =
     {r \<in> set (db_reservations d). reservation_active (r_status r)
        \<and> (if is_admin viewer then uid = None \<or> uid = Some (r_user_id r)
           else r_user_id r = u_id viewer)
        \<and> (hid = None \<or> hid = Some (r_host_id r))
        \<and> (case from_at of None \<Rightarrow> True | Some f \<Rightarrow> ends_after f (r_time_range r))
        \<and> (case to_at of None \<Rightarrow> True
            | Some t \<Rightarrow> (case range_lower (r_time_range r) of None \<Rightarrow> False | Some l \<Rightarrow> l < t))}"
    (is "?L = ?R")
  proof (rule set_eqI)
    fix r
    have lower: "r \<in> set (sort_key k (filter (\<lambda>r. range_lower (r_time_range r) \<noteq> None) rows)
        @ filter (\<lambda>r. range_lower (r_time_range r) = None) rows) \<longleftrightarrow> r \<in> set rows"
      for rows and k :: "reservation \<Rightarrow> instant" by (cases "range_lower (r_time_range r)") simp_all
    show "r \<in> ?L \<longleftrightarrow> r \<in> ?R"
      unfolding list_reservations_def Let_def lower
      by (simp only: set_filter mem_Collect_eq, intro conj_cong refl)
         (auto split: option.split)
  qed
qed

subsection \<open>Two bookings at once\<close>

text \<open>Two requests of one user whose statements interleave: both check the window and the quota before
  either inserts its row.  Nothing in \<open>create_reservation\<close> locks the user, and the exclusion
  constraint only looks at one host.\<close>

record booking_request =
  br_key :: int
  br_host :: int
  br_from :: datetime
  br_until :: datetime

definition book_checks :: "settings \<Rightarrow> instant \<Rightarrow> user \<Rightarrow> booking_request \<Rightarrow> db \<Rightarrow> app_error + unit" where
  "book_checks cfg now usr q d =
     (case validate_window cfg now (br_from q) (br_until q) of
        Inl err \<Rightarrow> Inl err
      | Inr _ \<Rightarrow> (case validate_host_exists d (br_host q) of
          Inl err \<Rightarrow> Inl err | Inr _ \<Rightarrow> validate_quota cfg now d usr (br_from q) (br_until q)))"

definition interleaved_bookings ::
  "settings \<Rightarrow> instant \<Rightarrow> user \<Rightarrow> booking_request \<Rightarrow> booking_request \<Rightarrow> db \<Rightarrow> app_error + db" where
  "interleaved_bookings cfg now usr q1 q2 d =
     (case (book_checks cfg now usr q1 d, book_checks cfg now usr q2 d) of
        (Inr _, Inr _) \<Rightarrow>
          (case book_row (br_key q1) now usr (br_host q1) (br_from q1) (br_until q1) [] d of
             Inl err \<Rightarrow> Inl err
           | Inr (_, d1) \<Rightarrow>
               (case book_row (br_key q2) now usr (br_host q2) (br_from q2) (br_until q2) [] d1 of
                  Inl err \<Rightarrow> Inl err | Inr (_, d2) \<Rightarrow> Inr d2))
      | (Inl err, _) \<Rightarrow> Inl err
      | (_, Inl err) \<Rightarrow> Inl err)"

lemma concurrent_count_booked:
  assumes "book_row nid created usr hid s e extra d = Inr (r, d')" "instant_of s < instant_of e" "now < instant_of e"
  shows "concurrent_count d' (u_id usr) now = concurrent_count d (u_id usr) now + 1"
  using assms(3) book_row_Inr(1,2) [OF assms(1,2)]
  by (simp add: concurrent_count_def row_simps booked_def reservation_active_def ends_after_def)

text \<open>The limit on unfinished reservations is checked and then acted on without a lock: two
  interleaved bookings of a user who is one below the limit both succeed, and leave him one above.\<close>
theorem interleaved_bookings_exceed_limit:
  assumes "interleaved_bookings cfg now usr q1 q2 d = Inr d'"
    and "concurrent_count d (u_id usr) now + 1 = max_concurrent_reservations cfg"
  shows "concurrent_count d' (u_id usr) now = max_concurrent_reservations cfg + 1"
proof -
  from assms(1) obtain r1 d1 r2 where
    b: "book_row (br_key q1) now usr (br_host q1) (br_from q1) (br_until q1) [] d = Inr (r1, d1)"
      "book_row (br_key q2) now usr (br_host q2) (br_from q2) (br_until q2) [] d1 = Inr (r2, d')"
    and v: "validate_window cfg now (br_from q1) (br_until q1) = Inr ()"
      "validate_window cfg now (br_from q2) (br_until q2) = Inr ()"
    by (auto simp: interleaved_bookings_def book_checks_def split: sum.splits)
  note p = validate_window_proper [OF v(1)] validate_window_proper [OF v(2)]
  have "now < instant_of (br_until q1)" "now < instant_of (br_until q2)" using p by auto
  then show ?thesis
    using concurrent_count_booked [OF b(1)] concurrent_count_booked [OF b(2)] p assms(2) by simp
qed

theorem interleaved_bookings_exceed_limit_witness:
  "\<exists>d'. interleaved_bookings (default_settings\<lparr>max_concurrent_reservations := 1\<rparr>) 0 (sample_user 2 ''user'')
       \<lparr>br_key = 1, br_host = 7, br_from = at_utc hour_us, br_until = at_utc (2 * hour_us)\<rparr>
       \<lparr>br_key = 2, br_host = 8, br_from = at_utc hour_us, br_until = at_utc (2 * hour_us)\<rparr> sample_db = Inr d'
     \<and> concurrent_count d' 2 0 = 2"
proof -
  let ?i = "interleaved_bookings (default_settings\<lparr>max_concurrent_reservations := 1\<rparr>) 0 (sample_user 2 ''user'')
       \<lparr>br_key = 1, br_host = 7, br_from = at_utc hour_us, br_until = at_utc (2 * hour_us)\<rparr>
       \<lparr>br_key = 2, br_host = 8, br_from = at_utc hour_us, br_until = at_utc (2 * hour_us)\<rparr> sample_db"
  have "is_ok ?i" by code_simp
  then obtain d' where i: "?i = Inr d'" by (auto simp: is_ok_iff)
  have "concurrent_count sample_db (u_id (sample_user 2 ''user'')) 0 + 1
      = max_concurrent_reservations (default_settings\<lparr>max_concurrent_reservations := 1\<rparr>)" by code_simp
  from interleaved_bookings_exceed_limit [OF i this] i show ?thesis by (simp add: sample_user_def)
qed

end
