(* ===== verification/Token_Facts.thy ===== *)
theory Token_Facts
  imports Tokens Reservation_Facts
begin

text \<open>
  The correctness of the three token services.  Each is shown to be a credential store
  (\<open>Credentials\<close>), connect and agent tokens to be rotating ones, so that the laws about histories
  of issuing and withdrawing hold for the code.  What is particular to connect tokens (the time
  window, the single consumption, what cancelling does not do) follows.
\<close>

subsection \<open>Look-up after the statements\<close>

lemma lookup_after_revoke:
  assumes "tokens_wf (db_tokens d)"
  shows "lookup_token sha p t raw (snd (revoke_where P now d)) = Some tok \<longleftrightarrow>
     lookup_token sha p t raw d = Some tok \<and> \<not> P tok"
proof -
  have "tokens_wf (db_tokens (snd (revoke_where P now d)))"
    using assms by (simp add: token_simps tokens_wf_update)
  then show ?thesis
    by (auto simp: lookup_token_iff assms token_simps set_update_where token_live_def)
qed

lemma lookup_after_insert:
  assumes "tokens_wf (db_tokens d)" "insert_token tok d = Inr d'"
  shows "lookup_token sha p t raw d' = Some q \<longleftrightarrow>
     lookup_token sha p t raw d = Some q \<or> q = tok \<and> t_jti tok = sha raw \<and> token_live p t tok"
proof -
  have "tokens_wf (db_tokens d')"
    using assms(1) insert_token_Inr [OF assms(2)] by (auto simp: tokens_wf_def)
  then show ?thesis
    using insert_token_Inr(1) [OF assms(2)] by (auto simp: lookup_token_iff assms(1))
qed

lemma tokens_wf_insert: "insert_token tok d = Inr d' \<Longrightarrow> tokens_wf (db_tokens d) \<Longrightarrow> tokens_wf (db_tokens d')"
  using insert_token_Inr [of tok d d'] by (auto simp: tokens_wf_def)

lemma tokens_wf_revoke: "tokens_wf (db_tokens d) \<Longrightarrow> tokens_wf (db_tokens (snd (revoke_where P now d)))"
  by (simp add: token_simps tokens_wf_update)

subsection \<open>Connect tokens are a rotating credential store\<close>

type_synonym connect_request = "user \<times> reservation \<times> int \<times> instant"

definition connect_owner :: "connect_request \<Rightarrow> int" where
  "connect_owner x = (case x of (usr, r, nid, rnow) \<Rightarrow> r_id r)"

definition connect_usable :: "settings \<Rightarrow> connect_request \<Rightarrow> instant \<Rightarrow> instant \<Rightarrow> db \<Rightarrow> bool" where
  "connect_usable cfg x now t d =
     (case x of (usr, r, nid, rnow) \<Rightarrow>
        (case connect_gate cfg now usr r of Inl _ \<Rightarrow> False | Inr ends_at \<Rightarrow> t < ends_at))"

definition connect_issue ::
  "(string \<Rightarrow> string) \<Rightarrow> settings \<Rightarrow> connect_request \<Rightarrow> instant \<Rightarrow> string \<Rightarrow> db \<Rightarrow> db option" where
  "connect_issue sha cfg x now raw d =
     (case x of (usr, r, nid, rnow) \<Rightarrow>
        (case issue_connect_token sha cfg now rnow raw nid usr r d of
           Inl _ \<Rightarrow> None | Inr (res, d') \<Rightarrow> Some d'))"

definition connect_verify :: "(string \<Rightarrow> string) \<Rightarrow> instant \<Rightarrow> string \<Rightarrow> db \<Rightarrow> int option" where
  "connect_verify sha t raw d = Option.bind (verify_connect_token sha t raw d) t_reservation_id"

definition connect_revoke :: "int \<Rightarrow> instant \<Rightarrow> db \<Rightarrow> db" where
  "connect_revoke rid now d = snd (revoke_active_tokens_for_reservation now rid d)"

definition store_inv :: "db \<Rightarrow> bool" where
  "store_inv d \<longleftrightarrow> tokens_wf (db_tokens d)"

lemma connect_verify_iff:
  "connect_verify sha t raw d = Some k \<longleftrightarrow>
     raw \<noteq> [] \<and> (\<exists>tok. lookup_token sha Connect t raw d = Some tok \<and> t_reservation_id tok = Some k)"
  by (auto simp: connect_verify_def verify_connect_token_def bind_eq_Some_conv)

lemma lookup_live: "tokens_wf (db_tokens d) \<Longrightarrow> lookup_token sha p t raw d = Some tok \<Longrightarrow> token_live p t tok"
  by (simp add: lookup_token_iff)

lemma connect_verify_issue:
  assumes "store_inv d" "connect_issue sha cfg (usr, r, nid, rnow) now raw d = Some d'"
  shows "connect_verify sha t raw' d' = Some k \<longleftrightarrow> raw' \<noteq> [] \<and>
     (connect_verify sha t raw' d = Some k \<and> k \<noteq> r_id r
      \<or> sha raw' = sha raw \<and> k = r_id r \<and> connect_usable cfg (usr, r, nid, rnow) now t d)"
proof -
  from assms(2) obtain raw0 tok n where iss:
    "issue_connect_token sha cfg now rnow raw nid usr r d = Inr ((raw0, tok, n), d')"
    by (auto simp: connect_issue_def split: sum.splits)
  note I = issue_connect_token_Inr [OF iss]
  let ?P = "\<lambda>t. t_reservation_id t = Some (r_id r) \<and> open_token Connect t"
  have wf: "tokens_wf (db_tokens d)" using assms(1) by (simp add: store_inv_def)
  from I(1) obtain e where e: "connect_gate cfg now usr r = Inr e" "tok = connect_row sha now raw nid usr r e"
    by blast
  have tok: "t_reservation_id tok = Some (r_id r)" "t_jti tok = sha raw"
    "token_live Connect t tok \<longleftrightarrow> t < e"
    by (simp_all add: e connect_row_def token_live_def)
  have usable: "connect_usable cfg (usr, r, nid, rnow) now t d \<longleftrightarrow> t < e"
    by (simp add: connect_usable_def e)
  have "open": "lookup_token sha Connect t raw' d = Some q \<Longrightarrow> open_token Connect q" for q
    using lookup_live [OF wf] by (auto simp: token_live_def open_token_def)
  have lk: "lookup_token sha Connect t raw' d' = Some q \<longleftrightarrow>
     lookup_token sha Connect t raw' d = Some q \<and> t_reservation_id q \<noteq> Some (r_id r)
     \<or> q = tok \<and> sha raw = sha raw' \<and> t < e" for q
    unfolding lookup_after_insert [OF tokens_wf_revoke [OF wf] I(4) [unfolded revoke_active_tokens_for_reservation_def]]
      lookup_after_revoke [OF wf] tok using "open" by auto
  show ?thesis
    unfolding connect_verify_iff lk usable using tok(1) by (metis option.inject)
qed

lemma connect_verify_revoke:
  assumes "store_inv d"
  shows "connect_verify sha t raw (connect_revoke rid now d) = Some k \<longleftrightarrow>
     connect_verify sha t raw d = Some k \<and> k \<noteq> rid"
proof -
  have wf: "tokens_wf (db_tokens d)" using assms by (simp add: store_inv_def)
  have "lookup_token sha Connect t raw d = Some q \<Longrightarrow> open_token Connect q" for q
    using lookup_live [OF wf] by (auto simp: token_live_def open_token_def)
  then show ?thesis
    unfolding connect_verify_iff connect_revoke_def revoke_active_tokens_for_reservation_def
      lookup_after_revoke [OF wf] by auto
qed

lemma connect_issue_inv: "store_inv d \<Longrightarrow> connect_issue sha cfg x now raw d = Some d' \<Longrightarrow> store_inv d'"
  by (cases x) (auto simp: connect_issue_def store_inv_def revoke_active_tokens_for_reservation_def
      split: sum.splits dest!: issue_connect_token_Inr(4) intro: tokens_wf_insert tokens_wf_revoke)

lemma lookup_earlier:
  "store_inv d \<Longrightarrow> lookup_token sha p t raw d = Some q \<Longrightarrow> t' \<le> t \<Longrightarrow> lookup_token sha p t' raw d = Some q"
  by (auto simp: store_inv_def lookup_token_iff intro: token_live_earlier)

interpretation connect: rotating_credential_store
  sha connect_owner "connect_usable cfg" "connect_issue sha cfg" "connect_verify sha" connect_revoke store_inv
  for sha :: "string \<Rightarrow> string" and cfg :: settings
proof
  fix d x now raw d' t raw' k k'
  show "store_inv d \<Longrightarrow> connect_issue sha cfg x now raw d = Some d' \<Longrightarrow> store_inv d'"
    by (rule connect_issue_inv)
  show "store_inv (connect_revoke k now d)" if "store_inv d"
    using that by (simp add: store_inv_def connect_revoke_def revoke_active_tokens_for_reservation_def
        tokens_wf_revoke)
  show "store_inv d \<Longrightarrow> connect_issue sha cfg x now raw d = Some d' \<Longrightarrow> raw \<noteq> [] \<Longrightarrow>
      connect_usable cfg x now t d \<Longrightarrow> connect_verify sha t raw d' = Some (connect_owner x)"
    by (cases x) (simp add: connect_verify_issue connect_owner_def)
  show "store_inv d \<Longrightarrow> connect_issue sha cfg x now raw d = Some d' \<Longrightarrow>
      connect_verify sha t raw' d' = Some k \<Longrightarrow>
      connect_verify sha t raw' d = Some k \<or> sha raw' = sha raw \<and> k = connect_owner x"
    by (cases x) (auto simp: connect_verify_issue connect_owner_def)
  show "store_inv d \<Longrightarrow> connect_verify sha t raw (connect_revoke k now d) = Some k' \<Longrightarrow>
      connect_verify sha t raw d = Some k' \<and> k' \<noteq> k"
    by (simp add: connect_verify_revoke)
  show "store_inv d \<Longrightarrow> connect_verify sha t raw d = Some k \<Longrightarrow> t' \<le> t \<Longrightarrow>
      connect_verify sha t' raw d = Some k" for t'
    by (auto simp: connect_verify_iff intro: lookup_earlier)
  show "store_inv d \<Longrightarrow> connect_issue sha cfg x now raw d = Some d' \<Longrightarrow>
      connect_verify sha t raw' d' = Some (connect_owner x) \<Longrightarrow> sha raw' = sha raw"
    by (cases x) (simp add: connect_verify_issue connect_owner_def)
qed

subsection \<open>Agent tokens are a rotating credential store\<close>

type_synonym agent_request = "int \<times> user \<times> int \<times> instant"

definition agent_owner :: "agent_request \<Rightarrow> int" where
  "agent_owner x = (case x of (hid, usr, nid, rnow) \<Rightarrow> hid)"

definition agent_usable :: "settings \<Rightarrow> agent_request \<Rightarrow> instant \<Rightarrow> instant \<Rightarrow> db \<Rightarrow> bool" where
  "agent_usable cfg x now t d \<longleftrightarrow> t < now + agent_token_ttl_days cfg * day_us"

definition agent_issue ::
  "(string \<Rightarrow> string) \<Rightarrow> settings \<Rightarrow> agent_request \<Rightarrow> instant \<Rightarrow> string \<Rightarrow> db \<Rightarrow> db option" where
  "agent_issue sha cfg x now raw d =
     (case x of (hid, usr, nid, rnow) \<Rightarrow>
        (case issue_agent_token sha cfg rnow now raw nid hid usr d of
           Inl _ \<Rightarrow> None | Inr (res, d') \<Rightarrow> Some d'))"

definition agent_verify :: "(string \<Rightarrow> string) \<Rightarrow> instant \<Rightarrow> string \<Rightarrow> db \<Rightarrow> int option" where
  "agent_verify sha t raw d = Option.bind (verify_agent_token sha t raw d) t_host_id"

definition agent_revoke :: "int \<Rightarrow> instant \<Rightarrow> db \<Rightarrow> db" where
  "agent_revoke hid now d = snd (revoke_active_agent_tokens now hid d)"

lemma agent_verify_iff:
  "agent_verify sha t raw d = Some k \<longleftrightarrow>
     raw \<noteq> [] \<and> (\<exists>tok. lookup_token sha Agent t raw d = Some tok \<and> t_host_id tok = Some k)"
  by (auto simp: agent_verify_def verify_agent_token_def bind_eq_Some_conv)

lemma agent_verify_issue:
  assumes "store_inv d" "agent_issue sha cfg (hid, usr, nid, rnow) now raw d = Some d'"
  shows "agent_verify sha t raw' d' = Some k \<longleftrightarrow> raw' \<noteq> [] \<and>
     (agent_verify sha t raw' d = Some k \<and> k \<noteq> hid
      \<or> sha raw' = sha raw \<and> k = hid \<and> t < now + agent_token_ttl_days cfg * day_us)"
proof -
  from assms(2) obtain raw0 tok n where iss:
    "issue_agent_token sha cfg rnow now raw nid hid usr d = Inr ((raw0, tok, n), d')"
    by (auto simp: agent_issue_def split: sum.splits)
  note I = issue_agent_token_Inr [OF iss]
  have wf: "tokens_wf (db_tokens d)" using assms(1) by (simp add: store_inv_def)
  have live: "token_live Agent t tok \<longleftrightarrow> t < now + agent_token_ttl_days cfg * day_us"
    using I(4,5) by (simp add: token_live_def open_token_def)
  have "open": "lookup_token sha Agent t raw' d = Some q \<Longrightarrow> open_token Agent q" for q
    using lookup_live [OF wf] by (auto simp: token_live_def open_token_def)
  have lk: "lookup_token sha Agent t raw' d' = Some q \<longleftrightarrow>
     lookup_token sha Agent t raw' d = Some q \<and> t_host_id q \<noteq> Some hid
     \<or> q = tok \<and> sha raw = sha raw' \<and> t < now + agent_token_ttl_days cfg * day_us" for q
    unfolding lookup_after_insert [OF tokens_wf_revoke [OF wf] I(7) [unfolded revoke_active_agent_tokens_def]]
      lookup_after_revoke [OF wf] live I(2) using "open" by auto
  show ?thesis
    unfolding agent_verify_iff lk using I(3) by (metis option.inject)
qed

lemma agent_verify_revoke:
  assumes "store_inv d"
  shows "agent_verify sha t raw (agent_revoke hid now d) = Some k \<longleftrightarrow>
     agent_verify sha t raw d = Some k \<and> k \<noteq> hid"
proof -
  have wf: "tokens_wf (db_tokens d)" using assms by (simp add: store_inv_def)
  have "lookup_token sha Agent t raw d = Some q \<Longrightarrow> open_token Agent q" for q
    using lookup_live [OF wf] by (auto simp: token_live_def open_token_def)
  then show ?thesis
    unfolding agent_verify_iff agent_revoke_def revoke_active_agent_tokens_def
      lookup_after_revoke [OF wf] by auto
qed

lemma agent_issue_inv: "store_inv d \<Longrightarrow> agent_issue sha cfg x now raw d = Some d' \<Longrightarrow> store_inv d'"
  by (cases x) (auto simp: agent_issue_def store_inv_def revoke_active_agent_tokens_def
      split: sum.splits dest!: issue_agent_token_Inr(7) intro: tokens_wf_insert tokens_wf_revoke)

interpretation agent: rotating_credential_store
  sha agent_owner "agent_usable cfg" "agent_issue sha cfg" "agent_verify sha" agent_revoke store_inv
  for sha :: "string \<Rightarrow> string" and cfg :: settings
proof
  fix d x now raw d' t raw' k k'
  show "store_inv d \<Longrightarrow> agent_issue sha cfg x now raw d = Some d' \<Longrightarrow> store_inv d'"
    by (rule agent_issue_inv)
  show "store_inv (agent_revoke k now d)" if "store_inv d"
    using that by (simp add: store_inv_def agent_revoke_def revoke_active_agent_tokens_def tokens_wf_revoke)
  show "store_inv d \<Longrightarrow> agent_issue sha cfg x now raw d = Some d' \<Longrightarrow> raw \<noteq> [] \<Longrightarrow>
      agent_usable cfg x now t d \<Longrightarrow> agent_verify sha t raw d' = Some (agent_owner x)"
    by (cases x) (simp add: agent_verify_issue agent_owner_def agent_usable_def)
  show "store_inv d \<Longrightarrow> agent_issue sha cfg x now raw d = Some d' \<Longrightarrow>
      agent_verify sha t raw' d' = Some k \<Longrightarrow>
      agent_verify sha t raw' d = Some k \<or> sha raw' = sha raw \<and> k = agent_owner x"
    by (cases x) (auto simp: agent_verify_issue agent_owner_def)
  show "store_inv d \<Longrightarrow> agent_verify sha t raw (agent_revoke k now d) = Some k' \<Longrightarrow>
      agent_verify sha t raw d = Some k' \<and> k' \<noteq> k"
    by (simp add: agent_verify_revoke)
  show "store_inv d \<Longrightarrow> agent_verify sha t raw d = Some k \<Longrightarrow> t' \<le> t \<Longrightarrow>
      agent_verify sha t' raw d = Some k" for t'
    by (auto simp: agent_verify_iff intro: lookup_earlier)
  show "store_inv d \<Longrightarrow> agent_issue sha cfg x now raw d = Some d' \<Longrightarrow>
      agent_verify sha t raw' d' = Some (agent_owner x) \<Longrightarrow> sha raw' = sha raw"
    by (cases x) (simp add: agent_verify_issue agent_owner_def)
qed

subsection \<open>Sessions are a credential store\<close>

type_synonym session_request = "user \<times> int \<times> int"

definition session_owner :: "session_request \<Rightarrow> int" where
  "session_owner x = (case x of (usr, ttl, nid) \<Rightarrow> u_id usr)"

definition session_usable :: "session_request \<Rightarrow> instant \<Rightarrow> instant \<Rightarrow> db \<Rightarrow> bool" where
  "session_usable x now t d \<longleftrightarrow>
     (case x of (usr, ttl, nid) \<Rightarrow> t < now + ttl * sec_us
        \<and> (\<exists>u \<in> set (db_users d). u_id u = u_id usr \<and> u_is_active u))"

definition session_issue ::
  "(string \<Rightarrow> string) \<Rightarrow> session_request \<Rightarrow> instant \<Rightarrow> string \<Rightarrow> db \<Rightarrow> db option" where
  "session_issue sha x now raw d =
     (case x of (usr, ttl, nid) \<Rightarrow>
        (case issue_session sha ttl now raw nid usr d of Inl _ \<Rightarrow> None | Inr (res, d') \<Rightarrow> Some d'))"

definition session_verify :: "(string \<Rightarrow> string) \<Rightarrow> instant \<Rightarrow> string \<Rightarrow> db \<Rightarrow> int option" where
  "session_verify sha t raw d = map_option u_id (verify_session sha t raw d)"

definition session_revoke :: "int \<Rightarrow> instant \<Rightarrow> db \<Rightarrow> db" where
  "session_revoke uid now d = snd (revoke_all_sessions_for_user now uid d)"

lemma session_verify_iff:
  assumes "store_inv d"
  shows "session_verify sha t raw d = Some k \<longleftrightarrow>
     raw \<noteq> [] \<and> (\<exists>tok. lookup_token sha Session t raw d = Some tok \<and> t_user_id tok = k)
     \<and> (\<exists>u \<in> set (db_users d). u_id u = k \<and> u_is_active u)"
proof -
  have "verify_session sha t raw d = Some u \<Longrightarrow> u \<in> set (db_users d) \<and> u_is_active u \<and> raw \<noteq> []
      \<and> (\<exists>tok. lookup_token sha Session t raw d = Some tok \<and> t_user_id tok = u_id u)" for u
    using assms by (auto simp: verify_session_def store_inv_def lookup_token_iff
        split: if_splits dest!: find_SomeD)
  moreover have "verify_session sha t raw d \<noteq> None"
    if "raw \<noteq> []" "lookup_token sha Session t raw d = Some tok" "u \<in> set (db_users d)"
      "u_id u = t_user_id tok" "u_is_active u" for u tok
    using that assms
    by (auto simp: verify_session_def store_inv_def lookup_token_iff find_None_iff
        intro!: exI [of _ u] bexI [of _ tok])
  ultimately show ?thesis unfolding session_verify_def by fastforce
qed

lemma session_issue_inv: "store_inv d \<Longrightarrow> session_issue sha x now raw d = Some d' \<Longrightarrow> store_inv d'"
  by (cases x) (auto simp: session_issue_def store_inv_def split: sum.splits
      dest!: issue_session_Inr(2) intro: tokens_wf_insert)

lemma session_verify_issue:
  assumes "store_inv d" "session_issue sha (usr, ttl, nid) now raw d = Some d'"
  shows "session_verify sha t raw' d' = Some k \<longleftrightarrow>
     session_verify sha t raw' d = Some k
     \<or> raw' \<noteq> [] \<and> sha raw' = sha raw \<and> k = u_id usr \<and> session_usable (usr, ttl, nid) now t d"
proof -
  from assms(2) obtain raw0 tok where iss: "issue_session sha ttl now raw nid usr d = Inr ((raw0, tok), d')"
    by (auto simp: session_issue_def split: sum.splits)
  note I = issue_session_Inr [OF iss]
  have wf: "tokens_wf (db_tokens d)" using assms(1) by (simp add: store_inv_def)
  have live: "token_live Session t tok \<longleftrightarrow> t < now + ttl * sec_us"
    using I(6-9) by (simp add: token_live_def)
  show ?thesis
    unfolding session_verify_iff [OF session_issue_inv [OF assms]] session_verify_iff [OF assms(1)]
      lookup_after_insert [OF wf I(2)] live I(4) I(10) session_usable_def prod.case
      I(5) [symmetric] eq_commute [of "sha raw"]
    by blast
qed

lemma session_verify_revoke:
  assumes "store_inv d"
  shows "session_verify sha t raw (session_revoke uid now d) = Some k \<longleftrightarrow>
     session_verify sha t raw d = Some k \<and> k \<noteq> uid"
proof -
  have wf: "tokens_wf (db_tokens d)" using assms by (simp add: store_inv_def)
  have inv: "store_inv (session_revoke uid now d)"
    using wf by (simp add: store_inv_def session_revoke_def revoke_all_sessions_for_user_def tokens_wf_revoke)
  have live: "lookup_token sha Session t raw d = Some q \<Longrightarrow> t_purpose q = Session \<and> t_revoked_at q = None" for q
    using lookup_live [OF wf] by (auto simp: token_live_def)
  show ?thesis
    unfolding session_verify_iff [OF inv] session_verify_iff [OF assms]
    unfolding session_revoke_def revoke_all_sessions_for_user_def
      lookup_after_revoke [OF wf] revoke_where_frame using live by auto
qed

interpretation session: credential_store
  sha session_owner session_usable "session_issue sha" "session_verify sha" session_revoke store_inv
  for sha :: "string \<Rightarrow> string"
proof
  fix d x now raw d' t raw' k k'
  show "store_inv d \<Longrightarrow> session_issue sha x now raw d = Some d' \<Longrightarrow> store_inv d'"
    by (rule session_issue_inv)
  show "store_inv (session_revoke k now d)" if "store_inv d"
    using that by (simp add: store_inv_def session_revoke_def revoke_all_sessions_for_user_def tokens_wf_revoke)
  show "store_inv d \<Longrightarrow> session_issue sha x now raw d = Some d' \<Longrightarrow> raw \<noteq> [] \<Longrightarrow>
      session_usable x now t d \<Longrightarrow> session_verify sha t raw d' = Some (session_owner x)"
    by (cases x) (simp add: session_verify_issue session_owner_def)
  show "store_inv d \<Longrightarrow> session_issue sha x now raw d = Some d' \<Longrightarrow>
      session_verify sha t raw' d' = Some k \<Longrightarrow>
      session_verify sha t raw' d = Some k \<or> sha raw' = sha raw \<and> k = session_owner x"
    by (cases x) (auto simp: session_verify_issue session_owner_def)
  show "store_inv d \<Longrightarrow> session_verify sha t raw (session_revoke k now d) = Some k' \<Longrightarrow>
      session_verify sha t raw d = Some k' \<and> k' \<noteq> k"
    by (simp add: session_verify_revoke)
  show "store_inv d \<Longrightarrow> session_verify sha t raw d = Some k \<Longrightarrow> t' \<le> t \<Longrightarrow>
      session_verify sha t' raw d = Some k" for t'
    by (auto simp: session_verify_iff intro: lookup_earlier)
qed

subsection \<open>What the stores promise\<close>

text \<open>However connect tokens are issued and withdrawn, for whichever reservations and in
  whichever order, two secrets that are accepted for the same reservation have the same digest: a
  reservation never has two working tokens, if it did not have two before.\<close>
theorem connect_single_secret:
  assumes "wf_db d"
    and "\<And>t t' raw raw'. connect_verify sha t raw d = Some rid \<Longrightarrow>
           connect_verify sha t' raw' d = Some rid \<Longrightarrow> sha raw = sha raw'"
    and "connect_verify sha t raw (history (connect_issue sha cfg) connect_revoke ops d) = Some rid"
    and "connect_verify sha t' raw' (history (connect_issue sha cfg) connect_revoke ops d) = Some rid"
  shows "sha raw = sha raw'"
proof -
  have "store_inv d" using assms(1) by (simp add: wf_db_def store_inv_def)
  moreover have "connect.single sha rid d" unfolding connect.single_def by (blast intro: assms(2))
  ultimately have "connect.single sha rid (history (connect_issue sha cfg) connect_revoke ops d)"
    by (rule connect.single_run)
  then show ?thesis unfolding connect.single_def using assms(3,4) by blast
qed

text \<open>After the sessions of a user have all been withdrawn (single log-out), no cookie is
  recognised as this user, however many sessions are issued and withdrawn afterwards, unless a new
  session with the digest of that cookie was issued to this very user after the log-out.\<close>
theorem logout_all_is_final:
  assumes "wf_db d"
    and "session_verify sha t raw
           (history (session_issue sha) session_revoke ops (session_revoke uid now d)) = Some uid"
  shows "given_out sha session_owner ops uid raw"
  using session.revoked_until_reissued [OF _ assms(2)] assms(1) by (simp add: wf_db_def store_inv_def)

text \<open>Rotating the agent token of a host makes every earlier secret of the host useless, for
  good: whatever is issued or withdrawn afterwards, a secret that the host is recognised by has the
  digest of a secret issued in the rotation or later.\<close>
theorem agent_rotation_is_final:
  assumes "wf_db d" and "agent_issue sha cfg (hid, usr, nid, rnow) now raw d = Some d'"
    and "agent_verify sha t raw' (history (agent_issue sha cfg) agent_revoke ops d') = Some hid"
  shows "sha raw' = sha raw \<or> given_out sha agent_owner ops hid raw'"
proof -
  have inv: "store_inv d" using assms(1) by (simp add: wf_db_def store_inv_def)
  from agent.verified_was_issued [OF agent_issue_inv [OF inv assms(2)] assms(3)]
  show ?thesis using agent_verify_issue [OF inv assms(2)] by blast
qed

subsection \<open>Concrete histories\<close>

lemma no_tokens_busy: "connect_verify sha t raw busy_db \<noteq> Some k"
  by (simp add: connect_verify_def verify_connect_token_def lookup_token_def sample_defs)

theorem connect_single_secret_witness:
  "let x = (\<lambda>n. (sample_user 2 ''user'', sample_reservation 1 2 7 (2 * hour_us) (4 * hour_us), n, 0));
       ops = [Issue (x 1) (2 * hour_us) ''one'', Issue (x 2) (2 * hour_us) ''two''];
       d' = history (connect_issue (\<lambda>s. s) default_settings) connect_revoke ops busy_db in
   connect_verify (\<lambda>s. s) (3 * hour_us) ''two'' d' = Some 1
   \<and> (\<forall>t raw. connect_verify (\<lambda>s. s) t raw d' = Some 1 \<longrightarrow> raw = ''two'')"
proof -
  define x :: "int \<Rightarrow> connect_request" where
    "x = (\<lambda>n. (sample_user 2 ''user'', sample_reservation 1 2 7 (2 * hour_us) (4 * hour_us), n, 0))"
  define d' where "d' = history (connect_issue (\<lambda>s. s) default_settings) connect_revoke
      [Issue (x 1) (2 * hour_us) ''one'', Issue (x 2) (2 * hour_us) ''two''] busy_db"
  have two: "connect_verify (\<lambda>s. s) (3 * hour_us) ''two'' d' = Some 1"
    unfolding d'_def x_def by code_simp
  have "raw = ''two''" if "connect_verify (\<lambda>s. s) t raw d' = Some 1" for t raw
    using connect_single_secret [OF wf_busy_db _ that [unfolded d'_def] two [unfolded d'_def]]
    by (simp add: no_tokens_busy)
  with two show ?thesis by (simp add: d'_def x_def Let_def)
qed

theorem logout_all_is_final_witness:
  "given_out (\<lambda>s. s) session_owner [Issue (sample_user 2 ''user'', 60, 1) 0 ''cookie''] 2 ''cookie''"
proof (rule logout_all_is_final [OF wf_busy_db])
  show "session_verify (\<lambda>s. s) (30 * sec_us) ''cookie''
     (history (session_issue (\<lambda>s. s)) session_revoke [Issue (sample_user 2 ''user'', 60, 1) 0 ''cookie'']
       (session_revoke 2 0 busy_db)) = Some 2"
    by code_simp
qed

theorem agent_rotation_is_final_witness:
  "\<exists>d'. agent_issue (\<lambda>s. s) default_settings (7, sample_user 1 ''admin'', 1, 0) 0 ''first'' busy_db = Some d'
     \<and> agent_verify (\<lambda>s. s) hour_us ''old'' d' \<noteq> Some 7
     \<and> agent_verify (\<lambda>s. s) hour_us ''first'' d' = Some 7"
proof -
  have "\<exists>d'. agent_issue (\<lambda>s. s) default_settings (7, sample_user 1 ''admin'', 1, 0) 0 ''first'' busy_db = Some d'"
    by (simp add: agent_issue_def issue_agent_token_def insert_token_def revoke_active_agent_tokens_def
        revoke_where_def Let_def sample_defs row_simps get_user_def get_host_def update_where_def)
  then obtain d' where d': "agent_issue (\<lambda>s. s) default_settings (7, sample_user 1 ''admin'', 1, 0) 0 ''first'' busy_db = Some d'" ..
  have "store_inv busy_db" using wf_busy_db by (simp add: wf_db_def store_inv_def)
  from agent_verify_issue [OF this d', of hour_us "''first''" 7]
  have "agent_verify (\<lambda>s. s) hour_us ''first'' d' = Some 7" by (simp add: default_settings_def)
  moreover have "agent_verify (\<lambda>s. s) hour_us ''old'' d' \<noteq> Some 7"
    using agent_rotation_is_final [OF wf_busy_db d', of hour_us "''old''" "[]"] by auto
  ultimately show ?thesis using d' by blast
qed

end
