(* ===== verification/Connect_Facts.thy ===== *)
theory Connect_Facts
  imports Token_Facts
begin

text \<open>
  What is particular to connect tokens: when one is issued, for how long it is accepted, that it
  is consumed once under every interleaving of statements, that cancelling a reservation does not
  withdraw it, and that two interleaved issues leave two of them.
\<close>

subsection \<open>Issuing\<close>

lemma connect_gate_Inr_iff:
  "r_time_range r = TimeRange s e \<Longrightarrow>
   connect_gate cfg now usr r = Inr x \<longleftrightarrow> x = e
     \<and> (is_admin usr \<or> r_user_id r = u_id usr) \<and> r_status r = CONFIRMED
     \<and> s - connect_token_grace_seconds cfg * sec_us \<le> now \<and> now < e"
  by (auto simp: connect_gate_def assert_can_access_def reservation_bounds_def)

lemma issue_connect_token_ok:
  assumes "wf_db d" and "r \<in> set (db_reservations d)" and "r_time_range r = TimeRange s e"
    and "u_id usr \<in> u_id ` set (db_users d)" and "nid \<notin> t_id ` set (db_tokens d)"
    and "sha raw \<notin> t_jti ` set (db_tokens d)"
  shows "is_ok (issue_connect_token sha cfg now rnow raw nid usr r d) \<longleftrightarrow>
     (is_admin usr \<or> r_user_id r = u_id usr) \<and> r_status r = CONFIRMED
     \<and> s - connect_token_grace_seconds cfg * sec_us \<le> now \<and> now < e"
proof -
  let ?d1 = "snd (revoke_active_tokens_for_reservation rnow (r_id r) d)"
  have hr: "r_host_id r \<in> h_id ` set (db_hosts d)" "r_id r \<in> r_id ` set (db_reservations d)"
    using assms(1,2) by (auto simp: wf_db_def refs_wf_def)
  have "insert_token (connect_row sha now raw nid usr r e) ?d1 =
      Inr (?d1\<lparr>db_tokens := db_tokens ?d1 @ [connect_row sha now raw nid usr r e]\<rparr>)"
    using assms(4-6) hr
    by (simp add: insert_token_def connect_row_def get_None_iff revoke_active_tokens_for_reservation_def
        token_simps image_update_where)
  then have "is_ok (issue_connect_token sha cfg now rnow raw nid usr r d) \<longleftrightarrow>
      connect_gate cfg now usr r = Inr e"
    using connect_gate_Inr_iff [OF assms(3), of cfg now usr, THEN iffD1, THEN conjunct1]
    by (cases "connect_gate cfg now usr r") (auto simp add: issue_connect_token_def Let_def split_beta)
  then show ?thesis by (simp add: connect_gate_Inr_iff [OF assms(3)])
qed

text \<open>C38: With a fresh secret and key, a connect token is issued exactly when the user owns the
  reservation or is an administrator, the reservation is confirmed, and the clock stands between
  the start less the grace period and the end.\<close>
theorem issue_connect_token_iff:
  assumes "wf_db d" and "r \<in> set (db_reservations d)" and "r_time_range r = TimeRange s e"
    and "u_id usr \<in> u_id ` set (db_users d)" and "nid \<notin> t_id ` set (db_tokens d)"
    and "sha raw \<notin> t_jti ` set (db_tokens d)"
  shows "is_ok (issue_connect_token sha cfg now rnow raw nid usr r d) \<longleftrightarrow>
     (is_admin usr \<or> r_user_id r = u_id usr) \<and> r_status r = CONFIRMED
     \<and> s - connect_token_grace_seconds cfg * sec_us \<le> now \<and> now < e"
  using assms by (rule issue_connect_token_ok)

lemma issued_token_accepted:
  assumes "wf_db d" and "r_time_range r = TimeRange s e" and "raw \<noteq> []"
    and "issue_connect_token sha cfg now rnow raw nid usr r d = Inr ((raw', tok, n), d')"
  shows "verify_connect_token sha t raw' d' = (if t < e then Some tok else None)"
    and "\<And>q other. verify_connect_token sha t other d' = Some q \<Longrightarrow> t_reservation_id q = Some (r_id r) \<Longrightarrow> q = tok"
    and "t_expires_at tok = e \<and> t_reservation_id tok = Some (r_id r)"
proof -
  note I = issue_connect_token_Inr [OF assms(4)]
  have wf: "tokens_wf (db_tokens d)" using assms(1) by (simp add: wf_db_def)
  from I(1) obtain x where x: "connect_gate cfg now usr r = Inr x"
    "tok = connect_row sha now raw nid usr r x" by (elim exE conjE)
  then have tok: "tok = connect_row sha now raw nid usr r e"
    by (simp add: connect_gate_Inr_iff [OF assms(2)])
  then show "t_expires_at tok = e \<and> t_reservation_id tok = Some (r_id r)" by (simp add: connect_row_def)
  note lk = lookup_after_insert [OF tokens_wf_revoke [OF wf] I(4) [unfolded revoke_active_tokens_for_reservation_def]]
    lookup_after_revoke [OF wf]
  have "lookup_token sha Connect t raw d \<noteq> Some q" for q
    using I(7) by (auto simp: lookup_token_iff [OF wf] image_iff)
  moreover have "t_jti tok = sha raw" "token_live Connect t tok \<longleftrightarrow> t < e"
    by (simp_all add: tok connect_row_def token_live_def)
  ultimately have "lookup_token sha Connect t raw d' = Some q \<longleftrightarrow> t < e \<and> q = tok" for q
    by (auto simp: lk)
  then have "lookup_token sha Connect t raw d' = (if t < e then Some tok else None)"
    by (cases "lookup_token sha Connect t raw d'") auto
  then show "verify_connect_token sha t raw' d' = (if t < e then Some tok else None)"
    using assms(3) by (simp add: verify_connect_token_def I(2))
  show "q = tok" if "verify_connect_token sha t other d' = Some q" "t_reservation_id q = Some (r_id r)"
    for q other
  proof -
    have "lookup_token sha Connect t other d' = Some q"
      using that(1) by (simp add: verify_connect_token_def split: if_splits)
    then show ?thesis
      using that(2) lookup_live [OF wf, of sha Connect t other q]
      unfolding lk by (auto simp: token_live_def open_token_def)
  qed
qed

text \<open>From then on the secret is accepted until the reservation ends and not after, it
  identifies the new row, and no other secret is accepted for this reservation.\<close>
theorem issued_connect_token_window:
  assumes "wf_db d" and "r_time_range r = TimeRange s e" and "raw \<noteq> []"
    and "issue_connect_token sha cfg now rnow raw nid usr r d = Inr ((raw', tok, n), d')"
  shows "(verify_connect_token sha t raw' d' = Some tok \<longleftrightarrow> t < e)
     \<and> (\<forall>q other. verify_connect_token sha t other d' = Some q \<and> t_reservation_id q = Some (r_id r)
          \<longrightarrow> q = tok)"
  using issued_token_accepted(1,2) [OF assms] by auto

subsection \<open>Single consumption\<close>

text \<open>The statements on the table that the services issue, in any order and from any number of
  clients; each is atomic.  A client that has verified a token consumes it with the row it read.\<close>

datatype token_stmt =
  ConsumeStmt instant token
| RevokeReservationStmt instant int
| RevokeHostStmt instant int
| RevokeUserStmt instant int
| RevokeCookieStmt instant string
| InsertStmt token

fun exec_stmt :: "(string \<Rightarrow> string) \<Rightarrow> token_stmt \<Rightarrow> db \<Rightarrow> bool \<times> db" where
  "exec_stmt sha (ConsumeStmt now tok) d = mark_consumed now tok d"
| "exec_stmt sha (RevokeReservationStmt now rid) d =
     (True, snd (revoke_active_tokens_for_reservation now rid d))"
| "exec_stmt sha (RevokeHostStmt now hid) d = (True, snd (revoke_active_agent_tokens now hid d))"
| "exec_stmt sha (RevokeUserStmt now uid) d = (True, snd (revoke_all_sessions_for_user now uid d))"
| "exec_stmt sha (RevokeCookieStmt now raw) d = (True, snd (revoke_session sha now raw d))"
| "exec_stmt sha (InsertStmt tok) d =
     (case insert_token tok d of Inl _ \<Rightarrow> (False, d) | Inr d' \<Rightarrow> (True, d'))"

text \<open>How often the token with key \<open>i\<close> is consumed successfully.\<close>

fun consumptions :: "(string \<Rightarrow> string) \<Rightarrow> int \<Rightarrow> token_stmt list \<Rightarrow> db \<Rightarrow> nat" where
  "consumptions sha i [] d = 0"
| "consumptions sha i (st # sts) d =
     (case exec_stmt sha st d of (ok, d') \<Rightarrow>
        (case st of ConsumeStmt _ tok \<Rightarrow> (if ok \<and> t_id tok = i then 1 else 0) | _ \<Rightarrow> 0)
        + consumptions sha i sts d')"

definition spent :: "int \<Rightarrow> db \<Rightarrow> bool" where
  "spent i d \<longleftrightarrow> (\<exists>t \<in> set (db_tokens d). t_id t = i \<and> t_consumed_at t \<noteq> None)"

lemma revoke_where_spent: "spent i (snd (revoke_where P now d)) = spent i d"
  by (simp add: spent_def token_simps bex_update_where cong: if_cong)

lemma revoke_session_cases:
  "snd (revoke_session sha now raw d) = d \<or> (\<exists>P. snd (revoke_session sha now raw d) = snd (revoke_where P now d))"
  by (auto simp: revoke_session_def)

lemma mark_consumed_tokens:
  "db_tokens (snd (mark_consumed now tok d)) =
     update_where (\<lambda>t. t_id t = t_id tok \<and> t_consumed_at t = None \<and> t_revoked_at t = None)
       (\<lambda>t. t\<lparr>t_consumed_at := Some now\<rparr>) (db_tokens d)"
  by (simp add: mark_consumed_def Let_def)

lemma exec_stmt_wf: "tokens_wf (db_tokens d) \<Longrightarrow> tokens_wf (db_tokens (snd (exec_stmt sha st d)))"
  using revoke_session_cases [of sha _ _ d]
  by (cases st) (auto simp: mark_consumed_tokens tokens_wf_update revoke_active_tokens_for_reservation_def
      revoke_active_agent_tokens_def revoke_all_sessions_for_user_def revoke_session_def tokens_wf_revoke
      split: sum.split intro: tokens_wf_insert)

lemma mark_consumed_spent: "spent i d \<Longrightarrow> spent i (snd (mark_consumed now tok d))"
  unfolding spent_def mark_consumed_tokens bex_update_where by (erule bexE, rule bexI) auto

lemma exec_stmt_spent: "spent i d \<Longrightarrow> spent i (snd (exec_stmt sha st d))"
  by (cases st) (auto simp: revoke_where_spent revoke_active_tokens_for_reservation_def
      revoke_active_agent_tokens_def revoke_all_sessions_for_user_def revoke_session_def
      split: sum.split dest!: insert_token_Inr(1) intro: mark_consumed_spent, auto simp: spent_def)

lemma spent_not_consumed:
  assumes "tokens_wf (db_tokens d)" "spent (t_id tok) d"
  shows "\<not> fst (mark_consumed now tok d)"
proof -
  from assms(2) obtain q where q: "q \<in> set (db_tokens d)" "t_id q = t_id tok" "t_consumed_at q \<noteq> None"
    by (auto simp: spent_def)
  have "t = q" if "t \<in> set (db_tokens d)" "t_id t = t_id tok" for t
    using assms(1) that q(1,2) by (auto simp: tokens_wf_def distinct_map inj_on_def)
  then have "count_where (\<lambda>t. t_id t = t_id tok \<and> t_consumed_at t = None \<and> t_revoked_at t = None) (db_tokens d) = 0"
    using q(3) by (auto simp: count_where_0_iff)
  then show ?thesis by (simp add: mark_consumed_def Let_def)
qed

lemma consumed_is_spent: "fst (mark_consumed now tok d) \<Longrightarrow> spent (t_id tok) (snd (mark_consumed now tok d))"
proof -
  assume "fst (mark_consumed now tok d)"
  then have "count_where (\<lambda>t. t_id t = t_id tok \<and> t_consumed_at t = None \<and> t_revoked_at t = None) (db_tokens d) \<noteq> 0"
    by (simp add: mark_consumed_def Let_def)
  then show ?thesis
    unfolding spent_def mark_consumed_tokens bex_update_where by (auto simp: count_where_0_iff)
qed

lemma spent_no_consumptions:
  "tokens_wf (db_tokens d) \<Longrightarrow> spent i d \<Longrightarrow> consumptions sha i sts d = 0"
proof (induction sts arbitrary: d)
  case (Cons st sts)
  then have "consumptions sha i sts (snd (exec_stmt sha st d)) = 0"
    by (blast intro: exec_stmt_wf exec_stmt_spent)
  moreover have "\<not> fst (exec_stmt sha st d)" if "st = ConsumeStmt now tok" "t_id tok = i" for now tok
    using that Cons.prems by (simp add: spent_not_consumed)
  ultimately show ?case by (auto simp: split_beta split: token_stmt.split)
qed simp

text \<open>C23: However the statements of concurrent verifications, revocations and insertions
  interleave, a given connect token is consumed successfully at most once.\<close>
theorem consumed_at_most_once:
  assumes "wf_db d"
  shows "consumptions sha i sts d \<le> 1"
proof -
  have "tokens_wf (db_tokens d) \<Longrightarrow> consumptions sha i sts d \<le> 1" for d
  proof (induction sts arbitrary: d)
    case (Cons st sts)
    let ?d' = "snd (exec_stmt sha st d)"
    have IH: "consumptions sha i sts ?d' \<le> 1" using Cons by (blast intro: exec_stmt_wf)
    show ?case
    proof (cases "\<exists>now tok. st = ConsumeStmt now tok \<and> t_id tok = i \<and> fst (mark_consumed now tok d)")
      case True
      then obtain now tok where st: "st = ConsumeStmt now tok" "t_id tok = i" "fst (mark_consumed now tok d)"
        by blast
      then have "consumptions sha i sts ?d' = 0"
        using spent_no_consumptions [OF exec_stmt_wf [OF Cons.prems, of sha st], of i sha sts]
          consumed_is_spent [OF st(3)] by simp
      then show ?thesis by (simp add: st split_beta)
    next
      case False
      with IH show ?thesis by (auto simp: split_beta split: token_stmt.split)
    qed
  qed simp
  with assms show ?thesis by (simp add: wf_db_def)
qed

subsection \<open>What cancelling does not do\<close>


subsection \<open>Interleaved issues\<close>

text \<open>Two requests for the same reservation, each in its own transaction under the isolation level
  of the server (read committed): both withdraw what they see, then both insert.\<close>

definition interleaved_issues ::
  "(string \<Rightarrow> string) \<Rightarrow> instant \<Rightarrow> string \<Rightarrow> int \<Rightarrow> string \<Rightarrow> int \<Rightarrow> user \<Rightarrow> reservation \<Rightarrow> instant \<Rightarrow> db \<Rightarrow>
     app_error + db" where
  "interleaved_issues sha now raw1 nid1 raw2 nid2 usr r ends_at d =
     (let d1 = snd (revoke_active_tokens_for_reservation now (r_id r) d);
          d2 = snd (revoke_active_tokens_for_reservation now (r_id r) d1) in
      case insert_token (connect_row sha now raw1 nid1 usr r ends_at) d2 of
        Inl err \<Rightarrow> Inl err
      | Inr d3 \<Rightarrow> insert_token (connect_row sha now raw2 nid2 usr r ends_at) d3)"

text \<open>When the statements of two issues for one reservation interleave in this order, both
  secrets are accepted afterwards: rotation is not atomic.\<close>
theorem interleaved_issues_leave_two:
  assumes "wf_db d" and "connect_gate cfg now usr r = Inr ends_at" and "raw1 \<noteq> []" and "raw2 \<noteq> []"
    and "interleaved_issues sha now raw1 nid1 raw2 nid2 usr r ends_at d = Inr d'" and "t < ends_at"
  shows "connect_verify sha t raw1 d' = Some (r_id r) \<and> connect_verify sha t raw2 d' = Some (r_id r)"
proof -
  let ?t1 = "connect_row sha now raw1 nid1 usr r ends_at"
  let ?t2 = "connect_row sha now raw2 nid2 usr r ends_at"
  from assms(5) obtain d2 d3 where d3: "insert_token ?t1 d2 = Inr d3" "insert_token ?t2 d3 = Inr d'"
    and d2: "d2 = snd (revoke_active_tokens_for_reservation now (r_id r)
                   (snd (revoke_active_tokens_for_reservation now (r_id r) d)))"
    by (auto simp: interleaved_issues_def Let_def split: sum.splits)
  have wf2: "tokens_wf (db_tokens d2)"
    using assms(1) by (simp add: d2 wf_db_def revoke_active_tokens_for_reservation_def tokens_wf_revoke)
  have live: "t_jti ?t1 = sha raw1" "t_jti ?t2 = sha raw2" "t_reservation_id ?t1 = Some (r_id r)"
    "t_reservation_id ?t2 = Some (r_id r)" "token_live Connect t ?t1" "token_live Connect t ?t2"
    using assms(6) by (simp_all add: connect_row_def token_live_def)
  show ?thesis
    unfolding connect_verify_iff lookup_after_insert [OF tokens_wf_insert [OF d3(1) wf2] d3(2)]
      lookup_after_insert [OF wf2 d3(1)]
    using assms(3,4) live by blast
qed

subsection \<open>Concrete runs\<close>

text \<open>In the sample database the reservation 1 of user 2 runs from 2:00 to 4:00; the identity stands
  for the digest.\<close>

definition token_db :: db where
  "token_db = busy_db\<lparr>db_tokens :=
     [connect_row (\<lambda>s. s) (2 * hour_us) ''old'' 1 (sample_user 2 ''user'')
        (sample_reservation 1 2 7 (2 * hour_us) (4 * hour_us)) (4 * hour_us)]\<rparr>"

lemma wf_token_db: "wf_db token_db"
  using wf_busy_db by (auto simp: token_db_def wf_db_def tokens_wf_def refs_wf_def connect_row_def
      sample_defs)

theorem issue_connect_token_iff_witness:
  "is_ok (issue_connect_token (\<lambda>s. s) default_settings (2 * hour_us) (2 * hour_us) ''new'' 2
     (sample_user 2 ''user'') (sample_reservation 1 2 7 (2 * hour_us) (4 * hour_us)) token_db)
   \<and> \<not> is_ok (issue_connect_token (\<lambda>s. s) default_settings hour_us hour_us ''new'' 2
     (sample_user 2 ''user'') (sample_reservation 1 2 7 (2 * hour_us) (4 * hour_us)) token_db)"
proof -
  have "sample_reservation 1 2 7 (2 * hour_us) (4 * hour_us) \<in> set (db_reservations token_db)"
    "r_time_range (sample_reservation 1 2 7 (2 * hour_us) (4 * hour_us)) = TimeRange (2 * hour_us) (4 * hour_us)"
    "u_id (sample_user 2 ''user'') \<in> u_id ` set (db_users token_db)"
    "2 \<notin> t_id ` set (db_tokens token_db)" "''new'' \<notin> t_jti ` set (db_tokens token_db)"
    by (simp_all add: token_db_def sample_defs connect_row_def)
  from issue_connect_token_iff [OF wf_token_db this(1-4), of "\<lambda>s. s", OF this(5)]
  show ?thesis by (simp add: sample_defs default_settings_def)
qed

theorem issued_connect_token_window_witness:
  "yields (issue_connect_token (\<lambda>s. s) default_settings (2 * hour_us) (2 * hour_us) ''new'' 2
       (sample_user 2 ''user'') (sample_reservation 1 2 7 (2 * hour_us) (4 * hour_us)) token_db)
     (\<lambda>(raw, tok, n) d'. n = 1 \<and> verify_connect_token (\<lambda>s. s) (3 * hour_us) ''new'' d' = Some tok
        \<and> verify_connect_token (\<lambda>s. s) (4 * hour_us) ''new'' d' \<noteq> Some tok)"
proof -
  let ?r = "sample_reservation 1 2 7 (2 * hour_us) (4 * hour_us)"
  have "yields (issue_connect_token (\<lambda>s. s) default_settings (2 * hour_us) (2 * hour_us) ''new'' 2
       (sample_user 2 ''user'') ?r token_db) (\<lambda>(raw, tok, n) d'. raw = ''new'' \<and> n = 1)"
    by code_simp
  then obtain tok d' where iss: "issue_connect_token (\<lambda>s. s) default_settings (2 * hour_us) (2 * hour_us) ''new'' 2
       (sample_user 2 ''user'') ?r token_db = Inr ((''new'', tok, 1), d')"
    by (auto elim!: yieldsE)
  have tr: "r_time_range ?r = TimeRange (2 * hour_us) (4 * hour_us)" "''new'' \<noteq> []"
    by (simp_all add: sample_defs)
  note W = issued_connect_token_window [OF wf_token_db tr iss, THEN conjunct1]
  have "verify_connect_token (\<lambda>s. s) (3 * hour_us) ''new'' d' = Some tok"
    "verify_connect_token (\<lambda>s. s) (4 * hour_us) ''new'' d' \<noteq> Some tok"
    by (simp_all add: W)
  then show ?thesis unfolding iss yields_def by simp
qed

theorem consumed_at_most_once_witness:
  "consumptions (\<lambda>s. s) 1
     [ConsumeStmt 5 (hd (db_tokens token_db)), ConsumeStmt 6 (hd (db_tokens token_db))] token_db = 1"
proof -
  have "consumptions (\<lambda>s. s) 1
     [ConsumeStmt 5 (hd (db_tokens token_db)), ConsumeStmt 6 (hd (db_tokens token_db))] token_db \<ge> 1"
    by code_simp
  then show ?thesis by (intro antisym consumed_at_most_once [OF wf_token_db])
qed


theorem interleaved_issues_leave_two_witness:
  "\<exists>d'. connect_verify (\<lambda>s. s) (3 * hour_us) ''one'' d' = Some 1
      \<and> connect_verify (\<lambda>s. s) (3 * hour_us) ''two'' d' = Some 1"
proof -
  let ?r = "sample_reservation 1 2 7 (2 * hour_us) (4 * hour_us)"
  have g: "connect_gate default_settings (2 * hour_us) (sample_user 2 ''user'') ?r = Inr (4 * hour_us)"
    by code_simp
  have "is_ok (interleaved_issues (\<lambda>s. s) (2 * hour_us) ''one'' 2 ''two'' 3 (sample_user 2 ''user'') ?r
      (4 * hour_us) token_db)" by code_simp
  then obtain d' where i: "interleaved_issues (\<lambda>s. s) (2 * hour_us) ''one'' 2 ''two'' 3
      (sample_user 2 ''user'') ?r (4 * hour_us) token_db = Inr d'" by (auto simp: is_ok_iff)
  have "r_id ?r = 1" by (simp add: sample_defs)
  moreover have "''one'' \<noteq> []" "''two'' \<noteq> []" "3 * hour_us < 4 * hour_us" by simp_all
  ultimately show ?thesis
    using interleaved_issues_leave_two [OF wf_token_db g _ _ i] by metis
qed

end
