(* ===== verification/Event_Broker.thy ===== *)
theory Event_Broker
  imports Domain
begin

text \<open>
  \<open>services/host_events.py\<close>: fan-out of host status events to subscribers, each with a bounded
  queue that drops its oldest event when it is full.  The interface of the queue
  (\<open>asyncio.Queue\<close> with \<open>maxsize\<close>) is a locale; what the broker does with one queue is proved
  from its laws and instantiated on the list model of the queue.
\<close>

subsection \<open>Bounded queues\<close>

text \<open>\<open>put_nowait\<close> that drops the oldest entry and retries when the queue is full; an exception of
  \<open>get_nowait\<close> is suppressed and a second \<open>QueueFull\<close> only logged.\<close>

definition offer :: "('e \<Rightarrow> 'q \<Rightarrow> 'q option) \<Rightarrow> ('q \<Rightarrow> ('e \<times> 'q) option) \<Rightarrow> 'e \<Rightarrow> 'q \<Rightarrow> 'q" where
  "offer put get e q =
     (case put e q of
        Some q' \<Rightarrow> q'
      | None \<Rightarrow>
          (let q1 = (case get q of None \<Rightarrow> q | Some (_, q') \<Rightarrow> q') in
           case put e q1 of Some q' \<Rightarrow> q' | None \<Rightarrow> q1))"

locale bounded_queue =
  fixes put :: "'e \<Rightarrow> 'q \<Rightarrow> 'q option"
    and get :: "'q \<Rightarrow> ('e \<times> 'q) option"
    and contents :: "'q \<Rightarrow> 'e list"
    and capacity :: nat
  assumes capacity_pos: "0 < capacity"
    and put_None: "put e q = None \<longleftrightarrow> capacity \<le> length (contents q)"
    and put_Some: "put e q = Some q' \<Longrightarrow> contents q' = contents q @ [e]"
    and get_None: "get q = None \<longleftrightarrow> contents q = []"
    and get_Some: "get q = Some (e, q') \<Longrightarrow> contents q = e # contents q'"
begin

text \<open>The last \<open>capacity\<close> entries of a stream.\<close>

abbreviation window :: "'e list \<Rightarrow> 'e list" where
  "window es \<equiv> drop (length es - capacity) es"

lemma window_append: "window (window xs @ ys) = window (xs @ ys)"
proof -
  have "window xs @ ys = drop (length xs - capacity) (xs @ ys)" by simp
  moreover have "length (xs @ ys) - (length xs - capacity) - capacity + (length xs - capacity)
      = length (xs @ ys) - capacity" by (cases "length xs \<le> capacity") auto
  ultimately show ?thesis by (simp only: drop_drop length_drop)
qed

lemma offer_contents:
  assumes "length (contents q) \<le> capacity"
  shows "contents (offer put get e q) = window (contents q @ [e])"
proof (cases "put e q")
  case (Some q')
  then have "length (contents q) < capacity" using put_None [of e q] by (auto simp: not_le)
  with Some put_Some [OF Some] show ?thesis by (simp add: offer_def)
next
  case None
  then have full: "length (contents q) = capacity" using assms put_None by simp
  with capacity_pos have "get q \<noteq> None" by (auto simp: get_None)
  then obtain x q1 where q1: "get q = Some (x, q1)" by (cases "get q") auto
  from get_Some [OF q1] full have c: "contents q = x # contents q1" "Suc (length (contents q1)) = capacity"
    by simp_all
  then have "put e q1 \<noteq> None" by (simp add: put_None)
  then obtain q2 where q2: "put e q1 = Some q2" by blast
  have "contents (offer put get e q) = contents q1 @ [e]"
    using None q1 q2 put_Some [OF q2] by (simp add: offer_def)
  with c show ?thesis by simp
qed

lemma offer_bounded:
  "length (contents q) \<le> capacity \<Longrightarrow> length (contents (offer put get e q)) \<le> capacity"
  by (simp add: offer_contents)

text \<open>A consumer that does not read in time loses the oldest events and only those.\<close>

lemma offers_contents:
  "length (contents q) \<le> capacity \<Longrightarrow>
     contents (fold (offer put get) es q) = window (contents q @ es)"
proof (induction es arbitrary: q)
  case (Cons e es)
  have "contents (fold (offer put get) (e # es) q)
      = window (contents (offer put get e q) @ es)"
    using Cons.IH [OF offer_bounded [OF Cons.prems]] by simp
  also have "\<dots> = window (contents q @ e # es)"
    unfolding offer_contents [OF Cons.prems] window_append by simp
  finally show ?case .
qed simp

end

subsection \<open>The model of asyncio.Queue\<close>

definition put_nowait :: "nat \<Rightarrow> 'e \<Rightarrow> 'e list \<Rightarrow> 'e list option" where
  "put_nowait maxsize e q = (if length q < maxsize then Some (q @ [e]) else None)"

definition get_nowait :: "'e list \<Rightarrow> ('e \<times> 'e list) option" where
  "get_nowait q = (case q of [] \<Rightarrow> None | e # q' \<Rightarrow> Some (e, q'))"

definition QUEUE_MAXSIZE :: nat where
  "QUEUE_MAXSIZE = 100"

interpretation event_queue: bounded_queue "put_nowait QUEUE_MAXSIZE" get_nowait "\<lambda>q. q" QUEUE_MAXSIZE
  by unfold_locales (auto simp: put_nowait_def get_nowait_def QUEUE_MAXSIZE_def split: if_splits list.splits)

subsection \<open>The broker\<close>

record host_event =
  ev_event :: string
  ev_host_id :: int
  ev_hostname :: string
  ev_old :: host_status
  ev_new :: host_status
  ev_reason :: string
  ev_ts :: instant

text \<open>Queues are objects: \<open>eb_queues\<close> holds the contents of each, \<open>eb_subscribers\<close> the broker's
  list of references.\<close>

record event_broker =
  eb_queues :: "nat \<Rightarrow> host_event list"
  eb_subscribers :: "nat list"
  eb_closed :: bool
  eb_next :: nat

definition new_broker :: event_broker where
  "new_broker = \<lparr>eb_queues = (\<lambda>_. []), eb_subscribers = [], eb_closed = False, eb_next = 0\<rparr>"

definition publish :: "host_event \<Rightarrow> event_broker \<Rightarrow> event_broker" where
  "publish e b =
     (if eb_closed b then b
      else fold (\<lambda>i b. b\<lparr>eb_queues :=
             (eb_queues b)(i := offer (put_nowait QUEUE_MAXSIZE) get_nowait e (eb_queues b i))\<rparr>)
           (eb_subscribers b) b)"

text \<open>\<open>subscribe\<close> up to its first await: a new queue is appended to the subscribers.\<close>

definition subscribe :: "event_broker \<Rightarrow> nat \<times> event_broker" where
  "subscribe b =
     (let i = eb_next b in
      (i, b\<lparr>eb_queues := (eb_queues b)(i := []), eb_subscribers := eb_subscribers b @ [i],
            eb_next := Suc i\<rparr>))"

text \<open>One turn of the generator: \<open>None\<close> while the queue is empty (the consumer waits).\<close>

definition next_event :: "nat \<Rightarrow> event_broker \<Rightarrow> (host_event \<times> event_broker) option" where
  "next_event i b =
     (case get_nowait (eb_queues b i) of
        None \<Rightarrow> None
      | Some (e, q) \<Rightarrow> Some (e, b\<lparr>eb_queues := (eb_queues b)(i := q)\<rparr>))"

text \<open>The \<open>finally\<close> clause; removing an absent queue is suppressed.\<close>

definition unsubscribe :: "nat \<Rightarrow> event_broker \<Rightarrow> event_broker" where
  "unsubscribe i b = b\<lparr>eb_subscribers := remove1 i (eb_subscribers b)\<rparr>"

definition close_broker :: "event_broker \<Rightarrow> event_broker" where
  "close_broker b = b\<lparr>eb_closed := True, eb_subscribers := []\<rparr>"

definition subscriber_count :: "event_broker \<Rightarrow> nat" where
  "subscriber_count b = length (eb_subscribers b)"

subsection \<open>Delivery\<close>

definition broker_ok :: "event_broker \<Rightarrow> bool" where
  "broker_ok b \<longleftrightarrow> distinct (eb_subscribers b) \<and> (\<forall>i \<in> set (eb_subscribers b). i < eb_next b)
     \<and> (\<forall>i. length (eb_queues b i) \<le> QUEUE_MAXSIZE)"

lemma publish_queues:
  assumes "distinct (eb_subscribers b)" "\<not> eb_closed b"
  shows "eb_queues (publish e b) = (\<lambda>i. if i \<in> set (eb_subscribers b)
           then offer (put_nowait QUEUE_MAXSIZE) get_nowait e (eb_queues b i) else eb_queues b i)"
proof -
  let ?f = "\<lambda>i b. b\<lparr>eb_queues :=
             (eb_queues b)(i := offer (put_nowait QUEUE_MAXSIZE) get_nowait e (eb_queues b i))\<rparr>"
  have "distinct is \<Longrightarrow> eb_queues (fold ?f is b) = (\<lambda>i. if i \<in> set is
           then offer (put_nowait QUEUE_MAXSIZE) get_nowait e (eb_queues b i) else eb_queues b i)"
    for "is" and b :: event_broker
    by (induction "is" arbitrary: b) auto
  with assms show ?thesis by (simp add: publish_def)
qed

lemma publish_frame [simp]:
  "eb_subscribers (publish e b) = eb_subscribers b"
  "eb_closed (publish e b) = eb_closed b"
  "eb_next (publish e b) = eb_next b"
proof -
  let ?f = "\<lambda>i b. b\<lparr>eb_queues :=
             (eb_queues b)(i := offer (put_nowait QUEUE_MAXSIZE) get_nowait e (eb_queues b i))\<rparr>"
  have "eb_subscribers (fold ?f is b) = eb_subscribers b \<and> eb_closed (fold ?f is b) = eb_closed b
      \<and> eb_next (fold ?f is b) = eb_next b" for "is" and b :: event_broker
    by (induction "is" arbitrary: b) auto
  then show "eb_subscribers (publish e b) = eb_subscribers b" "eb_closed (publish e b) = eb_closed b"
    "eb_next (publish e b) = eb_next b" by (simp_all add: publish_def)
qed

lemma publish_closed [simp]: "eb_closed b \<Longrightarrow> publish e b = b"
  by (simp add: publish_def)

lemma broker_ok_new [simp]: "broker_ok new_broker"
  by (simp add: broker_ok_def new_broker_def)

lemma broker_ok_publish: "broker_ok b \<Longrightarrow> broker_ok (publish e b)"
  by (cases "eb_closed b") (auto simp: broker_ok_def publish_queues event_queue.offer_bounded)

lemma broker_ok_subscribe: "broker_ok b \<Longrightarrow> broker_ok (snd (subscribe b))"
  by (auto simp: broker_ok_def subscribe_def Let_def less_Suc_eq)

lemma broker_ok_unsubscribe: "broker_ok b \<Longrightarrow> broker_ok (unsubscribe i b)"
  by (auto simp: broker_ok_def unsubscribe_def dest: set_remove1_subset [THEN subsetD])

lemma broker_ok_next_event: "broker_ok b \<Longrightarrow> next_event i b = Some (e, b') \<Longrightarrow> broker_ok b'"
  by (auto simp: broker_ok_def next_event_def get_nowait_def le_Suc_eq split: option.splits list.splits)
    (metis Suc_leD length_Cons)

lemma broker_ok_close: "broker_ok b \<Longrightarrow> broker_ok (close_broker b)"
  by (simp add: broker_ok_def close_broker_def)

lemma publishes_queue:
  "broker_ok b \<Longrightarrow> \<not> eb_closed b \<Longrightarrow>
   eb_queues (fold publish es b) i = (if i \<in> set (eb_subscribers b)
     then fold (offer (put_nowait QUEUE_MAXSIZE) get_nowait) es (eb_queues b i) else eb_queues b i)"
proof (induction es arbitrary: b)
  case (Cons e es)
  then show ?case
    using Cons.IH [OF broker_ok_publish [OF Cons.prems(1)]]
    by (simp add: publish_queues broker_ok_def)
qed simp

text \<open>Whatever is published to an open broker, every subscriber's queue holds the most recent
  events, up to 100, in the order in which they were published after what it held before; who has
  not subscribed gets nothing.\<close>
theorem publish_delivers_latest:
  assumes "broker_ok b" and "\<not> eb_closed b"
  shows "eb_queues (fold publish es b) i =
     (if i \<in> set (eb_subscribers b)
      then drop (length (eb_queues b i) + length es - 100) (eb_queues b i @ es)
      else eb_queues b i)"
proof -
  have "length (eb_queues b i) \<le> QUEUE_MAXSIZE" using assms(1) by (simp add: broker_ok_def)
  from event_queue.offers_contents [OF this, of es] show ?thesis
    by (simp add: publishes_queue [OF assms] QUEUE_MAXSIZE_def)
qed

text \<open>Closing the broker stops every delivery, but, against its documentation, not new
  subscriptions: one made after the close is registered and waits for ever.\<close>
theorem subscribe_after_close:
  assumes "eb_closed b" and "subscribe b = (i, b')"
  shows "i \<in> set (eb_subscribers b') \<and> next_event i (fold publish es b') = None"
proof -
  have b': "eb_closed b'" "eb_queues b' i = []" "i \<in> set (eb_subscribers b')"
    using assms by (auto simp: subscribe_def Let_def)
  have "fold publish es b' = b'" using b'(1) by (induction es) simp_all
  with b' show ?thesis by (simp add: next_event_def get_nowait_def)
qed

definition sample_event :: "int \<Rightarrow> host_event" where
  "sample_event i = \<lparr>ev_event = ''host.status'', ev_host_id = i, ev_hostname = ''pc'', ev_old = IDLE,
     ev_new = IN_USE, ev_reason = ''heartbeat'', ev_ts = 0\<rparr>"

theorem publish_delivers_latest_witness:
  "eb_queues (fold publish (map sample_event [1..120]) (snd (subscribe new_broker))) 0
     = map sample_event [21..120]"
proof -
  have "broker_ok (snd (subscribe new_broker))" "\<not> eb_closed (snd (subscribe new_broker))"
    "eb_queues (snd (subscribe new_broker)) 0 = []" "0 \<in> set (eb_subscribers (snd (subscribe new_broker)))"
    by (simp_all add: broker_ok_subscribe) (simp_all add: subscribe_def new_broker_def)
  then have "eb_queues (fold publish (map sample_event [1..120]) (snd (subscribe new_broker))) 0
     = drop 20 (map sample_event [1..120])"
    using publish_delivers_latest [of "snd (subscribe new_broker)" "map sample_event [1..120]" 0] by simp
  also have "\<dots> = map sample_event [21..120]"
    unfolding drop_map by (rule arg_cong [of _ _ "map sample_event"]) code_simp
  finally show ?thesis .
qed

theorem subscribe_after_close_witness:
  "next_event 0 (fold publish [sample_event 1] (snd (subscribe (close_broker new_broker)))) = None"
  using subscribe_after_close [of "close_broker new_broker" 0 "snd (subscribe (close_broker new_broker))"
      "[sample_event 1]"]
  by (simp add: close_broker_def new_broker_def subscribe_def)

end
