(* ===== verification/Host_Status.thy ===== *)
theory Host_Status
  imports Event_Broker Reservation_Facts
begin

text \<open>
  \<open>services/host_status.py\<close>, \<open>services/host_status_monitor.py\<close> and the host gauges of
  \<open>core/metrics.py\<close>: the evaluation of a host's status from its last heartbeat, the transition
  with its audit entry and event, the background task that takes silent hosts offline, and the
  gauges of the metrics endpoint.
\<close>

subsection \<open>Evaluation and transition\<close>

definition evaluate_host_status ::
  "settings \<Rightarrow> instant \<Rightarrow> instant option \<Rightarrow> bool \<Rightarrow> bool \<Rightarrow> rat option \<Rightarrow> rat option \<Rightarrow> host_status" where
  "evaluate_host_status cfg now last_heartbeat_at has_active_reservation sunshine_running cpu_pct mem_pct =
     (case last_heartbeat_at of
        None \<Rightarrow> OFFLINE
      | Some hb \<Rightarrow>
          if now - hb > host_offline_after_seconds cfg * sec_us then OFFLINE
          else if has_active_reservation then (if sunshine_running then IN_USE else DEGRADED)
          else if (case cpu_pct of None \<Rightarrow> False | Some p \<Rightarrow> p \<ge> host_degraded_cpu_pct cfg) then DEGRADED
          else if (case mem_pct of None \<Rightarrow> False | Some p \<Rightarrow> p \<ge> host_degraded_mem_pct cfg) then DEGRADED
          else IDLE)"

definition transition_host ::
  "host \<Rightarrow> host_status \<Rightarrow> string \<Rightarrow> event_broker option \<Rightarrow> instant \<Rightarrow> db \<Rightarrow>
     bool \<times> db \<times> event_broker option" where
  "transition_host h new reason broker now d =
     (if h_status h = new then (False, d, broker)
      else
        (True,
         write_audit ''host_status_change'' None ActorSystem (Some ''host'') (Some (h_id h)) AuditSuccess
           [(''old'', JStr (host_status_name (h_status h))), (''new'', JStr (host_status_name new)),
            (''reason'', JStr reason)] None None
           (save_host (h\<lparr>h_status := new\<rparr>) d),
         map_option (publish \<lparr>ev_event = ''host.status'', ev_host_id = h_id h, ev_hostname = h_hostname h,
             ev_old = h_status h, ev_new = new, ev_reason = reason, ev_ts = now\<rparr>) broker))"

subsection \<open>The monitor\<close>

definition tick_rows :: "settings \<Rightarrow> instant \<Rightarrow> db \<Rightarrow> host list" where
  "tick_rows cfg current d =
     (let cutoff = current - host_offline_after_seconds cfg * sec_us in
      filter (\<lambda>h. h_status h \<noteq> OFFLINE
        \<and> (case h_last_heartbeat_at h of None \<Rightarrow> True | Some t \<Rightarrow> t < cutoff)) (db_hosts d))"

fun tick_hosts ::
  "instant \<Rightarrow> host list \<Rightarrow> nat \<Rightarrow> db \<Rightarrow> event_broker option \<Rightarrow> nat \<times> db \<times> event_broker option" where
  "tick_hosts current [] transitioned d b = (transitioned, d, b)"
| "tick_hosts current (h # hs) transitioned d b =
     (case transition_host h OFFLINE ''heartbeat_stale'' b current d of
        (changed, d', b') \<Rightarrow>
          tick_hosts current hs (if changed then transitioned + 1 else transitioned) d' b')"

definition run_one_tick ::
  "settings \<Rightarrow> instant \<Rightarrow> db \<Rightarrow> event_broker option \<Rightarrow> nat \<times> db \<times> event_broker option" where
  "run_one_tick cfg current d b = tick_hosts current (tick_rows cfg current d) 0 d b"

text \<open>The loop, over the ticks that happen before the stop event is set.  A tick may fail in the
  query, with no effect, or in the commit, when the events are out and the rows are rolled back;
  the failure is logged and the loop goes on.\<close>

datatype tick_fault = NoFault | QueryFails | CommitFails

fun run_monitor_loop ::
  "settings \<Rightarrow> (instant \<times> tick_fault) list \<Rightarrow> db \<Rightarrow> event_broker \<Rightarrow> db \<times> event_broker" where
  "run_monitor_loop cfg [] d b = (d, b)"
| "run_monitor_loop cfg ((now, fault) # ticks) d b =
     (case run_one_tick cfg now d (Some b) of
        (count, d', b') \<Rightarrow>
          (case fault of
             NoFault \<Rightarrow> run_monitor_loop cfg ticks d' (the b')
           | QueryFails \<Rightarrow> run_monitor_loop cfg ticks d b
           | CommitFails \<Rightarrow>
               (if count > 0 then run_monitor_loop cfg ticks d (the b')
                else run_monitor_loop cfg ticks d' (the b'))))"

subsection \<open>Gauges\<close>

record metrics =
  m_token_issued :: "string \<Rightarrow> nat"
  m_cpu :: "string \<Rightarrow> rat option"
  m_mem :: "string \<Rightarrow> rat option"
  m_gpu :: "string \<Rightarrow> rat option"
  m_status_info :: "string \<times> host_status \<Rightarrow> rat option"

definition empty_metrics :: metrics where
  "empty_metrics = \<lparr>m_token_issued = (\<lambda>_. 0), m_cpu = (\<lambda>_. None), m_mem = (\<lambda>_. None),
     m_gpu = (\<lambda>_. None), m_status_info = (\<lambda>_. None)\<rparr>"

definition set_host_status_indicator :: "string \<Rightarrow> host_status \<Rightarrow> metrics \<Rightarrow> metrics" where
  "set_host_status_indicator hostname st m =
     fold (\<lambda>s m. m\<lparr>m_status_info := (m_status_info m)((hostname, s) := Some (if s = st then 1 else 0))\<rparr>)
       [OFFLINE, IDLE, IN_USE, DEGRADED] m"

definition clear_host_metrics :: "string \<Rightarrow> metrics \<Rightarrow> metrics" where
  "clear_host_metrics hostname m =
     m\<lparr>m_cpu := (m_cpu m)(hostname := None), m_mem := (m_mem m)(hostname := None),
       m_gpu := (m_gpu m)(hostname := None)\<rparr>"

subsection \<open>Transitions keep the tables well-formed\<close>

lemma transition_host_frame:
  assumes "transition_host h new reason b now d = (c, d', b')"
  shows "db_users d' = db_users d" "db_reservations d' = db_reservations d" "db_tokens d' = db_tokens d"
    "map h_id (db_hosts d') = map h_id (db_hosts d)" "c \<longleftrightarrow> h_status h \<noteq> new"
    "b' = None \<longleftrightarrow> b = None"
  using assms by (auto simp: transition_host_def split: if_splits)

lemma transition_host_get:
  assumes "transition_host h new reason b now d = (c, d', b')" "get_host d (h_id h) = Some h"
  shows "get_host d' i = (if i = h_id h then Some (h\<lparr>h_status := new\<rparr>) else get_host d i)"
  using assms by (auto simp: transition_host_def get_host_save_host split: if_splits)

lemma wf_transition_host [wf_intros]:
  assumes "transition_host h new reason b now d = (c, d', b')" "get_host d (h_id h) = Some h" "wf_db d"
  shows "wf_db d'"
  using assms by (auto simp: transition_host_def split: if_splits intro!: wf_write_audit wf_save_host)

lemma tick_rows_get: "wf_db d \<Longrightarrow> h \<in> set (tick_rows cfg now d) \<Longrightarrow> get_host d (h_id h) = Some h"
  by (auto simp: tick_rows_def Let_def get_host_def wf_db_def hosts_wf_def fetch_Some_iff)

definition offline_row :: "settings \<Rightarrow> instant \<Rightarrow> host \<Rightarrow> bool" where
  "offline_row cfg now h \<longleftrightarrow> h_status h \<noteq> OFFLINE
     \<and> (case h_last_heartbeat_at h of None \<Rightarrow> True
        | Some t \<Rightarrow> t < now - host_offline_after_seconds cfg * sec_us)"

lemma tick_rows_eq: "tick_rows cfg now d = filter (offline_row cfg now) (db_hosts d)"
  by (simp add: tick_rows_def offline_row_def [abs_def] Let_def)

text \<open>The rows of a tick are visited one by one; a row that is still to be visited is unchanged.\<close>

lemma tick_hosts_spec:
  assumes "distinct (map h_id hs)" "\<forall>h \<in> set hs. get_host d (h_id h) = Some h \<and> h_status h \<noteq> OFFLINE"
    "wf_db d" "tick_hosts now hs n d b = (n', d', b')"
  shows "n' = n + length hs" "wf_db d'"
    "\<forall>i. get_host d' i = (if i \<in> h_id ` set hs then map_option (\<lambda>h. h\<lparr>h_status := OFFLINE\<rparr>) (get_host d i)
                       else get_host d i)"
    "db_users d' = db_users d \<and> db_reservations d' = db_reservations d \<and> db_tokens d' = db_tokens d
     \<and> map h_id (db_hosts d') = map h_id (db_hosts d) \<and> (b' = None \<longleftrightarrow> b = None)"
proof -
  have "n' = n + length hs \<and> wf_db d' \<and>
    (\<forall>i. get_host d' i = (if i \<in> h_id ` set hs then map_option (\<lambda>h. h\<lparr>h_status := OFFLINE\<rparr>) (get_host d i)
                       else get_host d i)) \<and>
    db_users d' = db_users d \<and> db_reservations d' = db_reservations d \<and> db_tokens d' = db_tokens d
     \<and> map h_id (db_hosts d') = map h_id (db_hosts d) \<and> (b' = None \<longleftrightarrow> b = None)"
    using assms
  proof (induction hs arbitrary: n d b)
    case (Cons h hs)
    obtain c d1 b1 where t: "transition_host h OFFLINE ''heartbeat_stale'' b now d = (c, d1, b1)"
      by (cases "transition_host h OFFLINE ''heartbeat_stale'' b now d") auto
    have h: "get_host d (h_id h) = Some h" "h_status h \<noteq> OFFLINE" using Cons.prems(2) by simp_all
    note F = transition_host_frame [OF t] and G = transition_host_get [OF t h(1)]
    have "\<forall>q \<in> set hs. get_host d1 (h_id q) = Some q \<and> h_status q \<noteq> OFFLINE"
      using Cons.prems(1,2) G by (auto simp: image_iff)
    moreover have "tick_hosts now hs (n + 1) d1 b1 = (n', d', b')"
      using Cons.prems(4) t F(5) h(2) by simp
    ultimately have IH: "n' = n + 1 + length hs \<and> wf_db d' \<and>
      (\<forall>i. get_host d' i = (if i \<in> h_id ` set hs then map_option (\<lambda>h. h\<lparr>h_status := OFFLINE\<rparr>) (get_host d1 i)
                       else get_host d1 i)) \<and>
      db_users d' = db_users d1 \<and> db_reservations d' = db_reservations d1 \<and> db_tokens d' = db_tokens d1
       \<and> map h_id (db_hosts d') = map h_id (db_hosts d1) \<and> (b' = None \<longleftrightarrow> b1 = None)"
      using Cons.IH [of d1 "n + 1" b1] Cons.prems(1) wf_transition_host [OF t h(1) Cons.prems(3)]
      by simp
    have "h_id h \<notin> h_id ` set hs" using Cons.prems(1) by simp
    with IH F G h(1) show ?case by auto
  qed simp
  then show "n' = n + length hs" "wf_db d'"
    "\<forall>i. get_host d' i = (if i \<in> h_id ` set hs then map_option (\<lambda>h. h\<lparr>h_status := OFFLINE\<rparr>) (get_host d i)
                       else get_host d i)"
    "db_users d' = db_users d \<and> db_reservations d' = db_reservations d \<and> db_tokens d' = db_tokens d
     \<and> map h_id (db_hosts d') = map h_id (db_hosts d) \<and> (b' = None \<longleftrightarrow> b = None)"
    by blast+
qed

subsection \<open>The monitor agrees with the evaluation\<close>

lemma evaluate_OFFLINE_iff:
  "evaluate_host_status cfg now hb act sun cpu mem = OFFLINE \<longleftrightarrow>
     (case hb of None \<Rightarrow> True | Some t \<Rightarrow> t < now - host_offline_after_seconds cfg * sec_us)"
  by (auto simp: evaluate_host_status_def split: option.split)

lemma offline_row_evaluate:
  "offline_row cfg now h \<longleftrightarrow> h_status h \<noteq> OFFLINE
     \<and> evaluate_host_status cfg now (h_last_heartbeat_at h) act sun cpu mem = OFFLINE"
  by (simp add: offline_row_def evaluate_OFFLINE_iff)

lemma tick_spec:
  assumes "wf_db d" "run_one_tick cfg now d b = (n, d', b')"
  shows "wf_db d'" "n = count_where (offline_row cfg now) (db_hosts d)"
    "get_host d' i = map_option (\<lambda>h. if offline_row cfg now h then h\<lparr>h_status := OFFLINE\<rparr> else h) (get_host d i)"
    "db_users d' = db_users d \<and> db_reservations d' = db_reservations d \<and> db_tokens d' = db_tokens d
     \<and> map h_id (db_hosts d') = map h_id (db_hosts d) \<and> (b' = None \<longleftrightarrow> b = None)"
proof -
  let ?hs = "tick_rows cfg now d"
  have ids: "distinct (map h_id (db_hosts d))" using assms(1) by (simp add: wf_db_def hosts_wf_def)
  then have "distinct (map h_id ?hs)" by (simp add: tick_rows_eq distinct_map_filter)
  moreover have "\<forall>h \<in> set ?hs. get_host d (h_id h) = Some h \<and> h_status h \<noteq> OFFLINE"
    using tick_rows_get [OF assms(1)] by (auto simp: tick_rows_eq offline_row_def)
  moreover have "tick_hosts now ?hs 0 d b = (n, d', b')" using assms(2) by (simp add: run_one_tick_def)
  ultimately have spec: "n = 0 + length ?hs" "wf_db d'"
    "\<forall>i. get_host d' i = (if i \<in> h_id ` set ?hs then map_option (\<lambda>h. h\<lparr>h_status := OFFLINE\<rparr>) (get_host d i)
                       else get_host d i)"
    "db_users d' = db_users d \<and> db_reservations d' = db_reservations d \<and> db_tokens d' = db_tokens d
     \<and> map h_id (db_hosts d') = map h_id (db_hosts d) \<and> (b' = None \<longleftrightarrow> b = None)"
    by (rule tick_hosts_spec [OF _ _ assms(1)]; assumption)+
  show "wf_db d'" by (rule spec(2))
  show "n = count_where (offline_row cfg now) (db_hosts d)"
    using spec(1) by (simp add: tick_rows_eq count_where_def)
  show "db_users d' = db_users d \<and> db_reservations d' = db_reservations d \<and> db_tokens d' = db_tokens d
     \<and> map h_id (db_hosts d') = map h_id (db_hosts d) \<and> (b' = None \<longleftrightarrow> b = None)"
    by (rule spec(4))
  have "i \<in> h_id ` set ?hs \<longleftrightarrow> offline_row cfg now h" if "get_host d i = Some h" for h
  proof -
    have "h \<in> set (db_hosts d)" "h_id h = i" using get_hostD [OF that] by auto
    moreover from this have "q \<in> set (db_hosts d) \<Longrightarrow> h_id q = i \<Longrightarrow> q = h" for q
      using ids by (auto simp: distinct_map inj_on_def)
    ultimately show ?thesis unfolding tick_rows_eq image_iff set_filter by blast
  qed
  then show "get_host d' i =
      map_option (\<lambda>h. if offline_row cfg now h then h\<lparr>h_status := OFFLINE\<rparr> else h) (get_host d i)"
    unfolding spec(3) [rule_format, of i] by (cases "get_host d i") simp_all
qed

lemma tick_no_offline_row:
  assumes "wf_db d" "run_one_tick cfg now d b = (n, d', b')" "h \<in> set (db_hosts d')"
  shows "\<not> offline_row cfg now h"
proof -
  note T = tick_spec [OF assms(1,2)]
  have "get_host d' (h_id h) = Some h"
    using T(1) assms(3) by (simp add: get_host_def wf_db_def hosts_wf_def fetch_Some_iff)
  then obtain h0 where "h = (if offline_row cfg now h0 then h0\<lparr>h_status := OFFLINE\<rparr> else h0)"
    using T(3) [of "h_id h"] by auto
  then show ?thesis by (cases "offline_row cfg now h0") (simp_all add: offline_row_def)
qed

text \<open>C24: One tick of the monitor sets a host to offline exactly when the pure evaluation, on
  whatever load and session the host last reported, says offline; it changes no other host, it
  counts the hosts it changed, and a second tick at the same time changes nothing.\<close>
theorem tick_agrees_with_evaluation:
  assumes "wf_db d" and "run_one_tick cfg now d b = (n, d', b')"
  shows "get_host d' i = map_option (\<lambda>h.
            if evaluate_host_status cfg now (h_last_heartbeat_at h) act sun cpu mem = OFFLINE
            then h\<lparr>h_status := OFFLINE\<rparr> else h) (get_host d i)
     \<and> n = count_where (\<lambda>h. h_status h \<noteq> OFFLINE
         \<and> evaluate_host_status cfg now (h_last_heartbeat_at h) act sun cpu mem = OFFLINE) (db_hosts d)
     \<and> run_one_tick cfg now d' b' = (0, d', b')"
proof (intro conjI)
  note T = tick_spec [OF assms]
  have "h\<lparr>h_status := OFFLINE\<rparr> = h" if "h_status h = OFFLINE" for h :: host
    using that by (cases h) simp
  then show "get_host d' i = map_option (\<lambda>h.
            if evaluate_host_status cfg now (h_last_heartbeat_at h) act sun cpu mem = OFFLINE
            then h\<lparr>h_status := OFFLINE\<rparr> else h) (get_host d i)"
    unfolding T(3) offline_row_evaluate [of cfg now _ act sun cpu mem]
    by (cases "get_host d i") auto
  show "n = count_where (\<lambda>h. h_status h \<noteq> OFFLINE
         \<and> evaluate_host_status cfg now (h_last_heartbeat_at h) act sun cpu mem = OFFLINE) (db_hosts d)"
    using T(2) by (simp add: offline_row_evaluate [of cfg now _ act sun cpu mem, abs_def])
  have "\<forall>h' \<in> set (db_hosts d'). \<not> offline_row cfg now h'"
    using tick_no_offline_row [OF assms] by blast
  then show "run_one_tick cfg now d' b' = (0, d', b')"
    by (simp add: run_one_tick_def tick_rows_eq filter_False)
qed

lemma monitor_loop_wf:
  "wf_db d \<Longrightarrow> run_monitor_loop cfg ticks d b = (d', b') \<Longrightarrow> wf_db d'"
proof (induction ticks arbitrary: d b)
  case (Cons tick ticks)
  obtain now fault where tick: "tick = (now, fault)" by (cases tick)
  obtain n d1 b1 where t: "run_one_tick cfg now d (Some b) = (n, d1, b1)"
    by (cases "run_one_tick cfg now d (Some b)") auto
  show ?case
    using Cons.prems Cons.IH tick_spec(1) [OF Cons.prems(1) t]
    by (cases fault) (auto simp: tick t split: if_splits)
qed simp

lemma monitor_loop_append:
  "run_monitor_loop cfg (ts @ ts') d b =
     (case run_monitor_loop cfg ts d b of (d', b') \<Rightarrow> run_monitor_loop cfg ts' d' b')"
  by (induction ts arbitrary: d b) (auto split: prod.splits tick_fault.splits)

text \<open>Whatever went wrong in earlier ticks, after a tick that succeeds no host that the
  evaluation calls silent is left with another status than offline.\<close>
theorem monitor_recovers:
  assumes "wf_db d" and "run_monitor_loop cfg (ticks @ [(now, NoFault)]) d b = (d', b')"
    and "h \<in> set (db_hosts d')"
    and "evaluate_host_status cfg now (h_last_heartbeat_at h) act sun cpu mem = OFFLINE"
  shows "h_status h = OFFLINE"
proof -
  obtain d1 b1 where l: "run_monitor_loop cfg ticks d b = (d1, b1)"
    by (cases "run_monitor_loop cfg ticks d b")
  obtain n d2 b2 where t: "run_one_tick cfg now d1 (Some b1) = (n, d2, b2)"
    by (cases "run_one_tick cfg now d1 (Some b1)") auto
  have d': "d' = d2" using assms(2) by (simp add: monitor_loop_append l t)
  have "\<not> offline_row cfg now h"
    using tick_no_offline_row [OF monitor_loop_wf [OF assms(1) l] t] assms(3) by (simp add: d')
  then show ?thesis using assms(4) by (simp add: offline_row_evaluate [of _ _ _ act sun cpu mem])
qed

theorem tick_agrees_with_evaluation_witness:
  "case run_one_tick default_settings (100 * sec_us) sample_db None of
     (n, d', b') \<Rightarrow> n = 1 \<and> map_option h_status (get_host d' 7) = Some OFFLINE
       \<and> run_one_tick default_settings (100 * sec_us) d' b' = (0, d', b')"
proof -
  obtain n d' b' where t: "run_one_tick default_settings (100 * sec_us) sample_db None = (n, d', b')"
    by (cases "run_one_tick default_settings (100 * sec_us) sample_db None") auto
  note T = tick_agrees_with_evaluation [OF wf_sample_db t, where act = False and sun = False
      and cpu = None and mem = None]
  have "count_where (\<lambda>h. h_status h \<noteq> OFFLINE \<and> evaluate_host_status default_settings (100 * sec_us)
      (h_last_heartbeat_at h) False False None None = OFFLINE) (db_hosts sample_db) = 1"
    by code_simp
  moreover have "map_option h_status (map_option (\<lambda>h. if evaluate_host_status default_settings (100 * sec_us)
      (h_last_heartbeat_at h) False False None None = OFFLINE then h\<lparr>h_status := OFFLINE\<rparr> else h)
      (get_host sample_db 7)) = Some OFFLINE"
    by code_simp
  ultimately show ?thesis
    unfolding t prod.case using T by presburger
qed

theorem monitor_recovers_witness:
  "list_all (\<lambda>h. h_status h = OFFLINE) (db_hosts (fst (run_monitor_loop default_settings
      ([(100 * sec_us, CommitFails)] @ [(160 * sec_us, NoFault)]) sample_db new_broker)))"
  unfolding list_all_iff
proof
  let ?r = "run_monitor_loop default_settings
      ([(100 * sec_us, CommitFails)] @ [(160 * sec_us, NoFault)]) sample_db new_broker"
  fix h assume h: "h \<in> set (db_hosts (fst ?r))"
  have "\<forall>h \<in> set (db_hosts (fst ?r)). evaluate_host_status default_settings (160 * sec_us)
      (h_last_heartbeat_at h) False False None None = OFFLINE"
    by code_simp
  with h show "h_status h = OFFLINE"
    using monitor_recovers [OF wf_sample_db prod.collapse [symmetric] h] by blast
qed

end
