(* ===== verification/Web.thy ===== *)
theory Web
  imports Connect_Facts Host_Status
begin

text \<open>
  What every route shares: the state a request acts on (tables, event broker, gauges), the
  middleware that turns a session cookie into a user (\<open>core/middleware.py\<close>), the dependencies
  that demand a user, an administrator, an internal caller or an agent (\<open>api/deps.py\<close>) and the
  answer to an unauthenticated request (\<open>core/auth_responses.py\<close>).

  A route is a function of the state that returns its answer or an exception, and the new state.
  When it raises, the transaction is rolled back: the tables are those it started from, or those it
  committed before.
\<close>

record world =
  w_db :: db
  w_broker :: event_broker
  w_metrics :: metrics

type_synonym 'a answer = "(app_error + 'a) \<times> world"

record request =
  rq_path :: string
  rq_accept :: string
  rq_cookie :: "string option"
  rq_authorization :: string
  rq_internal_token :: string
  rq_request_id :: "string option"
  rq_client_ip :: "string option"

subsection \<open>Strings\<close>

definition lower_char :: "char \<Rightarrow> char" where
  "lower_char c =
     (let n = (of_char c :: nat) in
      if 65 \<le> n \<and> n \<le> 90 \<or> 192 \<le> n \<and> n \<le> 222 \<and> n \<noteq> 215 then char_of (n + 32) else c)"

definition is_space :: "char \<Rightarrow> bool" where
  "is_space c \<longleftrightarrow> (of_char c :: nat) \<in> {9, 10, 11, 12, 13, 28, 29, 30, 31, 32, 133, 160}"

definition strip :: "string \<Rightarrow> string" where
  "strip s = rev (dropWhile is_space (rev (dropWhile is_space s)))"

definition starts_with :: "string \<Rightarrow> string \<Rightarrow> bool" where
  "starts_with p s \<longleftrightarrow> take (length p) s = p"

definition is_ascii :: "string \<Rightarrow> bool" where
  "is_ascii s \<longleftrightarrow> (\<forall>c \<in> set s. (of_char c :: nat) < 128)"

subsection \<open>Middleware\<close>

text \<open>\<open>AuthSessionMiddleware\<close>: identification only.\<close>

definition session_user :: "(string \<Rightarrow> string) \<Rightarrow> instant \<Rightarrow> request \<Rightarrow> db \<Rightarrow> user option" where
  "session_user sha now rq d =
     (case rq_cookie rq of
        None \<Rightarrow> None
      | Some raw \<Rightarrow> if raw = '''' then None else verify_session sha now raw d)"

text \<open>\<open>RequestIdMiddleware\<close>: the identifier of the response header; \<open>fresh\<close> is \<open>uuid4().hex\<close>.\<close>

definition response_request_id :: "string \<Rightarrow> request \<Rightarrow> string" where
  "response_request_id fresh rq =
     (case rq_request_id rq of Some r \<Rightarrow> if r = '''' then fresh else r | None \<Rightarrow> fresh)"

subsection \<open>Dependencies\<close>

text \<open>\<open>get_active_provider(settings).initiate_login(request)\<close>: the mock provider has a form, the
  \<open>cnu_sso\<close> provider cannot be built yet (\<open>NotImplementedError\<close>, which the caller catches) and
  there is no provider for the third value of the setting.\<close>

datatype provider_error = NotImplemented | UnsupportedProvider

definition build_provider :: "auth_provider \<Rightarrow> provider_error + unit" where
  "build_provider p =
     (case p of Mock \<Rightarrow> Inr () | Cnu_sso \<Rightarrow> Inl NotImplemented | Cnu_mail_oauth \<Rightarrow> Inl UnsupportedProvider)"

definition get_current_user :: "settings \<Rightarrow> user option \<Rightarrow> app_error + user" where
  "get_current_user cfg state_user =
     (case state_user of
        Some usr \<Rightarrow> Inr usr
      | None \<Rightarrow>
          (case build_provider (auth_provider cfg) of
             Inr _ \<Rightarrow> Inl (Unauthenticated ''/api/v1/auth/mock/login'')
           | Inl NotImplemented \<Rightarrow> Inl (Unauthenticated (auth_login_path cfg))
           | Inl UnsupportedProvider \<Rightarrow> Inl RuntimeError))"

definition require_admin :: "settings \<Rightarrow> user option \<Rightarrow> app_error + user" where
  "require_admin cfg state_user =
     (case get_current_user cfg state_user of
        Inl err \<Rightarrow> Inl err
      | Inr usr \<Rightarrow>
          if u_role usr \<noteq> ''admin'' then Inl (HTTPException 403 (DetailText ''admin required'')) else Inr usr)"

text \<open>\<open>hmac.compare_digest\<close> on strings raises a \<open>TypeError\<close> when one is not ASCII.\<close>

definition compare_digest :: "string \<Rightarrow> string \<Rightarrow> app_error + bool" where
  "compare_digest a b = (if is_ascii a \<and> is_ascii b then Inr (a = b) else Inl TypeError)"

definition require_internal_token :: "settings \<Rightarrow> request \<Rightarrow> app_error + unit" where
  "require_internal_token cfg rq =
     (let provided = rq_internal_token rq;
          refused = Inl (HTTPException 401 (DetailDict [(''error'', JStr ''invalid_internal_token''),
                      (''message'', JStr '''')])) in
      case internal_api_token cfg of
        None \<Rightarrow> refused
      | Some expected \<Rightarrow>
          if expected = '''' \<or> provided = '''' then refused
          else (case compare_digest provided expected of
                  Inl err \<Rightarrow> Inl err
                | Inr eq \<Rightarrow> if eq then Inr () else refused))"

definition unauthorized :: "string \<Rightarrow> app_error" where
  "unauthorized code = HTTPException 401 (DetailDict [(''error'', JStr code), (''message'', JStr '''')])"

definition get_agent_host ::
  "(string \<Rightarrow> string) \<Rightarrow> instant \<Rightarrow> request \<Rightarrow> db \<Rightarrow> app_error + (host \<times> token)" where
  "get_agent_host sha now rq d =
     (let auth_header = rq_authorization rq in
      if \<not> starts_with ''bearer '' (map lower_char auth_header) then Inl (unauthorized ''missing_bearer'')
      else (case verify_agent_token sha now (strip (drop 7 auth_header)) d of
              None \<Rightarrow> Inl (unauthorized ''invalid_agent_token'')
            | Some tok \<Rightarrow>
                (case Option.bind (t_host_id tok) (get_host d) of
                   None \<Rightarrow> Inl (unauthorized ''host_missing'')
                 | Some h \<Rightarrow> Inr (h, tok))))"

subsection \<open>The answer to an unauthenticated request\<close>

datatype http_response = Redirect string | JsonError error_response

definition wants_html :: "request \<Rightarrow> bool" where
  "wants_html rq \<longleftrightarrow>
     (if starts_with ''/api/'' (rq_path rq) then False else contains_str ''text/html'' (rq_accept rq))"

definition unauthenticated_response :: "request \<Rightarrow> string \<Rightarrow> http_response" where
  "unauthenticated_response rq login_url =
     (if wants_html rq then Redirect login_url else JsonError (error_response_of (Unauthenticated login_url)))"

definition handle_error :: "request \<Rightarrow> app_error \<Rightarrow> http_response" where
  "handle_error rq err =
     (case err of
        Unauthenticated url \<Rightarrow> unauthenticated_response rq url
      | _ \<Rightarrow> JsonError (error_response_of err))"

subsection \<open>Who gets through\<close>

text \<open>A caller passes the internal guard exactly when a non-empty token is configured and the
  header equals it (in ASCII): without a configured token nobody passes.\<close>
theorem internal_guard_iff:
  "is_ok (require_internal_token cfg rq) \<longleftrightarrow>
     rq_internal_token rq \<noteq> '''' \<and> internal_api_token cfg = Some (rq_internal_token rq)
     \<and> is_ascii (rq_internal_token rq)"
  by (auto simp: require_internal_token_def compare_digest_def Let_def split: option.split sum.splits)

text \<open>The documentation promises that a refused internal caller always gets 401; a header with
  a character outside ASCII makes the comparison raise, and the caller gets 500.\<close>
theorem internal_guard_not_always_401:
  assumes "internal_api_token cfg = Some expected" and "expected \<noteq> ''''"
    and "\<not> is_ascii (rq_internal_token rq)"
  shows "\<exists>err. require_internal_token cfg rq = Inl err \<and> er_status (error_response_of err) = 500"
proof -
  have "rq_internal_token rq \<noteq> ''''" using assms(3) by (auto simp: is_ascii_def)
  with assms show ?thesis
    by (simp add: require_internal_token_def compare_digest_def Let_def error_response_of_def)
qed

lemma get_agent_host_Inr:
  assumes "get_agent_host sha now rq d = Inr (h, tok)"
  shows "h \<in> set (db_hosts d)" "get_host d (h_id h) = Some h" "t_host_id tok = Some (h_id h)"
    "verify_agent_token sha now (strip (drop 7 (rq_authorization rq))) d = Some tok"
  using assms by (auto simp: get_agent_host_def Let_def bind_eq_Some_conv dest: get_hostD
      split: if_splits option.splits)

definition sample_request :: "string \<Rightarrow> request" where
  "sample_request internal = \<lparr>rq_path = ''/api/v1/tokens/verify'', rq_accept = '''', rq_cookie = None,
     rq_authorization = '''', rq_internal_token = internal, rq_request_id = None, rq_client_ip = None\<rparr>"

theorem internal_guard_not_always_401_witness:
  "\<exists>err. require_internal_token (default_settings\<lparr>internal_api_token := Some ''secret''\<rparr>)
      (sample_request [char_of (233 :: nat)]) = Inl err \<and> er_status (error_response_of err) = 500"
  by (rule internal_guard_not_always_401 [of _ "''secret''"])
    (simp_all add: sample_request_def is_ascii_def)

end
