(* ===== verification/Calendar.thy ===== *)
theory Calendar
  imports Reservation_Facts
begin

text \<open>
  \<open>build_calendar_matrix\<close> of \<open>services/reservation.py\<close>: the grid of slots of one host or of
  all hosts over a window, each slot open or occupied.  The two while loops are
  \<open>partial_function\<close>s, so that a loop that does not stop (a slot length that is not positive) is
  the value \<open>None\<close>; with a positive slot length both are shown to return.  Dictionary keys and
  slot bounds are instants, by which aware datetimes compare.
\<close>

datatype slot_status = OPEN | OCCUPIED

record calendar_slot =
  cs_starts_at :: instant
  cs_ends_at :: instant
  cs_host_id :: int
  cs_reservation_id :: "int option"
  cs_user_id :: "int option"
  cs_status :: slot_status

record calendar_matrix =
  cm_from :: datetime
  cm_to :: datetime
  cm_slot_minutes :: int
  cm_slots :: "calendar_slot list"

type_synonym occupancy = "int \<times> instant \<Rightarrow> reservation option"

text \<open>\<open>while cursor < min(upper, to_): occupied[(res.host_id, cursor)] = res; cursor += delta\<close>\<close>

partial_function (option) occupy_slots ::
  "int \<Rightarrow> instant \<Rightarrow> reservation \<Rightarrow> instant \<Rightarrow> occupancy \<Rightarrow> occupancy option" where
  "occupy_slots delta limit res cursor occ =
     (if cursor < limit
      then occupy_slots delta limit res (cursor + delta) (occ((r_host_id res, cursor) \<mapsto> res))
      else Some occ)"

fun occupy_all ::
  "int \<Rightarrow> instant \<Rightarrow> instant \<Rightarrow> reservation list \<Rightarrow> occupancy \<Rightarrow> occupancy option" where
  "occupy_all delta from_at to_at [] occ = Some occ"
| "occupy_all delta from_at to_at (res # rest) occ =
     (case (range_lower (r_time_range res), range_upper (r_time_range res)) of
        (Some lower, Some upper) \<Rightarrow>
          (let cursor = max lower from_at;
               offset = (cursor - from_at) mod delta in
           Option.bind (occupy_slots delta (min upper to_at) res (cursor - offset) occ)
             (occupy_all delta from_at to_at rest))
      | _ \<Rightarrow> occupy_all delta from_at to_at rest occ)"

definition calendar_cell :: "user \<Rightarrow> occupancy \<Rightarrow> int \<Rightarrow> int \<Rightarrow> instant \<Rightarrow> calendar_slot" where
  "calendar_cell viewer occ delta hid cursor =
     (case occ (hid, cursor) of
        None \<Rightarrow>
          \<lparr>cs_starts_at = cursor, cs_ends_at = cursor + delta, cs_host_id = hid,
           cs_reservation_id = None, cs_user_id = None, cs_status = OPEN\<rparr>
      | Some cell \<Rightarrow>
          (let show_user = is_admin viewer \<or> r_user_id cell = u_id viewer in
           \<lparr>cs_starts_at = cursor, cs_ends_at = cursor + delta, cs_host_id = hid,
            cs_reservation_id = Some (r_id cell),
            cs_user_id = (if show_user then Some (r_user_id cell) else None),
            cs_status = OCCUPIED\<rparr>))"

partial_function (option) emit_slots ::
  "user \<Rightarrow> occupancy \<Rightarrow> int \<Rightarrow> instant \<Rightarrow> int \<Rightarrow> instant \<Rightarrow> calendar_slot list \<Rightarrow>
     calendar_slot list option" where
  "emit_slots viewer occ delta to_at hid cursor slots =
     (if cursor < to_at
      then emit_slots viewer occ delta to_at hid (cursor + delta)
             (slots @ [calendar_cell viewer occ delta hid cursor])
      else Some slots)"

fun emit_hosts ::
  "user \<Rightarrow> occupancy \<Rightarrow> int \<Rightarrow> instant \<Rightarrow> instant \<Rightarrow> int list \<Rightarrow> calendar_slot list \<Rightarrow>
     calendar_slot list option" where
  "emit_hosts viewer occ delta from_at to_at [] slots = Some slots"
| "emit_hosts viewer occ delta from_at to_at (hid # hids) slots =
     Option.bind (emit_slots viewer occ delta to_at hid from_at slots)
       (emit_hosts viewer occ delta from_at to_at hids)"

definition calendar_hosts :: "int option \<Rightarrow> db \<Rightarrow> int list" where
  "calendar_hosts hid d = (case hid of Some i \<Rightarrow> [i] | None \<Rightarrow> map h_id (db_hosts d))"

definition calendar_reservations :: "instant \<Rightarrow> instant \<Rightarrow> int option \<Rightarrow> db \<Rightarrow> reservation list" where
  "calendar_reservations from_at to_at hid d =
     filter (\<lambda>r. reservation_active (r_status r)
        \<and> range_overlaps (r_time_range r) (TimeRange from_at to_at)
        \<and> (case hid of None \<Rightarrow> True | Some i \<Rightarrow> r_host_id r = i)) (db_reservations d)"

text \<open>\<open>not A(from_) or not A(to_)\<close>, evaluated from the left.\<close>

definition both_aligned :: "datetime \<Rightarrow> datetime \<Rightarrow> int \<Rightarrow> app_error + bool" where
  "both_aligned a b slot_minutes =
     (case is_grid_aligned a slot_minutes of
        Inl err \<Rightarrow> Inl err
      | Inr False \<Rightarrow> Inr False
      | Inr True \<Rightarrow> is_grid_aligned b slot_minutes)"

text \<open>A filter is bound as the 64 bits of its column.\<close>

definition fits_filter :: "int option \<Rightarrow> bool" where
  "fits_filter x \<longleftrightarrow> (\<forall>i \<in> set_option x. in_bits 64 i)"

definition build_calendar_matrix ::
  "settings \<Rightarrow> datetime \<Rightarrow> datetime \<Rightarrow> int option \<Rightarrow> user \<Rightarrow> db \<Rightarrow>
     (app_error + calendar_matrix) option" where
  "build_calendar_matrix cfg from_dt to_dt hid viewer d =
     (let slot_minutes = reservation_slot_minutes cfg;
          delta = slot_minutes * min_us;
          from_at = instant_of from_dt; to_at = instant_of to_dt in
      if \<not> aware from_dt \<or> \<not> aware to_dt
        then Some (Inl (InvalidReservationWindow NaiveDatetime))
      else (case both_aligned from_dt to_dt slot_minutes of
        Inl err \<Rightarrow> Some (Inl err)
      | Inr False \<Rightarrow> Some (Inl (InvalidReservationWindow (Misaligned None slot_minutes)))
      | Inr True \<Rightarrow>
          if from_at \<ge> to_at then Some (Inl (InvalidReservationWindow (StartNotBeforeEnd None)))
          else if \<not> fits_filter hid then Some (Inl DataError)
          else Option.bind
            (occupy_all delta from_at to_at (calendar_reservations from_at to_at hid d) (\<lambda>_. None))
            (\<lambda>occ. Option.bind
               (emit_hosts viewer occ delta from_at to_at (calendar_hosts hid d) [])
               (\<lambda>slots. Some (Inr \<lparr>cm_from = from_dt, cm_to = to_dt,
                  cm_slot_minutes = slot_minutes, cm_slots = slots\<rparr>)))))"

subsection \<open>The loops return\<close>

definition on_grid :: "int \<Rightarrow> int \<Rightarrow> int \<Rightarrow> bool" where
  "on_grid delta c x \<longleftrightarrow> c \<le> x \<and> (x - c) mod delta = 0"

lemma on_grid_refl [simp]: "on_grid delta c c"
  by (simp add: on_grid_def)

lemma on_grid_step:
  assumes "0 < delta"
  shows "on_grid delta c x \<longleftrightarrow> x = c \<or> on_grid delta (c + delta) x"
proof -
  have "(x - (c + delta)) mod delta = (x - c) mod delta"
    using mod_add_self2 [of "x - (c + delta)" delta] by (simp add: algebra_simps)
  moreover have "c + delta \<le> x" if "c \<le> x" "(x - c) mod delta = 0" "x \<noteq> c"
    using that zdvd_imp_le [of delta "x - c"] by (auto simp: mod_eq_0_iff_dvd)
  ultimately show ?thesis using assms by (auto simp: on_grid_def)
qed

lemma occupy_slots_eq:
  assumes "0 < delta"
  shows "occupy_slots delta limit res cursor occ =
     Some (\<lambda>k. if fst k = r_host_id res \<and> on_grid delta cursor (snd k) \<and> snd k < limit
               then Some res else occ k)"
proof (induction "nat (limit - cursor)" arbitrary: cursor occ rule: less_induct)
  case less
  show ?case
  proof (cases "cursor < limit")
    case True
    then have "nat (limit - (cursor + delta)) < nat (limit - cursor)" using assms by simp
    note IH = less [OF this]
    show ?thesis
      unfolding occupy_slots.simps [of delta limit res cursor] IH using True
      by (auto simp: fun_eq_iff on_grid_step [OF assms, of cursor])
  next
    case False
    then show ?thesis
      by (auto simp: occupy_slots.simps [of delta limit res cursor] fun_eq_iff on_grid_def)
  qed
qed

definition slot_starts :: "instant \<Rightarrow> instant \<Rightarrow> int \<Rightarrow> instant list" where
  "slot_starts cursor to_at delta =
     map (\<lambda>i. cursor + int i * delta) [0 ..< nat ((to_at - cursor + delta - 1) div delta)]"

lemma slot_starts_step:
  assumes "0 < delta"
  shows "slot_starts cursor to_at delta
    = (if cursor < to_at then cursor # slot_starts (cursor + delta) to_at delta else [])"
proof (cases "cursor < to_at")
  case True
  have "(to_at - cursor + delta - 1) div delta = (to_at - (cursor + delta) + delta - 1) div delta + 1"
    using assms div_add_self2 [of delta "to_at - (cursor + delta) + delta - 1"] by (simp add: algebra_simps)
  moreover have "0 \<le> (to_at - (cursor + delta) + delta - 1) div delta"
    using True assms by (simp add: pos_imp_zdiv_nonneg_iff)
  ultimately have "nat ((to_at - cursor + delta - 1) div delta)
      = Suc (nat ((to_at - (cursor + delta) + delta - 1) div delta))" by simp
  then show ?thesis
    using True by (simp only: slot_starts_def upt_rec [of 0 "Suc _"] map_Suc_upt [symmetric])
      (simp add: algebra_simps)
next
  case False
  then have "(to_at - cursor + delta - 1) div delta \<le> (delta - 1) div delta"
    using assms by (intro zdiv_mono1) simp_all
  also have "(delta - 1) div delta = 0" using assms by (intro div_pos_pos_trivial) simp_all
  finally show ?thesis using False by (simp add: slot_starts_def)
qed

lemma emit_slots_eq:
  assumes "0 < delta"
  shows "emit_slots viewer occ delta to_at hid cursor slots =
     Some (slots @ map (calendar_cell viewer occ delta hid) (slot_starts cursor to_at delta))"
proof (induction "nat (to_at - cursor)" arbitrary: cursor slots rule: less_induct)
  case less
  show ?case
  proof (cases "cursor < to_at")
    case True
    then have "nat (to_at - (cursor + delta)) < nat (to_at - cursor)" using assms by simp
    note IH = less [OF this]
    show ?thesis
      unfolding emit_slots.simps [of viewer occ delta to_at hid cursor] IH
      using True by (simp add: slot_starts_step [OF assms, of cursor])
  next
    case False
    then show ?thesis
      by (simp add: emit_slots.simps [of viewer occ delta to_at hid cursor]
          slot_starts_step [OF assms, of cursor])
  qed
qed

lemma emit_hosts_eq:
  assumes "0 < delta"
  shows "emit_hosts viewer occ delta from_at to_at hids slots =
     Some (slots @ concat (map (\<lambda>h. map (calendar_cell viewer occ delta h)
       (slot_starts from_at to_at delta)) hids))"
  by (induction hids arbitrary: slots) (simp_all add: emit_slots_eq [OF assms])

subsection \<open>Which cells are occupied\<close>

text \<open>The cells one reservation marks.\<close>

definition marks :: "int \<Rightarrow> instant \<Rightarrow> instant \<Rightarrow> reservation \<Rightarrow> int \<times> instant \<Rightarrow> bool" where
  "marks delta from_at to_at r k \<longleftrightarrow>
     (case r_time_range r of
        EmptyRange \<Rightarrow> False
      | TimeRange l u \<Rightarrow>
          fst k = r_host_id r
          \<and> on_grid delta (max l from_at - (max l from_at - from_at) mod delta) (snd k)
          \<and> snd k < min u to_at)"

definition last_such :: "('r \<Rightarrow> bool) \<Rightarrow> 'r list \<Rightarrow> 'r option \<Rightarrow> 'r option" where
  "last_such P rs a = fold (\<lambda>r a. if P r then Some r else a) rs a"

lemma last_such_None: "last_such P rs None = None \<longleftrightarrow> (\<forall>r \<in> set rs. \<not> P r)"
proof -
  have "last_such P rs a = None \<longleftrightarrow> a = None \<and> (\<forall>r \<in> set rs. \<not> P r)" for a
    by (induction rs arbitrary: a) (auto simp: last_such_def)
  then show ?thesis by simp
qed

lemma last_such_Some: "last_such P rs None = Some r \<Longrightarrow> r \<in> set rs \<and> P r"
proof -
  have "last_such P rs a = Some r \<Longrightarrow> a = Some r \<or> r \<in> set rs \<and> P r" for a
    by (induction rs arbitrary: a) (auto simp: last_such_def split: if_splits)
  then show "last_such P rs None = Some r \<Longrightarrow> r \<in> set rs \<and> P r" by fastforce
qed

lemma occupy_all_eq:
  assumes "0 < delta"
  shows "occupy_all delta from_at to_at rs occ =
     Some (\<lambda>k. last_such (\<lambda>r. marks delta from_at to_at r k) rs (occ k))"
proof (induction rs arbitrary: occ)
  case (Cons r rs)
  show ?case
  proof (cases "r_time_range r")
    case (TimeRange l u)
    have "occupy_slots delta (min u to_at) r (max l from_at - (max l from_at - from_at) mod delta) occ
        = Some (\<lambda>k. if marks delta from_at to_at r k then Some r else occ k)"
      unfolding occupy_slots_eq [OF assms] by (simp add: marks_def TimeRange)
    then show ?thesis
      by (simp add: TimeRange Let_def Cons.IH last_such_def)
  next
    case EmptyRange
    then show ?thesis by (simp add: Cons.IH last_such_def marks_def)
  qed
qed (simp add: last_such_def)

lemma marks_iff:
  assumes "0 < delta" "on_grid delta from_at c" "c < to_at"
    and "range_ok (r_time_range r)" "range_overlaps (r_time_range r) (TimeRange from_at to_at)"
  shows "marks delta from_at to_at r (h, c) \<longleftrightarrow>
     r_host_id r = h \<and> range_overlaps (r_time_range r) (TimeRange c (min (c + delta) to_at))"
proof -
  obtain l u where tr: "r_time_range r = TimeRange l u" "l < to_at" "from_at < u" "l < u"
    using assms(4,5) by (cases "r_time_range r") auto
  define m where "m = max l from_at"
  obtain k where k: "c = from_at + delta * k"
    using assms(2) by (auto simp: on_grid_def mod_eq_0_iff_dvd dvd_def algebra_simps)
  define q where "q = (m - from_at) div delta"
  have m: "m - (m - from_at) mod delta = from_at + delta * q"
    using mult_div_mod_eq [of delta "m - from_at"] by (simp add: q_def algebra_simps)
  have "q \<le> k \<longleftrightarrow> m - from_at < delta * (k + 1)"
  proof
    assume "q \<le> k"
    then have "delta * q \<le> delta * k" using assms(1) by simp
    with m pos_mod_bound [OF assms(1), of "m - from_at"] show "m - from_at < delta * (k + 1)"
      by (simp add: algebra_simps)
  next
    assume lt: "m - from_at < delta * (k + 1)"
    show "q \<le> k"
    proof (rule ccontr)
      assume "\<not> q \<le> k"
      then have "delta * (k + 1) \<le> delta * q" using assms(1) by simp
      with lt m pos_mod_sign [OF assms(1), of "m - from_at"] show False by linarith
    qed
  qed
  moreover have "from_at + delta * q \<le> c \<longleftrightarrow> q \<le> k"
    using assms(1) by (simp add: k)
  moreover have "(c - (from_at + delta * q)) mod delta = 0"
    by (simp add: k right_diff_distrib [symmetric])
  ultimately have "on_grid delta (m - (m - from_at) mod delta) c \<longleftrightarrow> m < c + delta"
    unfolding m on_grid_def by (auto simp: k algebra_simps)
  moreover have "from_at \<le> c" using assms(2) by (simp add: on_grid_def)
  ultimately show ?thesis
    using tr assms(1,3) unfolding marks_def m_def by auto
qed

lemma slot_starts_grid:
  assumes "0 < delta" "c \<in> set (slot_starts from_at to_at delta)"
  shows "on_grid delta from_at c \<and> c < to_at"
proof -
  have "c \<in> set (slot_starts s to_at delta) \<Longrightarrow> on_grid delta s c \<and> c < to_at" for s
  proof (induction "nat (to_at - s)" arbitrary: s rule: less_induct)
    case less
    from less.prems have s: "s < to_at" and c: "c = s \<or> c \<in> set (slot_starts (s + delta) to_at delta)"
      by (auto simp: slot_starts_step [OF assms(1), of s] split: if_splits)
    from c show ?case
    proof
      assume "c \<in> set (slot_starts (s + delta) to_at delta)"
      moreover have "nat (to_at - (s + delta)) < nat (to_at - s)" using s assms(1) by simp
      ultimately show ?case using less.hyps on_grid_step [OF assms(1), of s c] by blast
    qed (simp add: s)
  qed
  with assms(2) show ?thesis by blast
qed

subsection \<open>The calendar\<close>

text \<open>What a cell must say: it is occupied exactly when an active reservation of its host has time
  in common with it; it then names such a reservation, and its user exactly when the viewer is an
  administrator or that user.\<close>

definition cell_correct :: "user \<Rightarrow> db \<Rightarrow> instant \<Rightarrow> calendar_slot \<Rightarrow> bool" where
  "cell_correct viewer d to_at cs \<longleftrightarrow>
     (let here = (\<lambda>r. r \<in> set (db_reservations d) \<and> reservation_active (r_status r)
            \<and> r_host_id r = cs_host_id cs
            \<and> range_overlaps (r_time_range r)
                (TimeRange (cs_starts_at cs) (min (cs_ends_at cs) to_at))) in
      (cs_status cs = OPEN \<longrightarrow>
         (\<forall>r. \<not> here r) \<and> cs_reservation_id cs = None \<and> cs_user_id cs = None)
      \<and> (cs_status cs = OCCUPIED \<longrightarrow>
         (\<exists>r. here r \<and> cs_reservation_id cs = Some (r_id r)
            \<and> cs_user_id cs = (if is_admin viewer \<or> r_user_id r = u_id viewer
                              then Some (r_user_id r) else None))))"

lemma calendar_cell_simps [simp]:
  "cs_starts_at (calendar_cell viewer occ delta h c) = c"
  "cs_ends_at (calendar_cell viewer occ delta h c) = c + delta"
  "cs_host_id (calendar_cell viewer occ delta h c) = h"
  by (simp_all add: calendar_cell_def Let_def split: option.splits)

lemma calendar_cell_correct:
  assumes "0 < delta" "on_grid delta from_at c" "c < to_at"
    and ok: "\<forall>r \<in> set (db_reservations d). range_ok (r_time_range r)"
    and hid: "hid = None \<or> hid = Some h"
    and occ: "occ = (\<lambda>k. last_such (\<lambda>r. marks delta from_at to_at r k)
                 (calendar_reservations from_at to_at hid d) None)"
  shows "cell_correct viewer d to_at (calendar_cell viewer occ delta h c)"
proof -
  let ?here = "\<lambda>r. r \<in> set (db_reservations d) \<and> reservation_active (r_status r) \<and> r_host_id r = h
     \<and> range_overlaps (r_time_range r) (TimeRange c (min (c + delta) to_at))"
  have from_at: "from_at \<le> c" using assms(2) by (simp add: on_grid_def)
  have inside: "?here r \<Longrightarrow> range_overlaps (r_time_range r) (TimeRange from_at to_at)" for r
    using from_at by (cases "r_time_range r") auto
  have iff: "(r \<in> set (calendar_reservations from_at to_at hid d) \<and> marks delta from_at to_at r (h, c))
      \<longleftrightarrow> ?here r" for r
    using marks_iff [OF assms(1-3), of r h] ok hid inside [of r]
    by (auto simp: calendar_reservations_def split: option.splits)
  show ?thesis
  proof (cases "occ (h, c)")
    case None
    then have "\<forall>r. \<not> ?here r"
      using iff by (auto simp: occ last_such_None)
    with None show ?thesis by (simp add: cell_correct_def calendar_cell_def)
  next
    case (Some r)
    then have "?here r" using iff [of r] by (auto simp: occ dest!: last_such_Some)
    with Some show ?thesis
      by (auto simp: cell_correct_def calendar_cell_def Let_def intro!: exI [of _ r])
  qed
qed

lemma build_calendar_matrix_eq:
  assumes "reservation_slot_minutes cfg = 30" "aware from_dt" "aware to_dt"
    and "dt_wall from_dt mod (30 * min_us) = 0" "dt_wall to_dt mod (30 * min_us) = 0"
    and "instant_of from_dt < instant_of to_dt" and "fits_filter hid"
  shows "build_calendar_matrix cfg from_dt to_dt hid viewer d =
     Some (Inr \<lparr>cm_from = from_dt, cm_to = to_dt, cm_slot_minutes = 30,
       cm_slots = concat (map (\<lambda>h. map (calendar_cell viewer
          (\<lambda>k. last_such (\<lambda>r. marks (30 * min_us) (instant_of from_dt) (instant_of to_dt) r k)
             (calendar_reservations (instant_of from_dt) (instant_of to_dt) hid d) None)
          (30 * min_us) h) (slot_starts (instant_of from_dt) (instant_of to_dt) (30 * min_us)))
        (calendar_hosts hid d))\<rparr>)"
  using assms by (simp add: build_calendar_matrix_def both_aligned_def is_grid_aligned_30 Let_def
      occupy_all_eq emit_hosts_eq)

text \<open>C11: The calendar of an aligned window always returns; for each host asked for it holds the
  half-hour cells of the window in order, without gap or overlap, and each cell is open or occupied
  according to the active reservations, with foreign users masked.\<close>
theorem calendar_correct:
  assumes "wf_db d" and "reservation_slot_minutes cfg = 30" and "aware from_dt" and "aware to_dt"
    and "dt_wall from_dt mod (30 * min_us) = 0" and "dt_wall to_dt mod (30 * min_us) = 0"
    and "instant_of from_dt < instant_of to_dt" and "fits_filter hid"
  shows "\<exists>m. build_calendar_matrix cfg from_dt to_dt hid viewer d = Some (Inr m)
     \<and> map (\<lambda>cs. (cs_host_id cs, cs_starts_at cs, cs_ends_at cs)) (cm_slots m)
         = concat (map (\<lambda>h. map (\<lambda>c. (h, c, c + 30 * min_us))
             (slot_starts (instant_of from_dt) (instant_of to_dt) (30 * min_us))) (calendar_hosts hid d))
     \<and> (\<forall>cs \<in> set (cm_slots m). cell_correct viewer d (instant_of to_dt) cs)"
proof -
  let ?m = "\<lparr>cm_from = from_dt, cm_to = to_dt, cm_slot_minutes = 30,
       cm_slots = concat (map (\<lambda>h. map (calendar_cell viewer
          (\<lambda>k. last_such (\<lambda>r. marks (30 * min_us) (instant_of from_dt) (instant_of to_dt) r k)
             (calendar_reservations (instant_of from_dt) (instant_of to_dt) hid d) None)
          (30 * min_us) h) (slot_starts (instant_of from_dt) (instant_of to_dt) (30 * min_us)))
        (calendar_hosts hid d))\<rparr>"
  have ok: "\<forall>r \<in> set (db_reservations d). range_ok (r_time_range r)"
    using assms(1) by (simp add: wf_db_def reservations_wf_def)
  have pos: "0 < 30 * min_us" by simp
  have cells: "\<forall>cs \<in> set (cm_slots ?m). cell_correct viewer d (instant_of to_dt) cs"
  proof
    fix cs assume "cs \<in> set (cm_slots ?m)"
    then obtain h c where h: "h \<in> set (calendar_hosts hid d)"
      and c: "c \<in> set (slot_starts (instant_of from_dt) (instant_of to_dt) (30 * min_us))"
      and cs: "cs = calendar_cell viewer
          (\<lambda>k. last_such (\<lambda>r. marks (30 * min_us) (instant_of from_dt) (instant_of to_dt) r k)
             (calendar_reservations (instant_of from_dt) (instant_of to_dt) hid d) None)
          (30 * min_us) h c"
      by auto
    from h have hid: "hid = None \<or> hid = Some h"
      by (auto simp: calendar_hosts_def split: option.splits)
    note grid = slot_starts_grid [OF pos c]
    show "cell_correct viewer d (instant_of to_dt) cs"
      unfolding cs
      by (rule calendar_cell_correct [OF pos conjunct1 [OF grid] conjunct2 [OF grid] ok hid refl])
  qed
  have "map (\<lambda>cs. (cs_host_id cs, cs_starts_at cs, cs_ends_at cs)) (cm_slots ?m)
         = concat (map (\<lambda>h. map (\<lambda>c. (h, c, c + 30 * min_us))
             (slot_starts (instant_of from_dt) (instant_of to_dt) (30 * min_us))) (calendar_hosts hid d))"
    by (simp only: calendar_matrix.simps map_concat o_def list.map_comp calendar_cell_simps)
  with cells show ?thesis
    using build_calendar_matrix_eq [OF assms(2-), of viewer d] by blast
qed

lemma calendar_sample_window:
  "reservation_slot_minutes default_settings = 30" "aware (at_utc 0)"
  "aware (at_utc (3 * hour_us))" "dt_wall (at_utc 0) mod (30 * min_us) = 0"
  "dt_wall (at_utc (3 * hour_us)) mod (30 * min_us) = 0"
  "instant_of (at_utc 0) < instant_of (at_utc (3 * hour_us))"
  by (simp_all add: default_settings_def)

theorem calendar_correct_witness:
  "\<exists>m. build_calendar_matrix default_settings (at_utc 0) (at_utc (3 * hour_us)) (Some 7)
        (sample_user 3 ''user'') busy_db = Some (Inr m)
     \<and> map cs_starts_at (cm_slots m) = [0, 30 * min_us, hour_us, 90 * min_us, 2 * hour_us, 150 * min_us]"
proof -
  have "fits_filter (Some 7)" by (simp add: fits_filter_def in_bits_def)
  from calendar_correct [OF wf_busy_db calendar_sample_window this, of "sample_user 3 ''user''"]
  obtain m where m: "build_calendar_matrix default_settings (at_utc 0) (at_utc (3 * hour_us)) (Some 7)
        (sample_user 3 ''user'') busy_db = Some (Inr m)"
    and s: "map (\<lambda>cs. (cs_host_id cs, cs_starts_at cs, cs_ends_at cs)) (cm_slots m)
      = concat (map (\<lambda>h. map (\<lambda>c. (h, c, c + 30 * min_us))
          (slot_starts (instant_of (at_utc 0)) (instant_of (at_utc (3 * hour_us))) (30 * min_us)))
        (calendar_hosts (Some 7) busy_db))"
    by blast
  have s: "map (\<lambda>cs. (cs_host_id cs, cs_starts_at cs, cs_ends_at cs)) (cm_slots m)
      = map (\<lambda>c. (7, c, c + 30 * min_us)) (slot_starts 0 (3 * hour_us) (30 * min_us))"
    using s by (simp only: calendar_hosts_def option.case list.map concat.simps append_Nil2 instant_of_at_utc)
  have "map cs_starts_at (cm_slots m) = slot_starts 0 (3 * hour_us) (30 * min_us)"
    using arg_cong [OF s, of "map (fst \<circ> snd)"]
    by (simp only: list.map_comp o_def fst_conv snd_conv list.map_ident)
  also have "\<dots> = [0, 30 * min_us, hour_us, 90 * min_us, 2 * hour_us, 150 * min_us]"
    by code_simp
  finally show ?thesis by (intro exI [of _ m] conjI m)
qed

end
