(* ===== verification/Reservation_Api.thy ===== *)
theory Reservation_Api
  imports Web Calendar
begin

text \<open>
  \<open>api/v1/reservations.py\<close> with the request bodies of \<open>api/schemas/reservation.py\<close> and
  \<open>api/schemas/token.py\<close>: booking, instant use, listing, the calendar, reading, cancelling and
  the issue of connect tokens.  The authenticated user is an argument; \<open>now\<close>, \<open>now2\<close>, ... are
  the readings of the clock in the order in which the code takes them.
\<close>

subsection \<open>Requests and answers\<close>

definition ensure_grid :: "datetime \<Rightarrow> bool" where
  "ensure_grid v \<longleftrightarrow> dt_tz v \<noteq> None
     \<and> minute (dt_wall v) \<in> {0, 30} \<and> second (dt_wall v) = 0 \<and> microsecond (dt_wall v) = 0"

record reservation_create =
  rc_host_id :: int
  rc_starts_at :: datetime
  rc_ends_at :: datetime

definition reservation_create_valid :: "reservation_create \<Rightarrow> bool" where
  "reservation_create_valid p \<longleftrightarrow> rc_host_id p > 0 \<and> ensure_grid (rc_starts_at p)
     \<and> ensure_grid (rc_ends_at p) \<and> instant_of (rc_starts_at p) < instant_of (rc_ends_at p)"

record reservation_read =
  rr_id :: int
  rr_user_id :: int
  rr_host_id :: int
  rr_starts_at :: instant
  rr_ends_at :: instant
  rr_status :: reservation_status
  rr_created_at :: instant
  rr_canceled_at :: "instant option"

definition to_read :: "reservation \<Rightarrow> app_error + reservation_read" where
  "to_read r =
     (case reservation_bounds r of
        Inl err \<Rightarrow> Inl err
      | Inr (s, e) \<Rightarrow>
          Inr \<lparr>rr_id = r_id r, rr_user_id = r_user_id r, rr_host_id = r_host_id r, rr_starts_at = s,
               rr_ends_at = e, rr_status = r_status r, rr_created_at = r_created_at r,
               rr_canceled_at = r_canceled_at r\<rparr>)"

fun to_reads :: "reservation list \<Rightarrow> app_error + reservation_read list" where
  "to_reads [] = Inr []"
| "to_reads (r # rs) =
     (case to_read r of
        Inl err \<Rightarrow> Inl err
      | Inr x \<Rightarrow> (case to_reads rs of Inl err \<Rightarrow> Inl err | Inr xs \<Rightarrow> Inr (x # xs)))"

record host_connection_info =
  hc_id :: int
  hc_hostname :: string
  hc_ip_address :: "string option"
  hc_sunshine_port :: int

definition to_connection_info :: "host \<Rightarrow> host_connection_info" where
  "to_connection_info h =
     \<lparr>hc_id = h_id h, hc_hostname = h_hostname h, hc_ip_address = h_ip_address h,
      hc_sunshine_port = h_sunshine_port h\<rparr>"

record connect_token_response =
  ct_token :: string
  ct_expires_at :: instant
  ct_reservation_id :: int
  ct_host :: host_connection_info

subsection \<open>Routes\<close>

definition unknown_host :: "int \<Rightarrow> app_error \<Rightarrow> app_error" where
  "unknown_host hid err =
     (case err of HostNotFound _ \<Rightarrow> InvalidReservationWindow (UnknownHost hid) | _ \<Rightarrow> err)"

definition not_found :: "app_error \<Rightarrow> app_error" where
  "not_found err =
     (case err of ReservationNotFound _ \<Rightarrow> HTTPException 404 (DetailText '''')
      | NotOwner \<Rightarrow> HTTPException 404 (DetailText '''') | _ \<Rightarrow> err)"

definition create_reservation_endpoint ::
  "settings \<Rightarrow> instant \<Rightarrow> instant \<Rightarrow> int \<Rightarrow> instant \<Rightarrow> user \<Rightarrow> reservation_create \<Rightarrow> world \<Rightarrow>
     reservation_read answer" where
  "create_reservation_endpoint cfg now1 now2 nid created usr p w =
     (if \<not> reservation_create_valid p then (Inl RequestValidation, w)
      else (case create_reservation cfg now1 now2 nid created usr (rc_host_id p) (rc_starts_at p)
                   (rc_ends_at p) (w_db w) of
              Inl err \<Rightarrow> (Inl (unknown_host (rc_host_id p) err), w)
            | Inr (r, d) \<Rightarrow> (to_read r, w\<lparr>w_db := d\<rparr>)))"

definition issue_connect_token_response ::
  "(string \<Rightarrow> string) \<Rightarrow> settings \<Rightarrow> instant \<Rightarrow> instant \<Rightarrow> string \<Rightarrow> int \<Rightarrow> user \<Rightarrow> reservation \<Rightarrow>
     string option \<Rightarrow> world \<Rightarrow> connect_token_response answer" where
  "issue_connect_token_response sha cfg now revoke_now raw nid usr r client w =
     (case get_host (w_db w) (r_host_id r) of
        None \<Rightarrow> (Inl RuntimeError, w)
      | Some h \<Rightarrow>
          (case issue_connect_token sha cfg now revoke_now raw nid usr r (w_db w) of
             Inl err \<Rightarrow> (Inl err, w)
           | Inr ((raw_token, tok, revoked_count), d1) \<Rightarrow>
               (let m = (w_metrics w)\<lparr>m_token_issued :=
                      (m_token_issued (w_metrics w))(''connect'' := m_token_issued (w_metrics w) ''connect'' + 1)\<rparr>;
                    d2 = (if revoked_count > 0
                          then write_audit ''token_revoke_previous'' (Some (u_id usr)) ActorSystem
                                 (Some ''reservation'') (Some (r_id r)) AuditSuccess
                                 [(''revoked_count'', JInt (int revoked_count))] (Some (u_provider usr)) None d1
                          else d1);
                    d3 = write_audit ''token_issue'' (Some (u_id usr)) ActorUser (Some ''token'')
                           (Some (t_id tok)) AuditSuccess
                           ([(''reservation_id'', JInt (r_id r)), (''host_id'', JInt (r_host_id r)),
                             (''expires_at'', JTime (at_utc (t_expires_at tok)))]
                            @ (case client of None \<Rightarrow> [] | Some c \<Rightarrow> [(''client'', JStr c)]))
                           (Some (u_provider usr)) None d2 in
                (Inr \<lparr>ct_token = raw_token, ct_expires_at = t_expires_at tok, ct_reservation_id = r_id r,
                      ct_host = to_connection_info h\<rparr>,
                 w\<lparr>w_db := d3, w_metrics := m\<rparr>))))"

definition instant_unavailable :: "int \<Rightarrow> app_error \<Rightarrow> app_error" where
  "instant_unavailable hid err =
     (case unknown_host hid err of
        HostNotAvailable _ _ \<Rightarrow>
          HTTPException 409 (DetailDict [(''error'', JStr ''host_not_available''), (''message'', JStr ''''),
            (''host_id'', JInt hid)])
      | err' \<Rightarrow> err')"

record instant_clock =
  ic_now :: instant
  ic_quota :: instant
  ic_issue :: instant
  ic_revoke :: instant
  ic_transition :: instant

definition instant_reservation_endpoint ::
  "(string \<Rightarrow> string) \<Rightarrow> settings \<Rightarrow> instant_clock \<Rightarrow> int \<Rightarrow> instant \<Rightarrow> string \<Rightarrow> int \<Rightarrow> user \<Rightarrow> int \<Rightarrow>
     world \<Rightarrow> connect_token_response answer" where
  "instant_reservation_endpoint sha cfg clk nid created raw tid usr hid w =
     (if hid \<le> 0 then (Inl RequestValidation, w)
      else (case create_instant_reservation cfg (ic_now clk) (ic_quota clk) nid created usr hid (w_db w) of
              Inl err \<Rightarrow> (Inl (instant_unavailable hid err), w)
            | Inr (r, d1) \<Rightarrow>
                (case issue_connect_token_response sha cfg (ic_issue clk) (ic_revoke clk) raw tid usr r
                        (Some ''instant_use'') (w\<lparr>w_db := d1\<rparr>) of
                   (Inl err, w') \<Rightarrow> (Inl err, w'\<lparr>w_db := w_db w\<rparr>)
                 | (Inr resp, w') \<Rightarrow>
                     (case get_host (w_db w') (r_host_id r) of
                        None \<Rightarrow> (Inr resp, w')
                      | Some h \<Rightarrow>
                          (case transition_host h IN_USE ''instant_use'' None (ic_transition clk) (w_db w') of
                             (_, d2, _) \<Rightarrow> (Inr resp, w'\<lparr>w_db := d2\<rparr>))))))"

definition list_reservations_endpoint ::
  "datetime option \<Rightarrow> datetime option \<Rightarrow> int option \<Rightarrow> int option \<Rightarrow> user \<Rightarrow> world \<Rightarrow>
     reservation_read list answer" where
  "list_reservations_endpoint from_dt to_dt hid uid viewer w =
     (if \<not> fits_filter hid \<or> is_admin viewer \<and> \<not> fits_filter uid then (Inl DataError, w)
      else (to_reads (list_reservations viewer (map_option instant_of from_dt) (map_option instant_of to_dt)
        hid uid (w_db w)), w))"

definition calendar_endpoint ::
  "settings \<Rightarrow> datetime \<Rightarrow> datetime \<Rightarrow> int option \<Rightarrow> user \<Rightarrow> world \<Rightarrow> calendar_matrix answer option" where
  "calendar_endpoint cfg from_dt to_dt hid viewer w =
     map_option (\<lambda>res. (res, w)) (build_calendar_matrix cfg from_dt to_dt hid viewer (w_db w))"

definition get_reservation_endpoint :: "int \<Rightarrow> user \<Rightarrow> world \<Rightarrow> reservation_read answer" where
  "get_reservation_endpoint rid usr w =
     (case get_reservation usr rid (w_db w) of
        Inl err \<Rightarrow> (Inl (not_found err), w)
      | Inr r \<Rightarrow> (to_read r, w))"

definition cancel_reservation_endpoint ::
  "instant \<Rightarrow> instant \<Rightarrow> int \<Rightarrow> user \<Rightarrow> world \<Rightarrow> unit answer" where
  "cancel_reservation_endpoint cancel_now now rid usr w =
     (case cancel_reservation cancel_now usr rid (w_db w) of
        Inl err \<Rightarrow> (Inl (not_found err), w)
      | Inr (r, d1) \<Rightarrow>
          (Inr (),
           w\<lparr>w_db :=
             (case get_host d1 (r_host_id r) of
                None \<Rightarrow> d1
              | Some h \<Rightarrow>
                  if h_status h = IN_USE \<and> get_active_reservation_for_host d1 (h_id h) now = None
                  then fst (snd (transition_host h IDLE ''reservation_canceled'' None now d1))
                  else d1)\<rparr>))"

definition client_valid :: "string option \<Rightarrow> bool" where
  "client_valid client \<longleftrightarrow> (case client of None \<Rightarrow> True | Some c \<Rightarrow> length c \<le> 32)"

definition connect_token_endpoint ::
  "(string \<Rightarrow> string) \<Rightarrow> settings \<Rightarrow> instant \<Rightarrow> instant \<Rightarrow> string \<Rightarrow> int \<Rightarrow> int \<Rightarrow> string option \<Rightarrow> user \<Rightarrow>
     world \<Rightarrow> connect_token_response answer" where
  "connect_token_endpoint sha cfg now revoke_now raw tid rid client usr w =
     (if \<not> client_valid client then (Inl RequestValidation, w)
      else (case get_reservation usr rid (w_db w) of
              Inl err \<Rightarrow> (Inl (not_found err), w)
            | Inr r \<Rightarrow> issue_connect_token_response sha cfg now revoke_now raw tid usr r client w))"

end
