(* ===== verification/Host_Api.thy ===== *)
theory Host_Api
  imports Reservation_Api
begin

text \<open>
  \<open>api/v1/hosts.py\<close> and \<open>api/v1/agents.py\<close> with their schemas: the list of hosts, the hosts
  available now or in a slot, enrolment by an administrator, the two kinds of secrets a host has,
  and the heartbeat of the agent, which drives the status of its host.
\<close>

subsection \<open>Requests and answers\<close>

record host_read =
  hr_id :: int
  hr_hostname :: string
  hr_display_name :: string
  hr_location :: "string option"
  hr_status :: host_status
  hr_sunshine_port :: int
  hr_ip_address :: "string option"

definition to_host_read :: "host \<Rightarrow> host_read" where
  "to_host_read h =
     \<lparr>hr_id = h_id h, hr_hostname = h_hostname h, hr_display_name = h_display_name h,
      hr_location = h_location h, hr_status = h_status h, hr_sunshine_port = h_sunshine_port h,
      hr_ip_address = h_ip_address h\<rparr>"

text \<open>\<open>HostWithAgentToken\<close> as \<open>_to_with_token\<close> fills it: the address is not among the fields.\<close>

record host_with_agent_token = host_read +
  ht_agent_token :: string
  ht_revoked_previous :: nat

definition to_with_token :: "host \<Rightarrow> string \<Rightarrow> nat \<Rightarrow> host_with_agent_token" where
  "to_with_token h raw revoked =
     \<lparr>hr_id = h_id h, hr_hostname = h_hostname h, hr_display_name = h_display_name h,
      hr_location = h_location h, hr_status = h_status h, hr_sunshine_port = h_sunshine_port h,
      hr_ip_address = None, ht_agent_token = raw, ht_revoked_previous = revoked\<rparr>"

record host_create =
  hp_hostname :: string
  hp_display_name :: string
  hp_location :: "string option"
  hp_ip_address :: "string option"
  hp_sunshine_port :: int
  hp_gpu_model :: "string option"
  hp_sunshine_broker_token :: "string option"

definition short_option :: "nat \<Rightarrow> string option \<Rightarrow> bool" where
  "short_option n s \<longleftrightarrow> (case s of None \<Rightarrow> True | Some x \<Rightarrow> length x \<le> n)"

definition host_create_valid :: "host_create \<Rightarrow> bool" where
  "host_create_valid p \<longleftrightarrow>
     1 \<le> length (hp_hostname p) \<and> length (hp_hostname p) \<le> 64
     \<and> 1 \<le> length (hp_display_name p) \<and> length (hp_display_name p) \<le> 128
     \<and> short_option 128 (hp_location p)
     \<and> 1 \<le> hp_sunshine_port p \<and> hp_sunshine_port p \<le> 65535
     \<and> short_option 128 (hp_gpu_model p) \<and> short_option 128 (hp_sunshine_broker_token p)"

definition sunshine_token_valid :: "string \<Rightarrow> bool" where
  "sunshine_token_valid s \<longleftrightarrow> 1 \<le> length s \<and> length s \<le> 128"

record host_available =
  ha_id :: int
  ha_hostname :: string
  ha_display_name :: string
  ha_location :: "string option"
  ha_last_heartbeat_at :: "instant option"
  ha_ip_address :: "string option"
  ha_available_until :: "instant option"

definition to_host_available :: "host \<Rightarrow> instant option \<Rightarrow> host_available" where
  "to_host_available h until =
     \<lparr>ha_id = h_id h, ha_hostname = h_hostname h, ha_display_name = h_display_name h,
      ha_location = h_location h, ha_last_heartbeat_at = h_last_heartbeat_at h,
      ha_ip_address = h_ip_address h, ha_available_until = until\<rparr>"

subsection \<open>Listing\<close>

definition list_hosts_endpoint :: "world \<Rightarrow> host_read list answer" where
  "list_hosts_endpoint w = (Inr (map to_host_read (sort_key h_id (db_hosts (w_db w)))), w)"

definition ensure_grid_aligned :: "datetime \<Rightarrow> app_error + unit" where
  "ensure_grid_aligned dt =
     (if dt_tz dt = None then Inl (InvalidReservationWindow NaiveDatetime)
      else if \<not> (minute (dt_wall dt) mod 30 = 0 \<and> second (dt_wall dt) = 0 \<and> microsecond (dt_wall dt) = 0)
        then Inl (InvalidReservationWindow (Misaligned None 30))
      else Inr ())"

definition list_slot_available_hosts :: "instant \<Rightarrow> instant \<Rightarrow> db \<Rightarrow> host list" where
  "list_slot_available_hosts from_at to_at d =
     sort_key h_id (filter (\<lambda>h. h_status h = IDLE
       \<and> \<not> (\<exists>r \<in> set (db_reservations d). r_host_id r = h_id h \<and> r_status r = CONFIRMED
              \<and> range_overlaps (r_time_range r) (TimeRange from_at to_at)))
       (db_hosts d))"

definition list_available_hosts_endpoint ::
  "instant \<Rightarrow> datetime option \<Rightarrow> datetime option \<Rightarrow> world \<Rightarrow> host_available list answer" where
  "list_available_hosts_endpoint now from_dt to_dt w =
     (case (from_dt, to_dt) of
        (Some f, Some t) \<Rightarrow>
          (case ensure_grid_aligned f of
             Inl err \<Rightarrow> (Inl err, w)
           | Inr _ \<Rightarrow> (case ensure_grid_aligned t of
               Inl err \<Rightarrow> (Inl err, w)
             | Inr _ \<Rightarrow>
                 if instant_of f \<ge> instant_of t
                 then (Inl (InvalidReservationWindow (StartNotBeforeEnd None)), w)
                 else (Inr (map (\<lambda>h. to_host_available h None)
                        (list_slot_available_hosts (instant_of f) (instant_of t) (w_db w))), w)))
      | (None, None) \<Rightarrow>
          (Inr (map (\<lambda>(h, until). to_host_available h (Some until)) (list_instant_available_hosts now (w_db w))), w)
      | (f, t) \<Rightarrow> (Inl (InvalidReservationWindow (FromToNotPaired f t)), w))"

subsection \<open>Enrolment and secrets\<close>

definition hostname_conflict :: "string \<Rightarrow> app_error" where
  "hostname_conflict name =
     HTTPException 409 (DetailDict [(''error'', JStr ''hostname_conflict''), (''hostname'', JStr name)])"

definition host_missing_error :: "int \<Rightarrow> app_error" where
  "host_missing_error hid =
     HTTPException 404 (DetailDict [(''error'', JStr ''host_not_found''), (''host_id'', JInt hid)])"

definition new_host :: "int \<Rightarrow> host_create \<Rightarrow> host" where
  "new_host hid p =
     \<lparr>h_id = hid, h_hostname = hp_hostname p, h_display_name = hp_display_name p,
      h_location = hp_location p, h_ip_address = hp_ip_address p, h_sunshine_port = hp_sunshine_port p,
      h_sunshine_broker_token = hp_sunshine_broker_token p, h_gpu_model = hp_gpu_model p,
      h_status = OFFLINE, h_last_heartbeat_at = None, h_metadata = []\<rparr>"

definition create_host_endpoint ::
  "(string \<Rightarrow> string) \<Rightarrow> settings \<Rightarrow> instant \<Rightarrow> instant \<Rightarrow> string \<Rightarrow> int \<Rightarrow> int \<Rightarrow> user \<Rightarrow> host_create \<Rightarrow>
     world \<Rightarrow> host_with_agent_token answer" where
  "create_host_endpoint sha cfg revoke_now now raw hid tid admin p w =
     (if \<not> host_create_valid p then (Inl RequestValidation, w)
      else (case insert_host (new_host hid p) (w_db w) of
              Inl (Integrity exc) \<Rightarrow>
                if contains_str ''hosts_hostname_key'' (ie_message exc)
                then (Inl (hostname_conflict (hp_hostname p)), w) else (Inl (Integrity exc), w)
            | Inl err \<Rightarrow> (Inl err, w)
            | Inr d1 \<Rightarrow>
                (case issue_agent_token sha cfg revoke_now now raw tid hid admin d1 of
                   Inl err \<Rightarrow> (Inl err, w)
                 | Inr ((raw_token, _, revoked), d2) \<Rightarrow>
                     (case get_host d2 hid of
                        None \<Rightarrow> (Inl RuntimeError, w\<lparr>w_db := d2\<rparr>)
                      | Some h \<Rightarrow> (Inr (to_with_token h raw_token revoked), w\<lparr>w_db := d2\<rparr>)))))"

definition rotate_agent_token_endpoint ::
  "(string \<Rightarrow> string) \<Rightarrow> settings \<Rightarrow> instant \<Rightarrow> instant \<Rightarrow> string \<Rightarrow> int \<Rightarrow> int \<Rightarrow> user \<Rightarrow>
     world \<Rightarrow> host_with_agent_token answer" where
  "rotate_agent_token_endpoint sha cfg revoke_now now raw tid hid admin w =
     (case session_get get_host (w_db w) hid of
        Inl err \<Rightarrow> (Inl err, w)
      | Inr None \<Rightarrow> (Inl (host_missing_error hid), w)
      | Inr (Some h) \<Rightarrow>
          (case issue_agent_token sha cfg revoke_now now raw tid (h_id h) admin (w_db w) of
             Inl err \<Rightarrow> (Inl err, w)
           | Inr ((raw_token, _, revoked), d) \<Rightarrow>
               (Inr (to_with_token h raw_token revoked), w\<lparr>w_db := d\<rparr>)))"

definition set_sunshine_token_endpoint :: "int \<Rightarrow> string \<Rightarrow> world \<Rightarrow> host_read answer" where
  "set_sunshine_token_endpoint hid secret w =
     (if \<not> sunshine_token_valid secret then (Inl RequestValidation, w)
      else (case session_get get_host (w_db w) hid of
              Inl err \<Rightarrow> (Inl err, w)
            | Inr None \<Rightarrow> (Inl (host_missing_error hid), w)
            | Inr (Some h) \<Rightarrow>
                (let h' = h\<lparr>h_sunshine_broker_token := Some secret\<rparr> in
                 (Inr (to_host_read h'), w\<lparr>w_db := save_host h' (w_db w)\<rparr>))))"

subsection \<open>Heartbeat\<close>

datatype connection_state = Active | Disconnected | Unknown

record gpu_metric =
  gm_name :: string
  gm_util_pct :: rat
  gm_mem_pct :: rat
  gm_temp_c :: "rat option"

record heartbeat =
  hb_agent_version :: string
  hb_boot_time :: datetime
  hb_cpu_pct :: rat
  hb_mem_pct :: rat
  hb_uptime_sec :: int
  hb_load_avg :: "rat list option"
  hb_sunshine_running :: bool
  hb_active_user :: "string option"
  hb_active_clients :: int
  hb_connection_state :: "connection_state option"
  hb_gpu :: "gpu_metric list option"
  hb_self_rtt_ms :: "rat option"

definition percentage :: "rat \<Rightarrow> bool" where
  "percentage x \<longleftrightarrow> 0 \<le> x \<and> x \<le> 100"

definition heartbeat_valid :: "heartbeat \<Rightarrow> bool" where
  "heartbeat_valid p \<longleftrightarrow>
     1 \<le> length (hb_agent_version p) \<and> length (hb_agent_version p) \<le> 32
     \<and> percentage (hb_cpu_pct p) \<and> percentage (hb_mem_pct p) \<and> 0 \<le> hb_uptime_sec p
     \<and> short_option 64 (hb_active_user p) \<and> 0 \<le> hb_active_clients p
     \<and> (case hb_gpu p of None \<Rightarrow> True | Some gs \<Rightarrow> list_all (\<lambda>g.
          1 \<le> length (gm_name g) \<and> length (gm_name g) \<le> 128
          \<and> percentage (gm_util_pct g) \<and> percentage (gm_mem_pct g)) gs)
     \<and> (case hb_self_rtt_ms p of None \<Rightarrow> True | Some x \<Rightarrow> 0 \<le> x)"

definition opt_json :: "('a \<Rightarrow> json) \<Rightarrow> 'a option \<Rightarrow> json" where
  "opt_json f x = (case x of None \<Rightarrow> JNull | Some y \<Rightarrow> f y)"

definition connection_state_json :: "connection_state \<Rightarrow> json" where
  "connection_state_json c =
     JStr (case c of Active \<Rightarrow> ''active'' | Disconnected \<Rightarrow> ''disconnected'' | Unknown \<Rightarrow> ''unknown'')"

definition metrics_json :: "heartbeat \<Rightarrow> json" where
  "metrics_json p = JObj
     [(''system'', JObj [(''cpu_pct'', JRat (hb_cpu_pct p)), (''mem_pct'', JRat (hb_mem_pct p)),
        (''uptime_sec'', JInt (hb_uptime_sec p)),
        (''load_avg'', opt_json (\<lambda>xs. JArr (map JRat xs)) (hb_load_avg p))]),
      (''session'', JObj [(''sunshine_running'', JBool (hb_sunshine_running p)),
        (''active_user'', opt_json JStr (hb_active_user p)),
        (''active_clients'', JInt (hb_active_clients p)),
        (''connection_state'', opt_json connection_state_json (hb_connection_state p))]),
      (''gpu'', JArr (map (\<lambda>g. JObj [(''name'', JStr (gm_name g)), (''util_pct'', JRat (gm_util_pct g)),
          (''mem_pct'', JRat (gm_mem_pct g)), (''temp_c'', opt_json JRat (gm_temp_c g))])
        (case hb_gpu p of None \<Rightarrow> [] | Some gs \<Rightarrow> gs))),
      (''agent_self_rtt_ms'', opt_json JRat (hb_self_rtt_ms p))]"

text \<open>\<open>metadata[key] = value\<close> on a copy of the dictionary.\<close>

fun dict_set :: "string \<Rightarrow> json \<Rightarrow> (string \<times> json) list \<Rightarrow> (string \<times> json) list" where
  "dict_set k v [] = [(k, v)]"
| "dict_set k v ((k', v') # kvs) = (if k' = k then (k, v) # kvs else (k', v') # dict_set k v kvs)"

lemma map_of_dict_set: "map_of (dict_set k v kvs) = (map_of kvs)(k \<mapsto> v)"
  by (induction k v kvs rule: dict_set.induct) (auto simp: fun_eq_iff)

fun max_default :: "rat \<Rightarrow> rat list \<Rightarrow> rat" where
  "max_default d [] = d"
| "max_default d (x # xs) = fold max xs x"

definition gpu_list :: "heartbeat \<Rightarrow> gpu_metric list" where
  "gpu_list p = (case hb_gpu p of None \<Rightarrow> [] | Some gs \<Rightarrow> gs)"

definition heartbeat_host :: "instant \<Rightarrow> heartbeat \<Rightarrow> host \<Rightarrow> host" where
  "heartbeat_host now p h =
     h\<lparr>h_last_heartbeat_at := Some now,
       h_metadata := dict_set ''metrics'' (metrics_json p)
         (dict_set ''boot_time'' (JTime (hb_boot_time p))
           (dict_set ''agent_version'' (JStr (hb_agent_version p)) (h_metadata h)))\<rparr>"

record heartbeat_response =
  hbr_next_interval_sec :: int
  hbr_server_time :: instant

definition heartbeat_status :: "settings \<Rightarrow> instant \<Rightarrow> heartbeat \<Rightarrow> int \<Rightarrow> db \<Rightarrow> host_status" where
  "heartbeat_status cfg now p hid d =
     evaluate_host_status cfg now (Some now) (get_active_reservation_for_host d hid now \<noteq> None)
       (hb_sunshine_running p) (Some (hb_cpu_pct p)) (Some (hb_mem_pct p))"

definition heartbeat_metrics :: "heartbeat \<Rightarrow> string \<Rightarrow> host_status \<Rightarrow> metrics \<Rightarrow> metrics" where
  "heartbeat_metrics p hostname st m =
     (let m1 = m\<lparr>m_cpu := (m_cpu m)(hostname \<mapsto> hb_cpu_pct p), m_mem := (m_mem m)(hostname \<mapsto> hb_mem_pct p)\<rparr>;
          m2 = (if gpu_list p = [] then m1
                else m1\<lparr>m_gpu := (m_gpu m1)(hostname \<mapsto> max_default 0 (map gm_util_pct (gpu_list p)))\<rparr>) in
      set_host_status_indicator hostname st m2)"

definition heartbeat_endpoint ::
  "(string \<Rightarrow> string) \<Rightarrow> settings \<Rightarrow> instant \<Rightarrow> instant \<Rightarrow> request \<Rightarrow> heartbeat \<Rightarrow> world \<Rightarrow>
     heartbeat_response answer" where
  "heartbeat_endpoint sha cfg auth_now now rq p w =
     (case get_agent_host sha auth_now rq (w_db w) of
        Inl err \<Rightarrow> (Inl err, w)
      | Inr (h, _) \<Rightarrow>
          if \<not> heartbeat_valid p then (Inl RequestValidation, w)
          else
            (let h1 = heartbeat_host now p h;
                 d1 = save_host h1 (w_db w);
                 st = heartbeat_status cfg now p (h_id h) d1 in
             case transition_host h1 st ''heartbeat'' (Some (w_broker w)) now d1 of
               (_, d2, b) \<Rightarrow>
                 (Inr \<lparr>hbr_next_interval_sec = 30, hbr_server_time = now\<rparr>,
                  w\<lparr>w_db := d2, w_broker := the b,
                    w_metrics := heartbeat_metrics p (h_hostname h) st (w_metrics w)\<rparr>)))"

end
