(* ===== verification/Pairing.thy ===== *)
theory Pairing
  imports Reservation_Facts
begin

text \<open>
  \<open>services/pairing_service.py\<close>: relaying a PIN to the Sunshine server of a host, with retries and
  exponential back-off.  The HTTP client is third-party code: what the \<open>k\<close>-th request meets is the
  argument \<open>answer k\<close>, a transport error, another exception, or a response with its status code and
  its body as JSON (\<open>None\<close> when it does not parse).
\<close>

datatype http_answer = TransportError | OtherException | Response int "json option"

record pin_request =
  pq_host :: string
  pq_port :: int
  pq_bearer :: string
  pq_pin :: string
  pq_reservation :: int

datatype pairing_error =
  HostNotPairable
| PairingUnreachable string int
| PairingRejected string int
| ClientCrash

definition pairing_reason :: "pairing_error \<Rightarrow> string" where
  "pairing_reason e = (case e of HostNotPairable \<Rightarrow> ''missing_ip_or_token''
     | PairingUnreachable r _ \<Rightarrow> r | PairingRejected r _ \<Rightarrow> r | ClientCrash \<Rightarrow> '''')"

definition pairing_attempts :: "pairing_error \<Rightarrow> int" where
  "pairing_attempts e = (case e of HostNotPairable \<Rightarrow> 0
     | PairingUnreachable _ n \<Rightarrow> n | PairingRejected _ n \<Rightarrow> n | ClientCrash \<Rightarrow> 0)"

definition is_transient_status :: "int \<Rightarrow> bool" where
  "is_transient_status code \<longleftrightarrow> code \<ge> 500"

definition sunshine_accepted :: "json option \<Rightarrow> bool" where
  "sunshine_accepted body \<longleftrightarrow>
     (case body of Some (JObj kvs) \<Rightarrow> map_of kvs ''status'' = Some (JBool True) | _ \<Rightarrow> False)"

text \<open>One turn of the loop: the result to leave with, or the reason to note before the next turn.\<close>

definition judge :: "int \<Rightarrow> http_answer \<Rightarrow> (pairing_error + int) + string" where
  "judge attempt ans =
     (case ans of
        TransportError \<Rightarrow> Inr ''unreachable''
      | OtherException \<Rightarrow> Inl (Inl ClientCrash)
      | Response code body \<Rightarrow>
          if code = 401 then Inl (Inl (PairingRejected ''sunshine_unauthorized'' attempt))
          else if 200 \<le> code \<and> code < 300 then
            (if sunshine_accepted body then Inl (Inr attempt) else Inr ''sunshine_rejected'')
          else if is_transient_status code then Inr ''sunshine_server_error''
          else Inl (Inl (PairingRejected ''sunshine_rejected'' attempt)))"

text \<open>The loop, with the delays it sleeps for; \<open>remaining\<close> counts the attempts left.\<close>

fun push_pin_loop ::
  "rat \<Rightarrow> int \<Rightarrow> (int \<Rightarrow> http_answer) \<Rightarrow> nat \<Rightarrow> string \<Rightarrow> (pairing_error + int) \<times> rat list" where
  "push_pin_loop base max_attempts answer 0 last_reason =
     (if last_reason = ''sunshine_rejected'' then (Inl (PairingRejected ''sunshine_rejected'' max_attempts), [])
      else (Inl (PairingUnreachable last_reason max_attempts), []))"
| "push_pin_loop base max_attempts answer (Suc remaining) last_reason =
     (let attempt = max_attempts - int remaining in
      case judge attempt (answer attempt) of
        Inl res \<Rightarrow> (res, [])
      | Inr reason \<Rightarrow>
          (case push_pin_loop base max_attempts answer remaining reason of
             (res, delays) \<Rightarrow>
               (res, (if attempt < max_attempts then [base * 2 ^ nat (attempt - 1)] else []) @ delays)))"

definition max_pair_attempts :: "settings \<Rightarrow> int" where
  "max_pair_attempts cfg = max 1 (sunshine_pair_max_attempts cfg)"

text \<open>\<open>push_pin\<close>: the request it sends, if any, its result and its delays.\<close>

definition push_pin ::
  "settings \<Rightarrow> (int \<Rightarrow> http_answer) \<Rightarrow> host \<Rightarrow> string \<Rightarrow> int \<Rightarrow>
     pin_request option \<times> (pairing_error + int) \<times> rat list" where
  "push_pin cfg answer h pin rid =
     (case (h_ip_address h, h_sunshine_broker_token h) of
        (Some ip, Some tok) \<Rightarrow>
          if ip = '''' \<or> tok = '''' then (None, Inl HostNotPairable, [])
          else (Some \<lparr>pq_host = ip, pq_port = sunshine_config_port cfg, pq_bearer = tok, pq_pin = pin,
                      pq_reservation = rid\<rparr>,
                push_pin_loop (sunshine_pair_backoff_base_seconds cfg) (max_pair_attempts cfg) answer
                  (nat (max_pair_attempts cfg)) ''unreachable'')
      | _ \<Rightarrow> (None, Inl HostNotPairable, []))"

subsection \<open>The loop against its specification\<close>

text \<open>The first answer among the attempts that decides the outcome.\<close>

definition first_decision :: "int \<Rightarrow> (int \<Rightarrow> http_answer) \<Rightarrow> int \<Rightarrow> (pairing_error + int) option" where
  "first_decision start answer max_attempts =
     (case find (\<lambda>k. \<exists>res. judge k (answer k) = Inl res) [start..max_attempts] of
        None \<Rightarrow> None
      | Some k \<Rightarrow> (case judge k (answer k) of Inl res \<Rightarrow> Some res | Inr _ \<Rightarrow> None))"

definition exhausted :: "int \<Rightarrow> string \<Rightarrow> pairing_error" where
  "exhausted n reason =
     (if reason = ''sunshine_rejected'' then PairingRejected ''sunshine_rejected'' n
      else PairingUnreachable reason n)"

lemma push_pin_loop_spec:
  "fst (push_pin_loop base n answer rem reason) =
     (case first_decision (n - int rem + 1) answer n of
        Some res \<Rightarrow> res
      | None \<Rightarrow> Inl (exhausted n (if rem = 0 then reason else projr (judge n (answer n)))))"
proof (induction rem arbitrary: reason)
  case 0
  then show ?case by (simp add: first_decision_def exhausted_def)
next
  case (Suc rem)
  let ?k = "n - int rem"
  have range: "[?k..n] = ?k # [?k + 1..n]" by (simp add: upto_rec1)
  have start: "n - int (Suc rem) + 1 = ?k" by simp
  show ?case
  proof (cases "judge ?k (answer ?k)")
    case (Inl res)
    then show ?thesis unfolding start by (simp add: first_decision_def range)
  next
    case (Inr r)
    then have "first_decision ?k answer n = first_decision (?k + 1) answer n"
      by (simp add: first_decision_def range)
    moreover have "first_decision (n + 1) answer n = None" by (simp add: first_decision_def)
    ultimately show ?thesis using Inr unfolding start
      by (cases "rem = 0") (simp_all add: split_beta Suc.IH Let_def exhausted_def)
  qed
qed

lemma push_pin_loop_delays:
  assumes "int rem \<le> n" "0 < rem" "0 \<le> base"
  shows "sum_list (snd (push_pin_loop base n answer rem reason)) \<le>
       base * (2 ^ nat (n - 1) - 2 ^ nat (n - int rem))
   \<and> length (snd (push_pin_loop base n answer rem reason)) < rem"
  using assms
proof (induction rem arbitrary: reason)
  case (Suc rem)
  show ?case
  proof (cases "judge (n - int rem) (answer (n - int rem))")
    case (Inl res)
    have "nat (n - int (Suc rem)) \<le> nat (n - 1)" by simp
    then have "(2::rat) ^ nat (n - int (Suc rem)) \<le> 2 ^ nat (n - 1)" by (rule power_increasing) simp
    with Inl Suc.prems(3) show ?thesis by simp
  next
    case (Inr r)
    show ?thesis
    proof (cases "rem = 0")
      case True
      with Inr Suc.prems(3) show ?thesis by simp
    next
      case False
      then have IH: "sum_list (snd (push_pin_loop base n answer rem r)) \<le>
         base * (2 ^ nat (n - 1) - 2 ^ nat (n - int rem))"
        "length (snd (push_pin_loop base n answer rem r)) < rem"
        using Suc by auto
      have e: "nat (n - int rem) = Suc (nat (n - int (Suc rem)))"
        "nat (n - int rem - 1) = nat (n - int (Suc rem))" using Suc.prems by auto
      show ?thesis
        using IH Inr False by (auto simp: split_beta e algebra_simps mult_le_0_iff)
    qed
  qed
qed simp

text \<open>Relaying a PIN returns the verdict of the first answer that decides, within the
  configured number of attempts; without one it fails with the reason of the last attempt.  A host
  without address or pairing secret is refused before any request.\<close>
theorem push_pin_verdict:
  "fst (snd (push_pin cfg answer h pin rid)) =
     (if h_ip_address h \<in> {None, Some ''''} \<or> h_sunshine_broker_token h \<in> {None, Some ''''}
      then Inl HostNotPairable
      else (case first_decision 1 answer (max_pair_attempts cfg) of
              Some res \<Rightarrow> res
            | None \<Rightarrow> Inl (exhausted (max_pair_attempts cfg)
                (projr (judge (max_pair_attempts cfg) (answer (max_pair_attempts cfg)))))))
   \<and> (fst (push_pin cfg answer h pin rid) = None \<longleftrightarrow>
        h_ip_address h \<in> {None, Some ''''} \<or> h_sunshine_broker_token h \<in> {None, Some ''''})"
proof -
  have pos: "nat (max_pair_attempts cfg) \<noteq> 0" "int (nat (max_pair_attempts cfg)) = max_pair_attempts cfg"
    by (simp_all add: max_pair_attempts_def)
  show ?thesis
    using pos push_pin_loop_spec [of _ "max_pair_attempts cfg" answer "nat (max_pair_attempts cfg)"]
    by (auto simp: push_pin_def split: option.split)
qed

text \<open>With \<open>n\<close> attempts configured, a call sleeps fewer than \<open>n\<close> times, for at most
  \<open>base * (2^(n-1) - 1)\<close> seconds in all.\<close>
theorem push_pin_backoff_bound:
  assumes "0 \<le> sunshine_pair_backoff_base_seconds cfg"
  shows "sum_list (snd (snd (push_pin cfg answer h pin rid))) \<le>
       sunshine_pair_backoff_base_seconds cfg * (2 ^ nat (max_pair_attempts cfg - 1) - 1)
     \<and> int (length (snd (snd (push_pin cfg answer h pin rid)))) < max_pair_attempts cfg"
proof -
  let ?n = "max_pair_attempts cfg"
  have n: "int (nat ?n) \<le> ?n" "0 < nat ?n" "nat (?n - int (nat ?n)) = 0"
    by (simp_all add: max_pair_attempts_def)
  have "0 \<le> sunshine_pair_backoff_base_seconds cfg * (2 ^ nat (?n - 1) - 1 :: rat)"
    using assms by (intro mult_nonneg_nonneg) simp_all
  moreover have "length (snd (push_pin_loop base ?n answer (nat ?n) r)) < nat ?n"
    "sum_list (snd (push_pin_loop base ?n answer (nat ?n) r)) \<le> base * (2 ^ nat (?n - 1) - 1)"
    if "0 \<le> base" for base r
    using push_pin_loop_delays [OF n(1,2) that, of answer r] n(3) by simp_all
  ultimately show ?thesis
    using assms n(2) by (auto simp: push_pin_def zless_nat_eq_int_zless split: option.split)
qed

definition pairable_host :: host where
  "pairable_host = (sample_host 7 IDLE)\<lparr>h_ip_address := Some ''10.0.0.7'', h_sunshine_broker_token := Some ''s''\<rparr>"

theorem push_pin_backoff_bound_witness:
  "snd (snd (push_pin default_settings (\<lambda>_. TransportError) pairable_host ''1234'' 1)) = [1/2, 1, 2, 4]
   \<and> sum_list (snd (snd (push_pin default_settings (\<lambda>_. TransportError) pairable_host ''1234'' 1))) \<le> 15/2"
proof
  show "snd (snd (push_pin default_settings (\<lambda>_. TransportError) pairable_host ''1234'' 1)) = [1/2, 1, 2, 4]"
    by code_simp
  have "0 \<le> sunshine_pair_backoff_base_seconds default_settings"
    "sunshine_pair_backoff_base_seconds default_settings * (2 ^ nat (max_pair_attempts default_settings - 1) - 1) = 15/2"
    by (simp_all add: default_settings_def max_pair_attempts_def)
  with push_pin_backoff_bound [of default_settings "\<lambda>_. TransportError" pairable_host "''1234''" 1]
  show "sum_list (snd (snd (push_pin default_settings (\<lambda>_. TransportError) pairable_host ''1234'' 1))) \<le> 15/2"
    by simp
qed

end
