(* ===== verification/Token_Api.thy ===== *)
theory Token_Api
  imports Reservation_Api Pairing
begin

text \<open>
  \<open>api/v1/tokens.py\<close> and \<open>api/v1/pairing.py\<close> with their schemas: the verification of connect
  tokens for internal callers, which consumes the token unless told otherwise, and the relay of a
  pairing PIN, for which the connect token is the only credential.
\<close>

subsection \<open>Verification\<close>

record token_verify_request =
  tv_token :: string
  tv_consume :: bool

definition token_verify_valid :: "token_verify_request \<Rightarrow> bool" where
  "token_verify_valid p \<longleftrightarrow> 16 \<le> length (tv_token p)"

datatype verify_reason = InvalidOrExpired | AlreadyConsumed

record token_verify_response =
  tr_valid :: bool
  tr_reason :: "verify_reason option"
  tr_user_id :: "int option"
  tr_host_id :: "int option"
  tr_reservation_id :: "int option"
  tr_expires_at :: "instant option"

definition refused_token :: "verify_reason \<Rightarrow> token_verify_response" where
  "refused_token reason = \<lparr>tr_valid = False, tr_reason = Some reason, tr_user_id = None, tr_host_id = None,
     tr_reservation_id = None, tr_expires_at = None\<rparr>"

definition accepted_token :: "token \<Rightarrow> token_verify_response" where
  "accepted_token t = \<lparr>tr_valid = True, tr_reason = None, tr_user_id = Some (t_user_id t),
     tr_host_id = t_host_id t, tr_reservation_id = t_reservation_id t,
     tr_expires_at = Some (t_expires_at t)\<rparr>"

definition audit_verify :: "string \<Rightarrow> int option \<Rightarrow> (string \<times> json) list \<Rightarrow> db \<Rightarrow> db" where
  "audit_verify action target detail =
     write_audit action None ActorSystem (Some ''token'') target AuditSuccess detail None None"

definition token_detail :: "token \<Rightarrow> (string \<times> json) list" where
  "token_detail t =
     [(''reservation_id'', case t_reservation_id t of None \<Rightarrow> JNull | Some i \<Rightarrow> JInt i),
      (''user_id'', JInt (t_user_id t))]"

text \<open>The route after the internal guard, cut where it awaits the database, so that other
  requests can come in between: first the look-up, then the rest with the row that was read.\<close>

definition finish_verify ::
  "instant \<Rightarrow> token_verify_request \<Rightarrow> token option \<Rightarrow> db \<Rightarrow> token_verify_response \<times> db" where
  "finish_verify consume_now p found d =
     (case found of
        None \<Rightarrow>
          (refused_token InvalidOrExpired,
           audit_verify ''token_verify_failure'' None [(''reason'', JStr ''invalid_or_expired'')] d)
      | Some tok \<Rightarrow>
          if tv_consume p then
            (case mark_consumed consume_now tok d of
               (consumed, d1) \<Rightarrow>
                 if \<not> consumed then
                   (refused_token AlreadyConsumed,
                    audit_verify ''token_verify_failure'' (Some (t_id tok))
                      [(''reason'', JStr ''already_consumed'')] d1)
                 else (accepted_token tok,
                       audit_verify ''token_consume'' (Some (t_id tok)) (token_detail tok) d1))
          else (accepted_token tok,
                audit_verify ''token_verify'' (Some (t_id tok)) (token_detail tok) d))"

definition verify_token_endpoint ::
  "(string \<Rightarrow> string) \<Rightarrow> settings \<Rightarrow> instant \<Rightarrow> instant \<Rightarrow> request \<Rightarrow> token_verify_request \<Rightarrow> world \<Rightarrow>
     token_verify_response answer" where
  "verify_token_endpoint sha cfg now consume_now rq p w =
     (case require_internal_token cfg rq of
        Inl err \<Rightarrow> (Inl err, w)
      | Inr _ \<Rightarrow>
          if \<not> token_verify_valid p then (Inl RequestValidation, w)
          else (case finish_verify consume_now p (verify_connect_token sha now (tv_token p) (w_db w)) (w_db w) of
                  (resp, d) \<Rightarrow> (Inr resp, w\<lparr>w_db := d\<rparr>)))"

subsection \<open>Pairing\<close>

record pairing_request =
  pr_token :: string
  pr_pin :: string

definition is_digit :: "char \<Rightarrow> bool" where
  "is_digit c \<longleftrightarrow> 48 \<le> (of_char c :: nat) \<and> (of_char c :: nat) \<le> 57"

definition pairing_request_valid :: "pairing_request \<Rightarrow> bool" where
  "pairing_request_valid p \<longleftrightarrow>
     16 \<le> length (pr_token p) \<and> length (pr_pin p) = 4 \<and> list_all is_digit (pr_pin p)"

definition pairing_status :: "pairing_error \<Rightarrow> int" where
  "pairing_status e =
     (case e of HostNotPairable \<Rightarrow> 422 | PairingUnreachable _ _ \<Rightarrow> 502 | _ \<Rightarrow> 409)"

definition pairing_failure :: "int \<Rightarrow> string \<Rightarrow> app_error" where
  "pairing_failure code reason =
     HTTPException code (DetailDict [(''error'', JStr reason), (''message'', JStr ''''),
       (''fallback'', JStr ''manual_pin'')])"

record pairing_response =
  pp_status :: string
  pp_host :: host_connection_info

text \<open>A failed pairing is audited and committed before the exception is raised.  An exception of the
  client that is not a transport error escapes the route.\<close>

definition pairing_endpoint ::
  "(string \<Rightarrow> string) \<Rightarrow> settings \<Rightarrow> instant \<Rightarrow> (int \<Rightarrow> http_answer) \<Rightarrow> pairing_request \<Rightarrow> world \<Rightarrow>
     pairing_response answer" where
  "pairing_endpoint sha cfg now answer p w =
     (if \<not> pairing_request_valid p then (Inl RequestValidation, w)
      else (case verify_connect_token sha now (pr_token p) (w_db w) of
        None \<Rightarrow> (Inl (pairing_failure 401 ''invalid_connect_token''), w)
      | Some tok \<Rightarrow>
          (case t_reservation_id tok of
             None \<Rightarrow> (Inl (pairing_failure 401 ''invalid_connect_token''), w)
           | Some rid \<Rightarrow>
               (case Option.bind (t_host_id tok) (get_host (w_db w)) of
                  None \<Rightarrow> (Inl (pairing_failure 404 ''host_missing''), w)
                | Some h \<Rightarrow>
                    (case fst (snd (push_pin cfg answer h (pr_pin p) rid)) of
                       Inl ClientCrash \<Rightarrow> (Inl RuntimeError, w)
                     | Inl e \<Rightarrow>
                         (Inl (pairing_failure (pairing_status e) (pairing_reason e)),
                          w\<lparr>w_db := write_audit ''pairing_failed'' (Some (t_user_id tok)) ActorUser
                             (Some ''host'') (Some (h_id h)) AuditFailure
                             [(''reservation_id'', JInt rid), (''reason'', JStr (pairing_reason e)),
                              (''attempts'', JInt (pairing_attempts e))] None None (w_db w)\<rparr>)
                     | Inr attempts \<Rightarrow>
                         (Inr \<lparr>pp_status = ''paired_pending'', pp_host = to_connection_info h\<rparr>,
                          w\<lparr>w_db := write_audit ''pairing_succeeded'' (Some (t_user_id tok)) ActorUser
                             (Some ''host'') (Some (h_id h)) AuditSuccess
                             [(''reservation_id'', JInt rid), (''attempts'', JInt attempts)]
                             None None (w_db w)\<rparr>))))))"

end
