(* ===== verification/Auth_Api.thy ===== *)
theory Auth_Api
  imports Web
begin

text \<open>
  Logging in and out: the mock provider (\<open>providers/mock.py\<close>), the insertion or update of the user
  row (\<open>services/user_upsert.py\<close>) and the routes of \<open>api/v1/auth.py\<close>.  Parsing the body is the
  framework's: a JSON body is \<open>None\<close> when it does not parse, a form is the list of its fields.
\<close>

subsection \<open>Providers\<close>

record user_identity =
  ui_external_id :: string
  ui_provider :: string
  ui_display_name :: string
  ui_email :: "string option"
  ui_role :: string

datatype callback_body = JsonBody "json option" | FormBody "(string \<times> string) list"

datatype callback_error = BadJson | NotAnObject | MissingFields | BadRole string

text \<open>\<open>data[key] = value\<close> for the string values, in order.\<close>

fun string_items :: "(string \<times> json) list \<Rightarrow> (string \<times> string) list" where
  "string_items [] = []"
| "string_items ((k, JStr s) # kvs) = (k, s) # string_items kvs"
| "string_items (_ # kvs) = string_items kvs"

definition callback_data :: "callback_body \<Rightarrow> callback_error + (string \<times> string) list" where
  "callback_data b =
     (case b of
        JsonBody None \<Rightarrow> Inl BadJson
      | JsonBody (Some (JObj kvs)) \<Rightarrow> Inr (string_items kvs)
      | JsonBody (Some _) \<Rightarrow> Inl NotAnObject
      | FormBody items \<Rightarrow> Inr items)"

text \<open>The last binding of a key wins.\<close>

definition data_get :: "(string \<times> string) list \<Rightarrow> string \<Rightarrow> string option" where
  "data_get data k = map_of (rev data) k"

definition or_default :: "string option \<Rightarrow> string \<Rightarrow> string" where
  "or_default x y = (case x of None \<Rightarrow> y | Some s \<Rightarrow> if s = '''' then y else s)"

definition mock_verify_callback :: "callback_body \<Rightarrow> callback_error + user_identity" where
  "mock_verify_callback b =
     (case callback_data b of
        Inl err \<Rightarrow> Inl err
      | Inr data \<Rightarrow>
          (let external_id = strip (case data_get data ''external_id'' of None \<Rightarrow> '''' | Some s \<Rightarrow> s);
               display_name = strip (case data_get data ''display_name'' of None \<Rightarrow> '''' | Some s \<Rightarrow> s);
               email = (case data_get data ''email'' of None \<Rightarrow> None | Some s \<Rightarrow> if s = '''' then None else Some s);
               role = or_default (data_get data ''role'') ''user'' in
           if external_id = '''' \<or> display_name = '''' then Inl MissingFields
           else if role \<notin> {''user'', ''admin''} then Inl (BadRole role)
           else Inr \<lparr>ui_external_id = external_id, ui_provider = ''mock'', ui_display_name = display_name,
                     ui_email = email, ui_role = role\<rparr>))"

subsection \<open>Users\<close>

text \<open>\<open>INSERT ... ON CONFLICT (provider, external_id) DO UPDATE\<close>: an existing user keeps its key,
  role and activity.  The values are first made to fit the columns of the table; one that is too long
  is refused, before any conflict is looked for.\<close>

definition identity_fits :: "user_identity \<Rightarrow> bool" where
  "identity_fits ident \<longleftrightarrow> length (ui_external_id ident) \<le> 128 \<and> length (ui_provider ident) \<le> 32
     \<and> length (ui_display_name ident) \<le> 128
     \<and> (\<forall>e \<in> set_option (ui_email ident). length e \<le> 255) \<and> length (ui_role ident) \<le> 16"

definition upsert_user :: "int \<Rightarrow> user_identity \<Rightarrow> db \<Rightarrow> app_error + (user \<times> db)" where
  "upsert_user nid ident d =
     (let same = (\<lambda>u. u_provider u = ui_provider ident \<and> u_external_id u = ui_external_id ident) in
      if \<not> identity_fits ident then Inl DataError
      else (case find same (db_users d) of
        Some u \<Rightarrow>
          (let u' = u\<lparr>u_display_name := ui_display_name ident, u_email := ui_email ident\<rparr> in
           Inr (u', d\<lparr>db_users := update_where same
             (\<lambda>u. u\<lparr>u_display_name := ui_display_name ident, u_email := ui_email ident\<rparr>) (db_users d)\<rparr>))
      | None \<Rightarrow>
          if nid \<in> u_id ` set (db_users d) then Inl (violation ''users_pkey'')
          else
            (let u' = \<lparr>u_id = nid, u_external_id = ui_external_id ident, u_provider = ui_provider ident,
                       u_display_name = ui_display_name ident, u_email = ui_email ident,
                       u_role = ui_role ident, u_is_active = True\<rparr> in
             Inr (u', d\<lparr>db_users := db_users d @ [u']\<rparr>))))"

subsection \<open>Routes\<close>

record cookie =
  ck_name :: string
  ck_value :: string
  ck_max_age :: int
  ck_httponly :: bool
  ck_secure :: bool

definition session_cookie :: "settings \<Rightarrow> string \<Rightarrow> cookie" where
  "session_cookie cfg raw = \<lparr>ck_name = session_cookie_name cfg, ck_value = raw,
     ck_max_age = session_ttl_seconds cfg, ck_httponly = True, ck_secure = session_cookie_secure cfg\<rparr>"

datatype login_body = LoginRedirect string | LoginJson user instant

record login_response =
  lr_body :: login_body
  lr_cookie :: cookie

definition callback_reason :: "callback_error \<Rightarrow> string" where
  "callback_reason e = (case e of BadJson \<Rightarrow> ''json'' | NotAnObject \<Rightarrow> ''object'' | MissingFields \<Rightarrow> ''fields''
     | BadRole r \<Rightarrow> r)"

definition mock_login_form :: "settings \<Rightarrow> app_error + unit" where
  "mock_login_form cfg =
     (if app_env cfg = Production then Inl (HTTPException 404 (DetailText ''Not Found'')) else Inr ())"

text \<open>A failed login is audited and committed before the exception is raised.\<close>

definition mock_callback ::
  "(string \<Rightarrow> string) \<Rightarrow> settings \<Rightarrow> instant \<Rightarrow> int \<Rightarrow> string \<Rightarrow> int \<Rightarrow> request \<Rightarrow> callback_body \<Rightarrow>
     world \<Rightarrow> login_response answer" where
  "mock_callback sha cfg now nid raw tid rq body w =
     (if app_env cfg = Production then (Inl (HTTPException 404 (DetailText ''Not Found'')), w)
      else (case build_provider (auth_provider cfg) of
        Inl _ \<Rightarrow> (Inl RuntimeError, w)
      | Inr _ \<Rightarrow>
          (case mock_verify_callback body of
             Inl e \<Rightarrow>
               (Inl (HTTPException 400 (DetailText (callback_reason e))),
                w\<lparr>w_db := write_audit ''login_failure'' None ActorUser None None AuditFailure
                   [(''reason'', JStr (callback_reason e))] (Some ''mock'') (rq_client_ip rq) (w_db w)\<rparr>)
           | Inr ident \<Rightarrow>
               (case upsert_user nid ident (w_db w) of
                  Inl err \<Rightarrow> (Inl err, w)
                | Inr (usr, d1) \<Rightarrow>
                    (case issue_session sha (session_ttl_seconds cfg) now raw tid usr d1 of
                       Inl err \<Rightarrow> (Inl err, w)
                     | Inr ((raw_cookie, tok), d2) \<Rightarrow>
                         (let d3 = write_audit ''login_success'' (Some (u_id usr)) ActorUser
                                (Some ''token'') (Some (t_id tok)) AuditSuccess [] (Some ''mock'')
                                (rq_client_ip rq) d2 in
                          (Inr \<lparr>lr_body = (if contains_str ''text/html'' (rq_accept rq)
                                 then LoginRedirect ''/'' else LoginJson usr (t_expires_at tok)),
                                lr_cookie = session_cookie cfg raw_cookie\<rparr>,
                           w\<lparr>w_db := d3\<rparr>)))))))"

definition provider_name :: "auth_provider \<Rightarrow> string" where
  "provider_name p = (case p of Mock \<Rightarrow> ''mock'' | Cnu_sso \<Rightarrow> ''cnu_sso'' | Cnu_mail_oauth \<Rightarrow> ''cnu_mail_oauth'')"

definition logout ::
  "(string \<Rightarrow> string) \<Rightarrow> settings \<Rightarrow> instant \<Rightarrow> request \<Rightarrow> user option \<Rightarrow> world \<Rightarrow> unit answer" where
  "logout sha cfg now rq state_user w =
     (Inr (),
      case rq_cookie rq of
        None \<Rightarrow> w
      | Some raw \<Rightarrow>
          if raw = '''' then w
          else (case revoke_session sha now raw (w_db w) of
                  (revoked, d) \<Rightarrow>
                    if revoked > 0
                    then w\<lparr>w_db := write_audit ''logout'' (map_option u_id state_user) ActorUser None None
                           AuditSuccess [] (Some (provider_name (auth_provider cfg))) (rq_client_ip rq) d\<rparr>
                    else w))"

definition me :: "settings \<Rightarrow> user option \<Rightarrow> app_error + (int \<times> user_identity)" where
  "me cfg state_user =
     map_sum id (\<lambda>u. (u_id u, \<lparr>ui_external_id = u_external_id u, ui_provider = u_provider u,
       ui_display_name = u_display_name u, ui_email = u_email u, ui_role = u_role u\<rparr>))
       (get_current_user cfg state_user)"

end
