(* ===== verification/Evolution.thy ===== *)
theory Evolution
  imports Host_Api Token_Api Auth_Api
begin

text \<open>
  How the tables may change.  \<open>evolves d d'\<close> says that \<open>d'\<close> is a later state of \<open>d\<close>: the
  constraints still hold, the audit log has only grown, no user or host has disappeared, no reservation
  or token has disappeared or changed but in the ways the program intends (a reservation is cancelled once, a token consumed or
  revoked once), and no reservation has gained a second open connect token.  Every statement and
  then every route of the program is shown to be such a step.
\<close>

named_theorems evolves_intros \<open>statements and routes are evolution steps\<close>

definition reservation_follows :: "reservation \<Rightarrow> reservation \<Rightarrow> bool" where
  "reservation_follows r r' \<longleftrightarrow>
     r' = r \<or> r_status r \<noteq> CANCELED \<and> (\<exists>t. r' = r\<lparr>r_status := CANCELED, r_canceled_at := Some t\<rparr>)"

definition token_follows :: "token \<Rightarrow> token \<Rightarrow> bool" where
  "token_follows t t' \<longleftrightarrow>
     t' = t\<lparr>t_consumed_at := t_consumed_at t', t_revoked_at := t_revoked_at t'\<rparr>
     \<and> (t_consumed_at t \<noteq> None \<longrightarrow> t_consumed_at t' = t_consumed_at t)
     \<and> (t_revoked_at t \<noteq> None \<longrightarrow> t_revoked_at t' = t_revoked_at t)"

definition open_connects :: "int \<Rightarrow> db \<Rightarrow> nat" where
  "open_connects rid d =
     count_where (\<lambda>t. t_reservation_id t = Some rid \<and> open_token Connect t) (db_tokens d)"

text \<open>No user and no host disappears.\<close>

definition ids_kept :: "db \<Rightarrow> db \<Rightarrow> bool" where
  "ids_kept d d' \<longleftrightarrow> u_id ` set (db_users d) \<subseteq> u_id ` set (db_users d')
     \<and> h_id ` set (db_hosts d) \<subseteq> h_id ` set (db_hosts d')"

lemma ids_kept_refl [simp]: "ids_kept d d"
  by (simp add: ids_kept_def)

lemma ids_kept_trans: "ids_kept a b \<Longrightarrow> ids_kept b c \<Longrightarrow> ids_kept a c"
  unfolding ids_kept_def by (elim conjE, rule conjI) (erule (1) subset_trans)+

lemma ids_kept_same:
  "db_users d' = db_users d \<Longrightarrow> h_id ` set (db_hosts d') = h_id ` set (db_hosts d) \<Longrightarrow> ids_kept d d'"
  by (simp add: ids_kept_def)

definition evolves :: "db \<Rightarrow> db \<Rightarrow> bool" where
  "evolves d d' \<longleftrightarrow> (wf_db d \<longrightarrow>
     wf_db d' \<and> ids_kept d d'
     \<and> take (length (db_audits d)) (db_audits d') = db_audits d
     \<and> (\<forall>r \<in> set (db_reservations d). \<exists>r' \<in> set (db_reservations d'). reservation_follows r r')
     \<and> (\<forall>t \<in> set (db_tokens d). \<exists>t' \<in> set (db_tokens d'). token_follows t t')
     \<and> (\<forall>rid. open_connects rid d \<le> 1 \<longrightarrow> open_connects rid d' \<le> 1))"

lemma reservation_follows_refl [simp]: "reservation_follows r r"
  by (simp add: reservation_follows_def)

lemma reservation_follows_trans:
  "reservation_follows a b \<Longrightarrow> reservation_follows b c \<Longrightarrow> reservation_follows a c"
  by (auto simp: reservation_follows_def)

lemma token_follows_refl [simp]: "token_follows t t"
  by (simp add: token_follows_def)

lemma token_follows_fields:
  assumes "token_follows t t'"
  shows "t_id t' = t_id t" "t_jti t' = t_jti t" "t_user_id t' = t_user_id t"
    "t_host_id t' = t_host_id t" "t_reservation_id t' = t_reservation_id t"
    "t_purpose t' = t_purpose t" "t_issued_at t' = t_issued_at t" "t_expires_at t' = t_expires_at t"
proof -
  obtain c v where "t' = t\<lparr>t_consumed_at := c, t_revoked_at := v\<rparr>"
    using assms unfolding token_follows_def by blast
  then show "t_id t' = t_id t" "t_jti t' = t_jti t" "t_user_id t' = t_user_id t"
    "t_host_id t' = t_host_id t" "t_reservation_id t' = t_reservation_id t"
    "t_purpose t' = t_purpose t" "t_issued_at t' = t_issued_at t" "t_expires_at t' = t_expires_at t"
    by simp_all
qed

lemma token_follows_open: "token_follows t t' \<Longrightarrow> open_token p t' \<Longrightarrow> open_token p t"
  using token_follows_fields [of t t'] unfolding open_token_def token_follows_def by metis

lemma token_follows_trans:
  assumes "token_follows a b" "token_follows b c" shows "token_follows a c"
proof -
  have "b = a\<lparr>t_consumed_at := t_consumed_at b, t_revoked_at := t_revoked_at b\<rparr>"
    "c = b\<lparr>t_consumed_at := t_consumed_at c, t_revoked_at := t_revoked_at c\<rparr>"
    using assms by (auto simp: token_follows_def)
  then have "c = a\<lparr>t_consumed_at := t_consumed_at c, t_revoked_at := t_revoked_at c\<rparr>"
    by (cases a; cases b; cases c) simp
  then show ?thesis using assms by (auto simp: token_follows_def)
qed

lemma evolves_refl [simp, evolves_intros]: "evolves d d"
  by (auto simp: evolves_def intro: reservation_follows_refl token_follows_refl)

lemma take_prefix_trans:
  assumes "take (length xs) ys = xs" "take (length ys) zs = ys"
  shows "take (length xs) zs = xs"
proof -
  have "length xs \<le> length ys" using assms(1) by (metis length_take min.cobounded2 min.commute)
  then show ?thesis using assms by (metis min.absorb1 take_take)
qed

lemma evolves_trans:
  assumes "evolves a b" "evolves b c" shows "evolves a c"
  unfolding evolves_def
proof (intro impI conjI)
  assume wf: "wf_db a"
  with assms have b: "wf_db b" by (simp add: evolves_def)
  note A = assms(1) [unfolded evolves_def, rule_format, OF wf]
    and B = assms(2) [unfolded evolves_def, rule_format, OF b]
  show "wf_db c" using B by blast
  show "ids_kept a c" using A B ids_kept_trans by blast
  show "take (length (db_audits a)) (db_audits c) = db_audits a"
    using A B take_prefix_trans by blast
  show "\<forall>r \<in> set (db_reservations a). \<exists>r' \<in> set (db_reservations c). reservation_follows r r'"
    using A B reservation_follows_trans by meson
  show "\<forall>t \<in> set (db_tokens a). \<exists>t' \<in> set (db_tokens c). token_follows t t'"
    using A B token_follows_trans by meson
  show "\<forall>rid. open_connects rid a \<le> 1 \<longrightarrow> open_connects rid c \<le> 1"
    using A B by blast
qed

text \<open>A step that only touches users, hosts and the audit log.\<close>

lemma evolves_frame:
  assumes "wf_db d \<Longrightarrow> wf_db d'" "ids_kept d d'" "db_reservations d' = db_reservations d" "db_tokens d' = db_tokens d"
    "\<exists>as. db_audits d' = db_audits d @ as"
  shows "evolves d d'"
  using assms by (auto simp: evolves_def open_connects_def intro: reservation_follows_refl token_follows_refl)

subsection \<open>Statements\<close>

lemma evolves_write_audit [evolves_intros]:
  "evolves d0 d \<Longrightarrow> evolves d0 (write_audit a ac k tk ti r de p ip d)"
  by (erule evolves_trans, rule evolves_frame)
    (auto simp: wf_write_audit intro: ids_kept_same, simp add: write_audit_def)

lemma evolves_insert_reservation:
  "insert_reservation nid uid hid s e created d = Inr d' \<Longrightarrow> evolves d d'"
  using wf_insert_reservation [of nid uid hid s e created d d']
  by (auto simp: evolves_def open_connects_def elim!: insert_reservation_Inr
      intro: reservation_follows_refl token_follows_refl ids_kept_same)

lemma evolves_insert_token:
  assumes "insert_token t d = Inr d'" "t_purpose t \<noteq> Connect"
  shows "evolves d d'"
  using wf_insert_token [OF assms(1)] insert_token_Inr(1) [OF assms(1)] assms(2)
  by (auto simp: evolves_def open_connects_def open_token_def row_simps
      intro: reservation_follows_refl token_follows_refl ids_kept_same)

lemma evolves_update_tokens:
  assumes "\<And>t. P t \<Longrightarrow> token_follows t (f t)"
    and "wf_db d \<Longrightarrow> wf_db (d\<lparr>db_tokens := update_where P f (db_tokens d)\<rparr>)"
  shows "evolves d (d\<lparr>db_tokens := update_where P f (db_tokens d)\<rparr>)"
  unfolding evolves_def
proof (intro impI conjI)
  let ?d' = "d\<lparr>db_tokens := update_where P f (db_tokens d)\<rparr>"
  show "wf_db d \<Longrightarrow> wf_db ?d'" by (rule assms(2))
  show "\<forall>t \<in> set (db_tokens d). \<exists>t' \<in> set (db_tokens ?d'). token_follows t t'"
    using assms(1) by (auto simp: bex_update_where intro!: bexI)
  have "open_connects rid ?d' \<le> open_connects rid d" for rid
  proof -
    have "count_where (\<lambda>t. t_reservation_id t = Some rid \<and> open_token Connect t)
        (update_where P f (db_tokens d))
      \<le> count_where (\<lambda>t. t_reservation_id t = Some rid \<and> open_token Connect t) (db_tokens d)"
    proof (rule count_where_update_le)
      fix t assume "P t" and new: "t_reservation_id (f t) = Some rid \<and> open_token Connect (f t)"
      note follows = assms(1) [OF \<open>P t\<close>]
      show "t_reservation_id t = Some rid \<and> open_token Connect t"
        using new token_follows_open [OF follows] token_follows_fields(5) [OF follows] by simp
    qed
    then show ?thesis by (simp add: open_connects_def)
  qed
  then show "\<forall>rid. open_connects rid d \<le> 1 \<longrightarrow> open_connects rid ?d' \<le> 1"
    using le_trans by blast
qed (auto intro: reservation_follows_refl ids_kept_same)

lemma evolves_revoke_where:
  assumes "\<And>t. P t \<Longrightarrow> t_revoked_at t = None"
  shows "evolves d (snd (revoke_where P now d))"
  using evolves_update_tokens [of P "\<lambda>t. t\<lparr>t_revoked_at := Some now\<rparr>" d] wf_revoke_where [of d P now] assms
  by (simp add: revoke_where_def token_follows_def)

lemma evolves_mark_consumed: "evolves d (snd (mark_consumed now tok d))"
  using evolves_update_tokens [of "\<lambda>t. t_id t = t_id tok \<and> t_consumed_at t = None \<and> t_revoked_at t = None"
      "\<lambda>t. t\<lparr>t_consumed_at := Some now\<rparr>" d] wf_mark_consumed [of d now tok]
  by (simp add: mark_consumed_def Let_def token_follows_def)

lemma evolves_cancel_row:
  assumes "get_reservation_row d i = Some r" "r_status r \<noteq> CANCELED"
  shows "evolves d (cancel_row i now d)"
proof -
  have "r' = r" if "wf_db d" "r' \<in> set (db_reservations d)" "r_id r' = i" for r'
    using that get_reservation_rowD [OF assms(1)]
    by (auto simp: wf_db_def reservations_wf_def distinct_map inj_on_def)
  then have "\<exists>r'' \<in> set (db_reservations (cancel_row i now d)). reservation_follows r' r''"
    if "wf_db d" "r' \<in> set (db_reservations d)" for r'
    using that assms(2)
    by (auto simp: cancel_row_def bex_update_where reservation_follows_def intro!: bexI [of _ r'])
  then show ?thesis
    using wf_cancel_row [of d i now]
    by (auto simp: evolves_def open_connects_def intro: token_follows_refl ids_kept_same)
qed

lemma ids_kept_save_host: "ids_kept d (save_host h d)"
  by (rule ids_kept_same) (simp, metis list.set_map save_host_ids)

lemma evolves_save_host:
  assumes "get_host d (h_id h) = Some h0" "h_hostname h = h_hostname h0"
  shows "evolves d (save_host h d)"
  using wf_save_host [OF _ assms] ids_kept_save_host by (intro evolves_frame) simp_all

lemma evolves_transition_host:
  assumes "transition_host h new reason b now d = (c, d', b')" "get_host d (h_id h) = Some h"
  shows "evolves d d'"
  using assms by (auto simp: transition_host_def split: if_splits intro!: evolves_write_audit evolves_save_host)

lemma evolves_insert_host: "insert_host h d = Inr d' \<Longrightarrow> evolves d d'"
  using wf_insert_host [of h d d'] insert_host_Inr(1) [of h d d']
  by (intro evolves_frame) (auto simp: ids_kept_def)

subsection \<open>Issuing tokens\<close>

lemma open_connects_after_revoke:
  "open_connects rid (snd (revoke_active_tokens_for_reservation now rid d)) = 0"
  by (auto simp: open_connects_def count_where_0_iff revoke_active_tokens_for_reservation_def token_simps
      open_token_def elim!: in_update_whereE split: if_splits)

lemma evolves_issue_connect_token:
  assumes "issue_connect_token sha cfg now rnow raw nid usr r d = Inr (res, d')"
  shows "evolves d d'"
proof -
  obtain raw' tok n where res: "res = (raw', tok, n)" by (cases res)
  note I = issue_connect_token_Inr [OF assms [unfolded res]]
  let ?d1 = "snd (revoke_active_tokens_for_reservation rnow (r_id r) d)"
  have e1: "evolves d ?d1"
    unfolding revoke_active_tokens_for_reservation_def
    by (rule evolves_revoke_where) (simp add: open_token_def)
  have tok: "t_reservation_id tok = Some (r_id r)" using I(1) by (auto simp: connect_row_def)
  have "open_connects rid d' \<le> 1" if "open_connects rid ?d1 \<le> 1" for rid
    using that tok open_connects_after_revoke [of "r_id r" rnow d]
    by (cases "rid = r_id r") (auto simp: open_connects_def I(5) row_simps)
  moreover have "wf_db ?d1 \<Longrightarrow> wf_db d'" by (rule wf_insert_token [OF I(4)])
  ultimately have "evolves ?d1 d'"
    using insert_token_Inr(1) [OF I(4)]
    by (auto simp: evolves_def intro: reservation_follows_refl token_follows_refl ids_kept_same)
  with e1 show ?thesis by (rule evolves_trans)
qed

lemma evolves_issue_agent_token:
  assumes "issue_agent_token sha cfg rnow now raw nid hid usr d = Inr (res, d')"
  shows "evolves d d'"
proof -
  obtain raw' tok n where res: "res = (raw', tok, n)" by (cases res)
  note I = issue_agent_token_Inr [OF assms [unfolded res]]
  have "evolves d (snd (revoke_active_agent_tokens rnow hid d))"
    unfolding revoke_active_agent_tokens_def
    by (rule evolves_revoke_where) (simp add: open_token_def)
  moreover have "evolves (snd (revoke_active_agent_tokens rnow hid d)) d'"
    by (rule evolves_insert_token [OF I(7)]) (use I(4) in \<open>simp add: open_token_def\<close>)
  ultimately show ?thesis by (rule evolves_trans)
qed

lemma evolves_issue_session:
  assumes "issue_session sha ttl now raw nid usr d = Inr (res, d')"
  shows "evolves d d'"
proof -
  obtain raw' tok where res: "res = (raw', tok)" by (cases res)
  note I = issue_session_Inr [OF assms [unfolded res]]
  show ?thesis by (rule evolves_insert_token [OF I(2)]) (simp add: I(6))
qed

end
