(* ===== verification/System.thy ===== *)
theory System
  imports Evolution
begin

text \<open>
  The broker as a transition system.  A state is the latest time and the world; a step is a request
  to a route, a tick of the monitor, an action of an event subscriber, or the passing of time.
  Requests are handled one after another here, each with its clock readings in order between the
  times before and after; what can happen between the awaits of one request is treated in
  \<open>Connect_Facts\<close>, \<open>Interleaving\<close> and \<open>Status_Interleaving\<close>.  The inputs of a request (user, body, keys,
  random secrets) are arbitrary.
\<close>

subsection \<open>Steps\<close>

type_synonym system = "instant \<times> world"

definition clocked :: "instant \<Rightarrow> instant \<Rightarrow> instant list \<Rightarrow> bool" where
  "clocked t t' readings \<longleftrightarrow> t \<le> t' \<and> (\<forall>x \<in> set readings. t \<le> x \<and> x \<le> t')"

definition with_broker :: "event_broker \<Rightarrow> world \<Rightarrow> world" where
  "with_broker b w = w\<lparr>w_broker := b\<rparr>"

definition monitor_step :: "settings \<Rightarrow> instant \<Rightarrow> world \<Rightarrow> world" where
  "monitor_step cfg now w =
     (case run_one_tick cfg now (w_db w) (Some (w_broker w)) of
        (_, d, b) \<Rightarrow> w\<lparr>w_db := d, w_broker := the b\<rparr>)"

inductive system_step :: "(string \<Rightarrow> string) \<Rightarrow> settings \<Rightarrow> system \<Rightarrow> system \<Rightarrow> bool" for sha cfg where
  Time: "t \<le> t' \<Longrightarrow> system_step sha cfg (t, w) (t', w)"
| Create: "clocked t t' [now1, now2] \<Longrightarrow>
    system_step sha cfg (t, w) (t', snd (create_reservation_endpoint cfg now1 now2 nid created usr p w))"
| Instant: "clocked t t' [ic_now clk, ic_quota clk, ic_issue clk, ic_revoke clk, ic_transition clk] \<Longrightarrow>
    system_step sha cfg (t, w)
      (t', snd (instant_reservation_endpoint sha cfg clk nid created raw tid usr hid w))"
| Cancel: "clocked t t' [cancel_now, now] \<Longrightarrow>
    system_step sha cfg (t, w) (t', snd (cancel_reservation_endpoint cancel_now now rid usr w))"
| Connect: "clocked t t' [now, rnow] \<Longrightarrow>
    system_step sha cfg (t, w) (t', snd (connect_token_endpoint sha cfg now rnow raw tid rid client usr w))"
| Verify: "clocked t t' [now, consume_now] \<Longrightarrow>
    system_step sha cfg (t, w) (t', snd (verify_token_endpoint sha cfg now consume_now rq tv w))"
| Pair: "clocked t t' [now] \<Longrightarrow>
    system_step sha cfg (t, w) (t', snd (pairing_endpoint sha cfg now answers pr w))"
| Enrol: "clocked t t' [rnow, now] \<Longrightarrow>
    system_step sha cfg (t, w) (t', snd (create_host_endpoint sha cfg rnow now raw hid tid usr hp w))"
| Rotate: "clocked t t' [rnow, now] \<Longrightarrow>
    system_step sha cfg (t, w) (t', snd (rotate_agent_token_endpoint sha cfg rnow now raw tid hid usr w))"
| Sunshine: "clocked t t' [] \<Longrightarrow>
    system_step sha cfg (t, w) (t', snd (set_sunshine_token_endpoint hid secret w))"
| Heartbeat: "clocked t t' [auth_now, now] \<Longrightarrow>
    system_step sha cfg (t, w) (t', snd (heartbeat_endpoint sha cfg auth_now now rq hb w))"
| Login: "clocked t t' [now] \<Longrightarrow>
    system_step sha cfg (t, w) (t', snd (mock_callback sha cfg now nid raw tid rq body w))"
| Logout: "clocked t t' [now] \<Longrightarrow>
    system_step sha cfg (t, w) (t', snd (logout sha cfg now rq su w))"
| Monitor: "clocked t t' [now] \<Longrightarrow> system_step sha cfg (t, w) (t', monitor_step cfg now w)"
| Subscribe: "t \<le> t' \<Longrightarrow>
    system_step sha cfg (t, w) (t', with_broker (snd (subscribe (w_broker w))) w)"
| Receive: "t \<le> t' \<Longrightarrow> next_event i (w_broker w) = Some (e, b) \<Longrightarrow>
    system_step sha cfg (t, w) (t', with_broker b w)"
| Unsubscribe: "t \<le> t' \<Longrightarrow>
    system_step sha cfg (t, w) (t', with_broker (unsubscribe i (w_broker w)) w)"
| Close: "t \<le> t' \<Longrightarrow>
    system_step sha cfg (t, w) (t', with_broker (close_broker (w_broker w)) w)"

inductive_cases system_stepE: "system_step sha cfg (t, w) (t', w')"

definition system_start :: "system \<Rightarrow> bool" where
  "system_start s \<longleftrightarrow> w_db (snd s) = empty_db \<and> w_broker (snd s) = new_broker
     \<and> w_metrics (snd s) = empty_metrics"

subsection \<open>Routes are evolution steps\<close>

lemma evolves_book_row:
  assumes "book_row nid created usr hid s e extra d = Inr (r, d')"
  shows "evolves d d'"
proof -
  obtain d1 where ins: "insert_reservation nid (u_id usr) hid (instant_of s) (instant_of e) created d = Inr d1"
    and d': "d' = write_audit ''reservation_create'' (Some (u_id usr)) ActorUser (Some ''reservation'')
      (Some (r_id r)) AuditSuccess
      ([(''host_id'', JInt hid), (''starts_at'', JTime s), (''ends_at'', JTime e)] @ extra)
      (Some (u_provider usr)) None d1"
    using assms by (auto simp: book_row_def split: sum.splits app_error.splits if_splits option.splits)
  show ?thesis unfolding d' by (rule evolves_write_audit [OF evolves_insert_reservation [OF ins]])
qed

lemma create_instant_InrD:
  assumes "create_instant_reservation cfg now now2 nid created usr hid d = Inr (r, d')"
  obtains s e where "book_row nid created usr hid (at_utc s) (at_utc e) [(''instant'', JBool True)] d = Inr (r, d')"
    and "instant_window now (next_reservation_start d hid now) = (s, e)"
    and "validate_quota cfg now2 d usr (at_utc s) (at_utc e) = Inr ()" and "hid \<in> h_id ` set (db_hosts d)"
    and "\<exists>h. get_host d hid = Some h \<and> h_status h = IDLE"
  using assms
  by (auto simp: create_instant_reservation_def validate_host_exists_iff
      split: sum.splits option.splits if_splits prod.splits dest: get_hostD)

lemma evolves_create: "evolves (w_db w) (w_db (snd (create_reservation_endpoint cfg n1 n2 nid created usr p w)))"
  by (auto simp: create_reservation_endpoint_def split: sum.split
      dest!: create_reservation_InrD(1) evolves_book_row)

lemma issue_response_cases:
  obtains (error) err w' where
      "issue_connect_token_response sha cfg now rnow raw tid usr r client w = (Inl err, w')" "w' = w"
  | (ok) resp w' res d1 where
      "issue_connect_token_response sha cfg now rnow raw tid usr r client w = (Inr resp, w')"
      "issue_connect_token sha cfg now rnow raw tid usr r (w_db w) = Inr (res, d1)"
      "evolves d1 (w_db w')" "w_broker w' = w_broker w"
      "db_tokens (w_db w') = db_tokens d1" "db_reservations (w_db w') = db_reservations d1"
      "db_hosts (w_db w') = db_hosts d1" "db_users (w_db w') = db_users d1"
      "ct_token resp = raw" "ct_expires_at resp = t_expires_at (fst (snd res))" "ct_reservation_id resp = r_id r"
      "\<exists>h. get_host (w_db w) (r_host_id r) = Some h \<and> ct_host resp = to_connection_info h"
proof (cases "get_host (w_db w) (r_host_id r)")
  case None
  then show ?thesis using error by (simp add: issue_connect_token_response_def)
next
  case (Some h)
  show ?thesis
  proof (cases "issue_connect_token sha cfg now rnow raw tid usr r (w_db w)")
    case (Inl err)
    with Some show ?thesis using error by (simp add: issue_connect_token_response_def)
  next
    case (Inr x)
    obtain raw' tok n d1 where x: "x = ((raw', tok, n), d1)" by (metis prod.exhaust)
    have "raw' = raw" by (rule issue_connect_token_Inr(2) [OF Inr [unfolded x]])
    then obtain resp w' where iss:
      "issue_connect_token_response sha cfg now rnow raw tid usr r client w = (Inr resp, w')"
      using Some Inr x by (auto simp: issue_connect_token_response_def Let_def)
    with Some \<open>raw' = raw\<close> show ?thesis
      by (intro ok [OF iss Inr [unfolded x]])
        (auto simp: issue_connect_token_response_def Let_def Inr x intro!: evolves_write_audit)
  qed
qed

lemma evolves_connect: "evolves (w_db w) (w_db (snd (connect_token_endpoint sha cfg now rnow raw tid rid client usr w)))"
proof -
  have "evolves (w_db w) (w_db (snd (issue_connect_token_response sha cfg now rnow raw tid usr r client w)))" for r
    by (rule issue_response_cases [of sha cfg now rnow raw tid usr r client w])
      (auto dest: evolves_issue_connect_token intro: evolves_trans)
  then show ?thesis by (auto simp: connect_token_endpoint_def split: sum.split)
qed

text \<open>The endpoint of instant use either leaves the tables alone or goes on from the booking it has made.\<close>

lemma instant_endpoint_cases:
  obtains (none) "w_db (snd (instant_reservation_endpoint sha cfg clk nid created raw tid usr hid w)) = w_db w"
  | (booked) r d1 where
      "create_instant_reservation cfg (ic_now clk) (ic_quota clk) nid created usr hid (w_db w) = Inr (r, d1)"
      "evolves d1 (w_db (snd (instant_reservation_endpoint sha cfg clk nid created raw tid usr hid w)))"
      "db_reservations (w_db (snd (instant_reservation_endpoint sha cfg clk nid created raw tid usr hid w)))
         = db_reservations d1"
proof (cases "hid \<le> 0 \<or> \<not> is_ok (create_instant_reservation cfg (ic_now clk) (ic_quota clk) nid created usr hid (w_db w))")
  case True
  then show ?thesis using none by (auto simp: instant_reservation_endpoint_def is_ok_def split: sum.splits)
next
  case False
  then obtain r d1 where c: "\<not> hid \<le> 0"
    "create_instant_reservation cfg (ic_now clk) (ic_quota clk) nid created usr hid (w_db w) = Inr (r, d1)"
    by (auto simp: is_ok_iff)
  note endpoint = instant_reservation_endpoint_def c
  let ?i = "issue_connect_token_response sha cfg (ic_issue clk) (ic_revoke clk) raw tid usr r
        (Some ''instant_use'') (w\<lparr>w_db := d1\<rparr>)"
  show ?thesis
  proof (rule issue_response_cases [of sha cfg "ic_issue clk" "ic_revoke clk" raw tid usr r
        "Some ''instant_use''" "w\<lparr>w_db := d1\<rparr>"])
    fix err w' assume "?i = (Inl err, w')"
    then show ?thesis using none by (simp add: endpoint)
  next
    fix resp w' res d2 assume i: "?i = (Inr resp, w')"
      and j: "issue_connect_token sha cfg (ic_issue clk) (ic_revoke clk) raw tid usr r (w_db (w\<lparr>w_db := d1\<rparr>)) = Inr (res, d2)"
      and k: "evolves d2 (w_db w')" "db_reservations (w_db w') = db_reservations d2"
    have e2: "evolves d1 (w_db w')" using evolves_trans [OF evolves_issue_connect_token [OF j] k(1)] by simp
    have same: "db_reservations (w_db w') = db_reservations d1"
      using issue_connect_token_Inr(6) [of sha cfg _ _ raw tid usr r _ "fst res" "fst (snd res)" "snd (snd res)" d2] j k(2) by simp
    show ?thesis
    proof (cases "get_host (w_db w') (r_host_id r)")
      case None
      with e2 same show ?thesis by (intro booked [OF c(2)]) (simp_all add: endpoint i)
    next
      case (Some h)
      obtain chg d3 b3 where t: "transition_host h IN_USE ''instant_use'' None (ic_transition clk) (w_db w') = (chg, d3, b3)"
        by (metis prod.exhaust)
      have "evolves (w_db w') d3" using evolves_transition_host [OF t] Some get_hostD [OF Some] by simp
      with Some t evolves_trans [OF e2] same transition_host_frame(2) [OF t] show ?thesis
        by (intro booked [OF c(2)]) (simp_all add: endpoint i)
    qed
  qed
qed

lemma evolves_instant:
  "evolves (w_db w) (w_db (snd (instant_reservation_endpoint sha cfg clk nid created raw tid usr hid w)))"
  by (rule instant_endpoint_cases [of sha cfg clk nid created raw tid usr hid w])
    (simp, blast elim: create_instant_InrD intro: evolves_trans evolves_book_row)

lemma cancel_evolves:
  assumes "cancel_reservation now usr rid d = Inr (r, d')"
  shows "evolves d d'"
proof -
  from assms obtain r0 where g: "get_reservation usr rid d = Inr r0"
    by (auto simp: cancel_reservation_def split: sum.splits)
  then have r0: "get_reservation_row d rid = Some r0"
    by (auto simp: get_reservation_Inr)
  show ?thesis
  proof (cases "r_status r0 = CANCELED")
    case True
    with assms g show ?thesis by (simp add: cancel_reservation_def)
  next
    case False
    have "r_id r0 = rid" using get_reservation_rowD [OF r0] by simp
    with assms g False evolves_cancel_row [OF r0 False, of now] show ?thesis
      by (auto simp: cancel_reservation_def Let_def split: option.splits intro: evolves_write_audit)
  qed
qed

lemma evolves_cancel: "evolves (w_db w) (w_db (snd (cancel_reservation_endpoint cn now rid usr w)))"
proof (cases "cancel_reservation cn usr rid (w_db w)")
  case (Inr x)
  obtain r d1 where x: "x = (r, d1)" by (cases x)
  have e1: "evolves (w_db w) d1" using Inr by (simp add: x cancel_evolves)
  have "evolves d1 (fst (snd (transition_host h IDLE ''reservation_canceled'' None now d1)))"
    if "get_host d1 (r_host_id r) = Some h" for h
    using that evolves_transition_host [of h IDLE _ None now d1 _ _ _] get_hostD [OF that]
    by (metis prod.collapse)
  then show ?thesis using Inr e1 evolves_trans [OF e1]
    by (auto simp: cancel_reservation_endpoint_def x split: option.split)
qed (simp add: cancel_reservation_endpoint_def)

lemma evolves_verify: "evolves (w_db w) (w_db (snd (verify_token_endpoint sha cfg now cn rq p w)))"
  using evolves_mark_consumed [of "w_db w"]
  by (auto simp: verify_token_endpoint_def finish_verify_def audit_verify_def split_beta
      split: sum.split option.split intro!: evolves_write_audit)

lemma evolves_pair: "evolves (w_db w) (w_db (snd (pairing_endpoint sha cfg now answers p w)))"
  by (auto simp: pairing_endpoint_def split: option.split sum.split pairing_error.split
      intro: evolves_write_audit)

lemma evolves_enrol: "evolves (w_db w) (w_db (snd (create_host_endpoint sha cfg rnow now raw hid tid usr p w)))"
  by (auto simp: create_host_endpoint_def split: sum.split option.split app_error.split prod.split
      intro: evolves_trans [OF evolves_insert_host evolves_issue_agent_token])

lemma evolves_rotate: "evolves (w_db w) (w_db (snd (rotate_agent_token_endpoint sha cfg rnow now raw tid hid usr w)))"
  by (auto simp: rotate_agent_token_endpoint_def split: sum.split option.split prod.split
      intro: evolves_issue_agent_token)

lemma evolves_sunshine: "evolves (w_db w) (w_db (snd (set_sunshine_token_endpoint hid secret w)))"
proof -
  have "evolves (w_db w) (save_host (h\<lparr>h_sunshine_broker_token := Some secret\<rparr>) (w_db w))"
    if "get_host (w_db w) hid = Some h" for h
    by (rule evolves_save_host [of _ _ h]) (use that get_hostD [OF that] in simp_all)
  then show ?thesis by (auto simp: set_sunshine_token_endpoint_def Let_def split: sum.split option.split)
qed

lemma heartbeat_cases:
  obtains (error) err where "heartbeat_endpoint sha cfg auth_now now rq p w = (Inl err, w)"
  | (ok) h tok d2 b where
      "get_agent_host sha auth_now rq (w_db w) = Inr (h, tok)" "heartbeat_valid p"
      "transition_host (heartbeat_host now p h)
         (heartbeat_status cfg now p (h_id h) (save_host (heartbeat_host now p h) (w_db w)))
         ''heartbeat'' (Some (w_broker w)) now (save_host (heartbeat_host now p h) (w_db w)) = b"
      "fst (snd b) = d2"
      "w_db (snd (heartbeat_endpoint sha cfg auth_now now rq p w)) = d2"
      "w_broker (snd (heartbeat_endpoint sha cfg auth_now now rq p w)) = the (snd (snd b))"
      "fst (heartbeat_endpoint sha cfg auth_now now rq p w)
         = Inr \<lparr>hbr_next_interval_sec = 30, hbr_server_time = now\<rparr>"
proof (cases "get_agent_host sha auth_now rq (w_db w)")
  case (Inl err)
  then show ?thesis using error by (simp add: heartbeat_endpoint_def)
next
  case (Inr x)
  obtain h tok where x: "x = (h, tok)" by (cases x)
  show ?thesis
  proof (cases "heartbeat_valid p")
    case False
    then show ?thesis using error Inr by (simp add: heartbeat_endpoint_def x)
  next
    case True
    then show ?thesis
      by (intro ok [OF Inr [unfolded x] True refl refl])
        (simp_all add: heartbeat_endpoint_def Inr x Let_def split_beta)
  qed
qed

lemma heartbeat_host_fields [simp]:
  "h_id (heartbeat_host now p h) = h_id h" "h_hostname (heartbeat_host now p h) = h_hostname h"
  "h_status (heartbeat_host now p h) = h_status h" "h_last_heartbeat_at (heartbeat_host now p h) = Some now"
  "h_sunshine_broker_token (heartbeat_host now p h) = h_sunshine_broker_token h"
  by (simp_all add: heartbeat_host_def)

lemma evolves_heartbeat: "evolves (w_db w) (w_db (snd (heartbeat_endpoint sha cfg auth_now now rq p w)))"
proof (rule heartbeat_cases [of sha cfg auth_now now rq p w])
  fix err assume "heartbeat_endpoint sha cfg auth_now now rq p w = (Inl err, w)"
  then show ?thesis by simp
next
  fix h tok d2 b
  let ?h1 = "heartbeat_host now p h" and ?d1 = "save_host (heartbeat_host now p h) (w_db w)"
  assume h: "get_agent_host sha auth_now rq (w_db w) = Inr (h, tok)"
    and t: "transition_host ?h1 (heartbeat_status cfg now p (h_id h) ?d1) ''heartbeat''
         (Some (w_broker w)) now ?d1 = b" and d2: "fst (snd b) = d2"
    and w: "w_db (snd (heartbeat_endpoint sha cfg auth_now now rq p w)) = d2"
  obtain c bk where b: "b = (c, d2, bk)" using d2 by (metis prod.collapse)
  have row: "get_host (w_db w) (h_id h) = Some h" by (rule get_agent_host_Inr(2) [OF h])
  have "evolves (w_db w) ?d1" by (rule evolves_save_host [of _ _ h]) (simp_all add: row)
  moreover have "get_host ?d1 (h_id ?h1) = Some ?h1" by (simp add: get_host_save_host row)
  ultimately show ?thesis
    unfolding w using evolves_transition_host [OF t [unfolded b]] evolves_trans by blast
qed

lemma users_distinct_update:
  assumes "distinct (map u_id us)" "distinct (map (\<lambda>u. (u_provider u, u_external_id u)) us)"
    and "\<And>u. u_id (f u) = u_id u" "\<And>u. u_provider (f u) = u_provider u"
    "\<And>u. u_external_id (f u) = u_external_id u"
  shows "users_wf (update_where P f us)"
  using assms by (simp add: users_wf_def map_update_where)

lemma wf_upsert_user:
  assumes "upsert_user nid ident d = Inr (u, d')" "wf_db d"
  shows "wf_db d'"
proof (cases "find (\<lambda>u. u_provider u = ui_provider ident \<and> u_external_id u = ui_external_id ident) (db_users d)")
  case None
  then have new: "\<forall>u \<in> set (db_users d). (u_provider u, u_external_id u) \<noteq> (ui_provider ident, ui_external_id ident)"
    by (auto simp: find_None_iff)
  from None assms(1) have "nid \<notin> u_id ` set (db_users d)"
    "d' = d\<lparr>db_users := db_users d @ [\<lparr>u_id = nid, u_external_id = ui_external_id ident,
       u_provider = ui_provider ident, u_display_name = ui_display_name ident, u_email = ui_email ident,
       u_role = ui_role ident, u_is_active = True\<rparr>]\<rparr>"
    by (auto simp: upsert_user_def Let_def split: if_splits)
  with new assms(2) show ?thesis by (auto simp: wf_db_def users_wf_def refs_wf_def)
next
  case (Some u0)
  then have d': "d' = d\<lparr>db_users := update_where
      (\<lambda>u. u_provider u = ui_provider ident \<and> u_external_id u = ui_external_id ident)
      (\<lambda>u. u\<lparr>u_display_name := ui_display_name ident, u_email := ui_email ident\<rparr>) (db_users d)\<rparr>"
    using assms(1) by (simp add: upsert_user_def Let_def split: if_splits)
  have "u_id ` set (db_users d') = u_id ` set (db_users d)"
    by (simp add: d' image_update_where)
  moreover have "users_wf (db_users d')"
    using assms(2) by (simp add: d' wf_db_def users_wf_def [of "db_users d"] users_distinct_update)
  ultimately show ?thesis using assms(2) by (simp add: d' wf_db_def refs_wf_def)
qed

lemma evolves_upsert_user: "upsert_user nid ident d = Inr (u, d') \<Longrightarrow> evolves d d'"
proof (rule evolves_frame)
  assume u: "upsert_user nid ident d = Inr (u, d')"
  then show "wf_db d \<Longrightarrow> wf_db d'" by (rule wf_upsert_user)
  show "ids_kept d d'"
    using u by (auto simp: ids_kept_def upsert_user_def Let_def image_update_where split: option.splits if_splits)
  show "db_reservations d' = db_reservations d" "db_tokens d' = db_tokens d"
    "\<exists>as. db_audits d' = db_audits d @ as"
    using u by (auto simp: upsert_user_def Let_def split: option.splits if_splits)
qed

lemma evolves_login: "evolves (w_db w) (w_db (snd (mock_callback sha cfg now nid raw tid rq body w)))"
proof -
  have "evolves d d2" if "upsert_user nid ident d = Inr (u, d1)"
    "issue_session sha ttl now raw tid u d1 = Inr (res, d2)" for ident u d d1 d2 res ttl
    using evolves_trans [OF evolves_upsert_user [OF that(1)] evolves_issue_session [OF that(2)]] .
  then show ?thesis
    by (auto simp: mock_callback_def Let_def split: sum.split prod.split intro: evolves_write_audit)
qed

lemma evolves_logout: "evolves (w_db w) (w_db (snd (logout sha cfg now rq su w)))"
proof -
  have "evolves d (snd (revoke_session sha now raw d))" for raw d
    by (auto simp: revoke_session_def intro: evolves_revoke_where)
  then show ?thesis
    by (auto simp: logout_def split_beta split: option.split intro!: evolves_write_audit)
qed

lemma evolves_tick_hosts:
  assumes "distinct (map h_id hs)" "\<forall>h \<in> set hs. get_host d (h_id h) = Some h"
    "tick_hosts now hs n d b = (n', d', b')"
  shows "evolves d d'"
  using assms
proof (induction hs arbitrary: n d b)
  case (Cons h hs)
  obtain c d1 b1 where t: "transition_host h OFFLINE ''heartbeat_stale'' b now d = (c, d1, b1)"
    by (cases "transition_host h OFFLINE ''heartbeat_stale'' b now d") auto
  have h: "get_host d (h_id h) = Some h" using Cons.prems(2) by simp
  have "\<forall>q \<in> set hs. get_host d1 (h_id q) = Some q"
    using Cons.prems(1,2) transition_host_get [OF t h] by (auto simp: image_iff)
  then have "evolves d1 d'" using Cons.IH [of d1] Cons.prems(1,3) t by (auto split: if_splits)
  with evolves_transition_host [OF t h] show ?case by (rule evolves_trans)
qed simp

lemma evolves_monitor: "evolves (w_db w) (w_db (monitor_step cfg now w))"
proof -
  obtain n d b where t: "run_one_tick cfg now (w_db w) (Some (w_broker w)) = (n, d, b)"
    by (cases "run_one_tick cfg now (w_db w) (Some (w_broker w))") auto
  have "evolves (w_db w) d" if "wf_db (w_db w)"
  proof (rule evolves_tick_hosts)
    show "distinct (map h_id (tick_rows cfg now (w_db w)))"
      using that by (simp add: tick_rows_eq wf_db_def hosts_wf_def distinct_map_filter)
    show "\<forall>h \<in> set (tick_rows cfg now (w_db w)). get_host (w_db w) (h_id h) = Some h"
      using tick_rows_get [OF that] by blast
    show "tick_hosts now (tick_rows cfg now (w_db w)) 0 (w_db w) (Some (w_broker w)) = (n, d, b)"
      using t by (simp add: run_one_tick_def)
  qed
  then have "evolves (w_db w) d" by (auto simp: evolves_def)
  then show ?thesis by (simp add: monitor_step_def t)
qed

lemmas route_evolves = evolves_create evolves_instant evolves_cancel evolves_connect evolves_verify
  evolves_pair evolves_enrol evolves_rotate evolves_sunshine evolves_heartbeat evolves_login
  evolves_logout evolves_monitor

lemma step_evolves: "system_step sha cfg (t, w) (t', w') \<Longrightarrow> evolves (w_db w) (w_db w')"
  by (erule system_stepE) (auto simp: route_evolves with_broker_def)

lemma steps_evolve: "(system_step sha cfg)\<^sup>*\<^sup>* s s' \<Longrightarrow> evolves (w_db (snd s)) (w_db (snd s'))"
proof (induction rule: rtranclp_induct)
  case (step y z)
  then show ?case using step_evolves [of sha cfg "fst y" "snd y" "fst z" "snd z"] evolves_trans by simp
qed simp

end
