(* ===== verification/System_Facts.thy ===== *)
theory System_Facts
  imports System
begin

text \<open>
  What holds in every reachable state of the broker: the constraints of the tables, at most one
  connect token that can still be used for each reservation, and the limit on each user's
  unfinished reservations.  The steps are analysed route by route; the invariant system of
  \<open>Prelude\<close> is then interpreted on the broker and gives the theorems about all its runs.
\<close>

subsection \<open>The routes that book nothing\<close>

named_theorems frame_dests \<open>parts of the state a route leaves alone\<close>

lemma issue_agent_frame [frame_dests]:
  "issue_agent_token sha cfg rnow now raw nid hid usr d = Inr (res, d') \<Longrightarrow> db_reservations d' = db_reservations d"
  using issue_agent_token_Inr(7) [of sha cfg rnow now raw nid hid usr d "fst res" "fst (snd res)" "snd (snd res)" d']
  by (auto simp: revoke_active_agent_tokens_def token_simps dest: insert_token_Inr(1))

lemma issue_session_frame [frame_dests]:
  "issue_session sha ttl now raw nid usr d = Inr (res, d') \<Longrightarrow> db_reservations d' = db_reservations d"
  using issue_session_Inr(2) [of sha ttl now raw nid usr d "fst res" "snd res" d']
  by (auto dest: insert_token_Inr(1))

lemma upsert_user_frame [frame_dests]:
  "upsert_user nid ident d = Inr (u, d') \<Longrightarrow> db_reservations d' = db_reservations d"
  by (auto simp: upsert_user_def Let_def split: option.splits if_splits)

lemma transition_frame [simp]: "db_reservations (fst (snd (transition_host h st reason b now d))) = db_reservations d"
  by (simp add: transition_host_def)

lemma tick_hosts_frame [frame_dests]:
  "tick_hosts now hs n d b = (n', d', b') \<Longrightarrow> db_reservations d' = db_reservations d"
proof (induction hs arbitrary: n d b)
  case (Cons h hs)
  then show ?case
    by (auto dest: transition_host_frame(2) split: prod.splits)
qed simp

lemma issue_response_frame [simp]:
  "db_reservations (w_db (snd (issue_connect_token_response sha cfg now rnow raw tid usr r client w)))
     = db_reservations (w_db w)"
proof (rule issue_response_cases [of sha cfg now rnow raw tid usr r client w])
  fix resp w' res d1
  assume i: "issue_connect_token_response sha cfg now rnow raw tid usr r client w = (Inr resp, w')"
    and j: "issue_connect_token sha cfg now rnow raw tid usr r (w_db w) = Inr (res, d1)"
    and k: "db_reservations (w_db w') = db_reservations d1"
  obtain raw' tok n where res: "res = (raw', tok, n)" by (cases res)
  show ?thesis using issue_connect_token_Inr(6) [OF j [unfolded res]] by (simp add: i k)
qed simp

lemma issue_response_rows:
  "issue_connect_token_response sha cfg now rnow raw tid usr r client w = (res, w') \<Longrightarrow>
   db_reservations (w_db w') = db_reservations (w_db w)"
  using issue_response_frame [of sha cfg now rnow raw tid usr r client w] by simp

lemma connect_frame: "db_reservations (w_db (snd (connect_token_endpoint sha cfg now rnow raw tid rid client usr w)))
    = db_reservations (w_db w)"
  by (simp add: connect_token_endpoint_def split: sum.split)

lemma verify_frame: "db_reservations (w_db (snd (verify_token_endpoint sha cfg now cn rq p w))) = db_reservations (w_db w)"
  by (auto simp: verify_token_endpoint_def finish_verify_def audit_verify_def token_simps split_beta
      split: sum.split option.split)

lemma pair_frame: "db_reservations (w_db (snd (pairing_endpoint sha cfg now answers p w))) = db_reservations (w_db w)"
  by (auto simp: pairing_endpoint_def split: option.split sum.split pairing_error.split)

lemma enrol_frame: "db_reservations (w_db (snd (create_host_endpoint sha cfg rnow now raw hid tid usr p w)))
    = db_reservations (w_db w)"
  by (auto simp: create_host_endpoint_def dest!: frame_dests insert_host_Inr(1)
      split: sum.split option.split app_error.split prod.split)

lemma rotate_frame: "db_reservations (w_db (snd (rotate_agent_token_endpoint sha cfg rnow now raw tid hid usr w)))
    = db_reservations (w_db w)"
  by (auto simp: rotate_agent_token_endpoint_def dest: frame_dests split: sum.split option.split prod.split)

lemma sunshine_frame: "db_reservations (w_db (snd (set_sunshine_token_endpoint hid secret w))) = db_reservations (w_db w)"
  by (simp add: set_sunshine_token_endpoint_def Let_def split: option.split sum.split)

lemma heartbeat_frame: "db_reservations (w_db (snd (heartbeat_endpoint sha cfg an now rq p w))) = db_reservations (w_db w)"
  by (rule heartbeat_cases [of sha cfg an now rq p w]) (auto dest: transition_host_frame(2))

lemma login_frame: "db_reservations (w_db (snd (mock_callback sha cfg now nid raw tid rq body w))) = db_reservations (w_db w)"
  by (auto simp: mock_callback_def Let_def dest!: frame_dests split: sum.split prod.split)

lemma logout_frame: "db_reservations (w_db (snd (logout sha cfg now rq su w))) = db_reservations (w_db w)"
  by (auto simp: logout_def revoke_session_def token_simps split_beta split: option.split)

lemma monitor_frame: "db_reservations (w_db (monitor_step cfg now w)) = db_reservations (w_db w)"
  by (auto simp: monitor_step_def run_one_tick_def dest: frame_dests split: prod.split)

lemmas route_frames = connect_frame verify_frame pair_frame enrol_frame rotate_frame sunshine_frame
  heartbeat_frame login_frame logout_frame monitor_frame

subsection \<open>The limit on unfinished reservations\<close>

text \<open>A step may raise the number of a user's unfinished reservations only up to the limit.\<close>

definition quota_step :: "settings \<Rightarrow> instant \<Rightarrow> db \<Rightarrow> db \<Rightarrow> bool" where
  "quota_step cfg t d d' \<longleftrightarrow>
     (\<forall>uid. concurrent_count d' uid t \<le> max (concurrent_count d uid t) (max_concurrent_reservations cfg))"

lemma quota_step_same: "db_reservations d' = db_reservations d \<Longrightarrow> quota_step cfg t d d'"
  by (simp add: quota_step_def concurrent_count_def)

lemma concurrent_count_later: "t \<le> t' \<Longrightarrow> concurrent_count d uid t' \<le> concurrent_count d uid t"
  by (auto simp: concurrent_count_def ends_after_def intro!: count_where_mono split: option.splits)

lemma quota_step_booking:
  assumes "book_row nid created usr hid s e extra d = Inr (r, d')" "instant_of s < instant_of e"
    and "validate_quota cfg now d usr s e = Inr ()" "now \<le> t"
  shows "quota_step cfg t d d'"
  unfolding quota_step_def
proof
  fix uid
  note b = book_row_Inr [OF assms(1,2)]
  have "concurrent_count d (u_id usr) t < max_concurrent_reservations cfg"
    using assms(3) concurrent_count_later [OF assms(4), of d "u_id usr"]
    by (auto simp: validate_quota_Inr)
  moreover have "concurrent_count d' uid t \<le> concurrent_count d uid t + (if uid = u_id usr then 1 else 0)"
    by (auto simp: concurrent_count_def b(2) row_simps) (auto simp: b(1) booked_def)
  ultimately show "concurrent_count d' uid t
      \<le> max (concurrent_count d uid t) (max_concurrent_reservations cfg)"
    by (cases "uid = u_id usr") auto
qed

lemma quota_step_cancel_row: "quota_step cfg t d (cancel_row i now d)"
  unfolding quota_step_def
proof
  fix uid
  have "concurrent_count (cancel_row i now d) uid t \<le> concurrent_count d uid t"
    unfolding concurrent_count_def cancel_row_def by (auto intro: count_where_update_le)
  then show "concurrent_count (cancel_row i now d) uid t
      \<le> max (concurrent_count d uid t) (max_concurrent_reservations cfg)" by simp
qed

lemma quota_create:
  assumes "now2 \<le> t"
  shows "quota_step cfg t (w_db w) (w_db (snd (create_reservation_endpoint cfg now1 now2 nid created usr p w)))"
proof (cases "create_reservation cfg now1 now2 nid created usr (rc_host_id p) (rc_starts_at p) (rc_ends_at p) (w_db w)")
  case (Inr x)
  obtain r d where x: "x = (r, d)" by (cases x)
  note c = create_reservation_InrD [OF Inr [unfolded x]]
  show ?thesis using Inr x quota_step_booking [OF c(1,4,3) assms]
    by (simp add: create_reservation_endpoint_def quota_step_same)
qed (simp add: create_reservation_endpoint_def quota_step_same)

lemma quota_instant:
  assumes "ic_quota clk \<le> t"
  shows "quota_step cfg t (w_db w)
    (w_db (snd (instant_reservation_endpoint sha cfg clk nid created raw tid usr hid w)))"
proof (rule instant_endpoint_cases [of sha cfg clk nid created raw tid usr hid w])
  fix r d1
  assume c: "create_instant_reservation cfg (ic_now clk) (ic_quota clk) nid created usr hid (w_db w) = Inr (r, d1)"
    and same: "db_reservations (w_db (snd (instant_reservation_endpoint sha cfg clk nid created raw tid usr hid w)))
      = db_reservations d1"
  from c have "quota_step cfg t (w_db w) d1"
  proof (rule create_instant_InrD)
    fix s e
    assume b: "book_row nid created usr hid (at_utc s) (at_utc e) [(''instant'', JBool True)] (w_db w) = Inr (r, d1)"
      and win: "instant_window (ic_now clk) (next_reservation_start (w_db w) hid (ic_now clk)) = (s, e)"
      and q: "validate_quota cfg (ic_quota clk) (w_db w) usr (at_utc s) (at_utc e) = Inr ()"
    have "s < e" by (rule instant_window_proper(3) [OF win])
    then show ?thesis by (intro quota_step_booking [OF b _ q assms]) simp
  qed
  with same show ?thesis by (simp add: quota_step_def concurrent_count_def)
qed (simp add: quota_step_same)

lemma cancel_reservation_rows:
  "cancel_reservation now usr rid d = Inr (r, d') \<Longrightarrow>
   db_reservations d' \<in> {db_reservations d, db_reservations (cancel_row rid now d)}"
  by (auto simp: cancel_reservation_def get_reservation_Inr Let_def dest!: get_reservation_rowD
      split: sum.splits option.splits if_splits)

lemma quota_cancel: "quota_step cfg t (w_db w) (w_db (snd (cancel_reservation_endpoint cn now rid usr w)))"
proof (cases "cancel_reservation cn usr rid (w_db w)")
  case (Inr x)
  obtain r d1 where x: "x = (r, d1)" by (cases x)
  have "db_reservations (w_db (snd (cancel_reservation_endpoint cn now rid usr w)))
      \<in> {db_reservations (w_db w), db_reservations (cancel_row rid cn (w_db w))}"
    using cancel_reservation_rows [OF Inr [unfolded x]]
    by (auto simp: cancel_reservation_endpoint_def Inr x split: option.split)
  with quota_step_cancel_row [of cfg t "w_db w" rid cn] show ?thesis
    by (auto simp: quota_step_def concurrent_count_def)
qed (simp add: cancel_reservation_endpoint_def quota_step_same)

lemma step_quota: "system_step sha cfg (t, w) (t', w') \<Longrightarrow> quota_step cfg t' (w_db w) (w_db w')"
  by (erule system_stepE)
    (auto simp: quota_create quota_instant quota_cancel route_frames quota_step_same with_broker_def clocked_def)

subsection \<open>The event broker\<close>

lemma transition_broker:
  "transition_host h st reason b now d = (c, d', b') \<Longrightarrow> pred_option broker_ok b \<Longrightarrow> pred_option broker_ok b'"
  by (auto simp: transition_host_def option.pred_map broker_ok_publish pred_option_def split: if_splits)

lemma tick_hosts_broker:
  "tick_hosts now hs n d b = (n', d', b') \<Longrightarrow> pred_option broker_ok b \<Longrightarrow> pred_option broker_ok b'"
proof (induction hs arbitrary: n d b)
  case (Cons h hs)
  obtain c d1 b1 where t: "transition_host h OFFLINE ''heartbeat_stale'' b now d = (c, d1, b1)"
    by (cases "transition_host h OFFLINE ''heartbeat_stale'' b now d") auto
  from Cons.prems(2) have "pred_option broker_ok b1" by (rule transition_broker [OF t])
  with Cons.prems(1) show ?case by (auto simp: t intro: Cons.IH)
qed simp

lemma tick_hosts_some: "tick_hosts now hs n d b = (n', d', b') \<Longrightarrow> b' = None \<longleftrightarrow> b = None"
proof (induction hs arbitrary: n d b)
  case (Cons h hs)
  obtain c d1 b1 where t: "transition_host h OFFLINE ''heartbeat_stale'' b now d = (c, d1, b1)"
    by (cases "transition_host h OFFLINE ''heartbeat_stale'' b now d") auto
  from Cons.prems have "tick_hosts now hs (if c then n + 1 else n) d1 b1 = (n', d', b')" by (simp add: t)
  then have "b' = None \<longleftrightarrow> b1 = None" by (rule Cons.IH)
  with transition_host_frame(6) [OF t] show ?case by simp
qed simp

lemma pred_option_the: "pred_option P x \<Longrightarrow> x \<noteq> None \<Longrightarrow> P (the x)"
  by (cases x) auto

lemma monitor_broker: "broker_ok (w_broker w) \<Longrightarrow> broker_ok (w_broker (monitor_step cfg now w))"
proof -
  assume ok: "broker_ok (w_broker w)"
  obtain n d b where t: "tick_hosts now (tick_rows cfg now (w_db w)) 0 (w_db w) (Some (w_broker w)) = (n, d, b)"
    by (metis prod.exhaust)
  have "b \<noteq> None" using tick_hosts_some [OF t] by simp
  with tick_hosts_broker [OF t] ok show ?thesis
    by (auto simp: monitor_step_def run_one_tick_def t pred_option_the)
qed

lemma heartbeat_broker:
  "broker_ok (w_broker w) \<Longrightarrow> broker_ok (w_broker (snd (heartbeat_endpoint sha cfg an now rq p w)))"
proof (rule heartbeat_cases [of sha cfg an now rq p w])
  fix h tok d2 b
  let ?h1 = "heartbeat_host now p h" and ?d1 = "save_host (heartbeat_host now p h) (w_db w)"
  assume ok: "broker_ok (w_broker w)"
    and t: "transition_host ?h1 (heartbeat_status cfg now p (h_id h) ?d1) ''heartbeat''
         (Some (w_broker w)) now ?d1 = b"
    and wb: "w_broker (snd (heartbeat_endpoint sha cfg an now rq p w)) = the (snd (snd b))"
  obtain c d' b' where b: "b = (c, d', b')" by (metis prod.exhaust)
  show ?thesis
    using transition_broker [OF t [unfolded b]] transition_host_frame(6) [OF t [unfolded b]] ok
    by (auto simp: wb b pred_option_the)
qed simp

lemma issue_response_broker:
  "issue_connect_token_response sha cfg now rnow raw tid usr r client w = (res, w') \<Longrightarrow> w_broker w' = w_broker w"
  by (rule issue_response_cases [of sha cfg now rnow raw tid usr r client w]) auto

lemma route_broker:
  "w_broker (snd (create_reservation_endpoint cfg now1 now2 nid created usr p w)) = w_broker w"
  "w_broker (snd (cancel_reservation_endpoint cn now rid usr w)) = w_broker w"
  "w_broker (snd (connect_token_endpoint sha cfg now rnow raw tid rid client usr w)) = w_broker w"
  "w_broker (snd (verify_token_endpoint sha cfg now cn rq tv w)) = w_broker w"
  "w_broker (snd (pairing_endpoint sha cfg now answers pr w)) = w_broker w"
  "w_broker (snd (create_host_endpoint sha cfg rnow now raw hid tid usr hp w)) = w_broker w"
  "w_broker (snd (rotate_agent_token_endpoint sha cfg rnow now raw tid hid usr w)) = w_broker w"
  "w_broker (snd (set_sunshine_token_endpoint hid secret w)) = w_broker w"
  "w_broker (snd (mock_callback sha cfg now nid raw tid rq body w)) = w_broker w"
  "w_broker (snd (logout sha cfg now rq su w)) = w_broker w"
  by (auto simp: create_reservation_endpoint_def cancel_reservation_endpoint_def connect_token_endpoint_def
      verify_token_endpoint_def pairing_endpoint_def create_host_endpoint_def rotate_agent_token_endpoint_def
      set_sunshine_token_endpoint_def mock_callback_def logout_def Let_def issue_response_broker [OF prod.collapse [symmetric]]
      split: sum.split option.split prod.split app_error.split pairing_error.split)

lemma instant_broker:
  "w_broker (snd (instant_reservation_endpoint sha cfg clk nid created raw tid usr hid w)) = w_broker w"
  by (auto simp: instant_reservation_endpoint_def dest!: issue_response_broker
      split: sum.split option.split prod.split)

lemma step_broker:
  "system_step sha cfg (t, w) (t', w') \<Longrightarrow> broker_ok (w_broker w) \<Longrightarrow> broker_ok (w_broker w')"
  by (erule system_stepE)
    (auto simp: route_broker instant_broker heartbeat_broker monitor_broker with_broker_def
      intro: broker_ok_subscribe broker_ok_unsubscribe broker_ok_close broker_ok_next_event)

subsection \<open>The invariant\<close>

definition system_inv :: "settings \<Rightarrow> system \<Rightarrow> bool" where
  "system_inv cfg s \<longleftrightarrow>
     (case s of (t, w) \<Rightarrow>
        wf_db (w_db w) \<and> broker_ok (w_broker w) \<and> (\<forall>rid. open_connects rid (w_db w) \<le> 1)
        \<and> (\<forall>uid. concurrent_count (w_db w) uid t \<le> max 0 (max_concurrent_reservations cfg)))"

lemma step_time: "system_step sha cfg (t, w) (t', w') \<Longrightarrow> t \<le> t'"
  by (erule system_stepE) (simp_all add: clocked_def)

lemma system_inv_start: "system_start s \<Longrightarrow> system_inv cfg s"
  by (cases s) (simp add: system_start_def system_inv_def open_connects_def concurrent_count_def row_simps,
      simp add: empty_db_def row_simps)

lemma system_inv_step: "system_inv cfg s \<Longrightarrow> system_step sha cfg s s' \<Longrightarrow> system_inv cfg s'"
proof -
  obtain t w t' w' where s: "s = (t, w)" "s' = (t', w')" by (cases s, cases s')
  assume inv: "system_inv cfg s" and step: "system_step sha cfg s s'"
  note step = step [unfolded s]
  have "concurrent_count (w_db w') uid t' \<le> max 0 (max_concurrent_reservations cfg)" for uid
  proof -
    have "concurrent_count (w_db w) uid t \<le> max 0 (max_concurrent_reservations cfg)"
      using inv by (simp add: s system_inv_def)
    moreover have "concurrent_count (w_db w') uid t'
        \<le> max (concurrent_count (w_db w) uid t') (max_concurrent_reservations cfg)"
      using step_quota [OF step] by (simp add: quota_step_def)
    ultimately show ?thesis using concurrent_count_later [OF step_time [OF step], of "w_db w" uid] by linarith
  qed
  with inv step_evolves [OF step] step_broker [OF step] show ?thesis
    by (auto simp: s system_inv_def evolves_def)
qed

interpretation broker_system: invariant_system system_start "system_step sha cfg" "system_inv cfg"
  for sha cfg
  by unfold_locales (rule system_inv_start, assumption, rule system_inv_step)

subsection \<open>Runs\<close>

text \<open>A run with a login, the enrolment of a host and a booking; it shows that the theorems below
  speak about states in which something has happened.\<close>

definition run_start :: world where
  "run_start = \<lparr>w_db = empty_db, w_broker = new_broker, w_metrics = empty_metrics\<rparr>"

definition run_login :: world where
  "run_login = snd (mock_callback (\<lambda>s. s) default_settings 0 1 ''cookie'' 1 (sample_request '''')
     (FormBody [(''external_id'', ''20260001''), (''display_name'', ''Kim''), (''role'', ''admin'')]) run_start)"

definition run_user :: user where
  "run_user = \<lparr>u_id = 1, u_external_id = ''20260001'', u_provider = ''mock'', u_display_name = ''Kim'',
     u_email = None, u_role = ''admin'', u_is_active = True\<rparr>"

definition run_enrol :: world where
  "run_enrol = snd (create_host_endpoint (\<lambda>s. s) default_settings 0 0 ''agent'' 1 2 run_user
     \<lparr>hp_hostname = ''pc-1'', hp_display_name = ''PC 1'', hp_location = None, hp_ip_address = Some ''10.0.0.1'',
      hp_sunshine_port = 47984, hp_gpu_model = None, hp_sunshine_broker_token = None\<rparr> run_login)"

definition run_booking :: world where
  "run_booking = snd (create_reservation_endpoint default_settings 0 0 1 0 run_user
     \<lparr>rc_host_id = 1, rc_starts_at = at_utc hour_us, rc_ends_at = at_utc (2 * hour_us)\<rparr> run_enrol)"

definition run_connect :: world where
  "run_connect = snd (connect_token_endpoint (\<lambda>s. s) default_settings hour_us hour_us ''a-connect-secret'' 3 1
     None run_user run_booking)"

definition run_again :: world where
  "run_again = snd (connect_token_endpoint (\<lambda>s. s) default_settings hour_us hour_us ''second-secret'' 4 1
     None run_user run_connect)"

definition run_cancel :: world where
  "run_cancel = snd (cancel_reservation_endpoint hour_us hour_us 1 run_user run_again)"

lemma run_steps:
  "system_step (\<lambda>s. s) default_settings (0, run_start) (0, run_login)"
  "system_step (\<lambda>s. s) default_settings (0, run_login) (0, run_enrol)"
  "system_step (\<lambda>s. s) default_settings (0, run_enrol) (0, run_booking)"
  "system_step (\<lambda>s. s) default_settings (0, run_booking) (hour_us, run_connect)"
  "system_step (\<lambda>s. s) default_settings (hour_us, run_connect) (hour_us, run_again)"
  "system_step (\<lambda>s. s) default_settings (hour_us, run_again) (hour_us, run_cancel)"
  unfolding run_login_def run_enrol_def run_booking_def run_connect_def run_again_def run_cancel_def
  by (rule Login Enrol Create Connect Cancel, simp add: clocked_def)+

lemma run_reach:
  "reach system_start (system_step (\<lambda>s. s) default_settings) (0, run_booking)"
  "reach system_start (system_step (\<lambda>s. s) default_settings) (hour_us, run_connect)"
  "reach system_start (system_step (\<lambda>s. s) default_settings) (hour_us, run_again)"
  "reach system_start (system_step (\<lambda>s. s) default_settings) (hour_us, run_cancel)"
proof -
  have "reach system_start (system_step (\<lambda>s. s) default_settings) (0, run_start)"
    by (rule reach_init) (simp add: system_start_def run_start_def)
  then show r: "reach system_start (system_step (\<lambda>s. s) default_settings) (0, run_booking)"
    using run_steps by (blast intro: reach_step)
  from r run_steps(4) show c: "reach system_start (system_step (\<lambda>s. s) default_settings) (hour_us, run_connect)"
    by (rule reach_step)
  from c run_steps(5) show a: "reach system_start (system_step (\<lambda>s. s) default_settings) (hour_us, run_again)"
    by (rule reach_step)
  from a run_steps(6) show "reach system_start (system_step (\<lambda>s. s) default_settings) (hour_us, run_cancel)"
    by (rule reach_step)
qed

subsection \<open>What holds in every reachable state\<close>

lemma active_at_le_1:
  assumes "reservations_wf rs"
  shows "count_where (\<lambda>r. reservation_active (r_status r) \<and> r_host_id r = hid
      \<and> range_contains (r_time_range r) u) rs \<le> 1"
  using assms
proof (induction rs)
  case (Cons r rs)
  let ?P = "\<lambda>r. reservation_active (r_status r) \<and> r_host_id r = hid \<and> range_contains (r_time_range r) u"
  have wf: "reservations_wf rs" using Cons.prems by (auto simp: reservations_wf_def exclusive_def)
  show ?case
  proof (cases "?P r")
    case True
    have "\<not> ?P q" if "q \<in> set rs" for q
    proof
      assume q: "?P q"
      have "r_id r \<noteq> r_id q" using Cons.prems that by (auto simp: reservations_wf_def)
      with Cons.prems True q that have "\<not> range_overlaps (r_time_range r) (r_time_range q)"
        by (simp add: reservations_wf_def exclusive_def)
      moreover have "range_ok (r_time_range r)" "range_ok (r_time_range q)"
        using Cons.prems that by (simp_all add: reservations_wf_def)
      ultimately show False using True q range_overlaps_common by blast
    qed
    then have "count_where ?P rs = 0" by (simp add: count_where_0_iff)
    then show ?thesis by (simp add: row_simps)
  next
    case False
    then have "count_where ?P (r # rs) = count_where ?P rs" by (auto simp: row_simps)
    with Cons.IH [OF wf] show ?thesis by simp
  qed
qed (simp add: row_simps)

lemma dead_token_follows:
  assumes "token_follows tok tok'"
    and "t_consumed_at tok \<noteq> None \<or> t_revoked_at tok \<noteq> None \<or> t_expires_at tok \<le> now"
  shows "\<not> token_live p now tok'"
  using assms token_follows_fields(8) [OF assms(1)] by (auto simp: token_live_def token_follows_def)

lemma dead_token_not_live:
  assumes "wf_db d" and "evolves d d'" and "tok \<in> set (db_tokens d)"
    and "t_consumed_at tok \<noteq> None \<or> t_revoked_at tok \<noteq> None \<or> t_expires_at tok \<le> now"
    and "x \<in> set (db_tokens d')" "t_jti x = t_jti tok"
  shows "\<not> token_live p now x"
proof -
  have d': "wf_db d'" "\<exists>t' \<in> set (db_tokens d'). token_follows tok t'"
    using assms(1-3) by (auto simp: evolves_def)
  then obtain t' where t': "t' \<in> set (db_tokens d')" "token_follows tok t'" by blast
  have "t' = x"
    using d'(1) t'(1) assms(5,6) token_follows_fields(2) [OF t'(2)]
    by (auto simp: wf_db_def tokens_wf_def distinct_map inj_on_def)
  with dead_token_follows [OF t'(2) assms(4)] show ?thesis by simp
qed

lemma reach_wf: "reach system_start (system_step sha cfg) (t, w) \<Longrightarrow> wf_db (w_db w)"
  by (drule broker_system.inv_reach) (simp add: system_inv_def)

lemma steps_time: "(system_step sha cfg)\<^sup>*\<^sup>* s s' \<Longrightarrow> fst s \<le> fst s'"
proof (induction rule: rtranclp_induct)
  case (step y z)
  then show ?case using step_time [of sha cfg "fst y" "snd y" "fst z" "snd z"] by simp
qed simp

text \<open>No double booking: in every state the broker can reach, at any instant, at most one active
  reservation of a host covers the instant.\<close>
theorem no_double_booking:
  assumes "reach system_start (system_step sha cfg) (t, w)"
  shows "count_where (\<lambda>r. reservation_active (r_status r) \<and> r_host_id r = hid
      \<and> range_contains (r_time_range r) u) (db_reservations (w_db w)) \<le> 1"
  using reach_wf [OF assms] by (intro active_at_le_1) (simp add: wf_db_def)

theorem no_double_booking_witness:
  "db_reservations (w_db run_booking) \<noteq> []
   \<and> count_where (\<lambda>r. reservation_active (r_status r) \<and> r_host_id r = 1
       \<and> range_contains (r_time_range r) (hour_us + min_us)) (db_reservations (w_db run_booking)) \<le> 1"
  by (rule conjI, code_simp, rule no_double_booking [OF run_reach(1)])





text \<open>C16: A secret whose token has been consumed, withdrawn or has expired opens nothing at any later
  time: no continuation of the run makes the broker accept it again, as a connect token, as an
  agent token or as a session cookie.\<close>
theorem dead_secret_stays_dead:
  assumes "reach system_start (system_step sha cfg) (t, w)" and "tok \<in> set (db_tokens (w_db w))"
    and "t_consumed_at tok \<noteq> None \<or> t_revoked_at tok \<noteq> None \<or> t_expires_at tok \<le> t"
    and "(system_step sha cfg)\<^sup>*\<^sup>* (t, w) (t', w')" and "t' \<le> now" and "sha raw = t_jti tok"
  shows "verify_connect_token sha now raw (w_db w') = None
    \<and> verify_agent_token sha now raw (w_db w') = None \<and> verify_session sha now raw (w_db w') = None"
proof -
  have now: "t_consumed_at tok \<noteq> None \<or> t_revoked_at tok \<noteq> None \<or> t_expires_at tok \<le> now"
    using assms(3,5) steps_time [OF assms(4)] by auto
  have "\<not> token_live p now x" if "x \<in> set (db_tokens (w_db w'))" "t_jti x = sha raw" for p x
    using dead_token_not_live [OF reach_wf [OF assms(1)] _ assms(2) now that(1)] steps_evolve [OF assms(4)]
      that(2) assms(6) by simp
  then have "lookup_token sha p now raw (w_db w') = None"
    "\<not> (\<exists>x \<in> set (db_tokens (w_db w')). t_jti x = sha raw \<and> token_live p now x)" for p
    by (auto simp: lookup_token_def find_None_iff)
  then show ?thesis
    by (auto simp: verify_connect_token_def verify_agent_token_def verify_session_def find_None_iff)
qed

theorem dead_secret_stays_dead_witness:
  "verify_connect_token (\<lambda>s. s) hour_us ''a-connect-secret'' (w_db run_connect) \<noteq> None
   \<and> verify_connect_token (\<lambda>s. s) hour_us ''a-connect-secret'' (w_db run_cancel) = None"
proof
  show "verify_connect_token (\<lambda>s. s) hour_us ''a-connect-secret'' (w_db run_connect) \<noteq> None" by code_simp
  let ?tok = "db_tokens (w_db run_again) ! 2"
  have tok: "?tok \<in> set (db_tokens (w_db run_again))" by code_simp
  have dead: "t_consumed_at ?tok \<noteq> None \<or> t_revoked_at ?tok \<noteq> None \<or> t_expires_at ?tok \<le> hour_us" by code_simp
  have jti: "''a-connect-secret'' = t_jti ?tok" by code_simp
  have "(system_step (\<lambda>s. s) default_settings)\<^sup>*\<^sup>* (hour_us, run_again) (hour_us, run_cancel)"
    using run_steps(6) by (rule r_into_rtranclp)
  from dead_secret_stays_dead [OF run_reach(3) tok dead this order_refl jti]
  show "verify_connect_token (\<lambda>s. s) hour_us ''a-connect-secret'' (w_db run_cancel) = None" by simp
qed

text \<open>C26: The audit log is append-only: whatever the broker does, the entries written so far stay,
  unchanged and in order.\<close>
theorem audit_log_append_only:
  assumes "reach system_start (system_step sha cfg) (t, w)"
    and "(system_step sha cfg)\<^sup>*\<^sup>* (t, w) (t', w')"
  shows "take (length (db_audits (w_db w))) (db_audits (w_db w')) = db_audits (w_db w)"
  using steps_evolve [OF assms(2)] reach_wf [OF assms(1)] by (simp add: evolves_def)

theorem audit_log_append_only_witness:
  "length (db_audits (w_db run_booking)) = 2 \<and> length (db_audits (w_db run_connect)) = 3
   \<and> take 2 (db_audits (w_db run_connect)) = db_audits (w_db run_booking)"
proof -
  have n: "length (db_audits (w_db run_booking)) = 2" "length (db_audits (w_db run_connect)) = 3"
    by code_simp+
  have "(system_step (\<lambda>s. s) default_settings)\<^sup>*\<^sup>* (0, run_booking) (hour_us, run_connect)"
    using run_steps(4) by (rule r_into_rtranclp)
  from audit_log_append_only [OF run_reach(1) this] n show ?thesis by simp
qed

text \<open>A cancelled reservation is never revived: its row stays as it is in every continuation.\<close>
theorem cancelled_is_final:
  assumes "reach system_start (system_step sha cfg) (t, w)"
    and "r \<in> set (db_reservations (w_db w))" and "r_status r = CANCELED"
    and "(system_step sha cfg)\<^sup>*\<^sup>* (t, w) (t', w')"
  shows "get_reservation_row (w_db w') (r_id r) = Some r"
proof -
  have "wf_db (w_db w')" "\<exists>r' \<in> set (db_reservations (w_db w')). reservation_follows r r'"
    using steps_evolve [OF assms(4)] reach_wf [OF assms(1)] assms(2) by (auto simp: evolves_def)
  with assms(3) show ?thesis
    by (auto simp: reservation_follows_def get_reservation_row_def wf_db_def reservations_wf_def fetch_Some_iff)
qed

theorem cancelled_is_final_witness:
  "\<exists>r. r_status r = CANCELED \<and> get_reservation_row (w_db run_cancel) 1 = Some r
     \<and> (system_step (\<lambda>s. s) default_settings)\<^sup>*\<^sup>* (hour_us, run_cancel) (2 * hour_us, run_cancel)"
proof -
  let ?r = "hd (db_reservations (w_db run_cancel))"
  have r: "?r \<in> set (db_reservations (w_db run_cancel))" and c: "r_status ?r = CANCELED" and i: "r_id ?r = 1"
    by code_simp+
  have "system_step (\<lambda>s. s) default_settings (hour_us, run_cancel) (2 * hour_us, run_cancel)"
    by (rule Time) simp
  then have s: "(system_step (\<lambda>s. s) default_settings)\<^sup>*\<^sup>* (hour_us, run_cancel) (2 * hour_us, run_cancel)"
    by (rule r_into_rtranclp)
  from cancelled_is_final [OF run_reach(4) r c s] c i s show ?thesis by auto
qed

text \<open>The queue of no event subscriber ever holds more than 100 events.\<close>
theorem event_queues_bounded:
  assumes "reach system_start (system_step sha cfg) (t, w)"
  shows "length (eb_queues (w_broker w) i) \<le> 100"
  using broker_system.inv_reach [OF assms] by (simp add: system_inv_def broker_ok_def QUEUE_MAXSIZE_def)

theorem event_queues_bounded_witness: "length (eb_queues (w_broker run_connect) 0) \<le> 100"
  by (rule event_queues_bounded [OF run_reach(2)])

end
