(* ===== verification/Host_Facts.thy ===== *)
theory Host_Facts
  imports System_Facts
begin

text \<open>
  What the host and agent routes promise, together with the monitor: what a heartbeat does to its
  host and for how long it keeps the host from being taken offline, when an enrolment succeeds,
  that rotating a token locks the old agent out, and which hosts are listed for a slot.
\<close>

subsection \<open>Heartbeats\<close>

lemma status_indicator:
  "m_status_info (set_host_status_indicator name st m) (name', s) =
     (if name' = name then Some (if s = st then 1 else 0) else m_status_info m (name', s))"
  by (cases s) (auto simp: set_host_status_indicator_def)

lemma heartbeat_metrics_status:
  "m_status_info (heartbeat_metrics p name st m) (name', s) =
     (if name' = name then Some (if s = st then 1 else 0) else m_status_info m (name', s))"
  by (simp add: heartbeat_metrics_def Let_def status_indicator)

lemma heartbeat_status_online:
  "0 \<le> host_offline_after_seconds cfg \<Longrightarrow> heartbeat_status cfg now p hid d \<noteq> OFFLINE"
  by (simp add: heartbeat_status_def evaluate_host_status_def split: option.split)

lemma heartbeat_status_frame:
  "db_reservations d' = db_reservations d \<Longrightarrow> heartbeat_status cfg now p hid d' = heartbeat_status cfg now p hid d"
  by (simp add: heartbeat_status_def get_active_reservation_for_host_def)

lemma heartbeat_Inr:
  assumes "heartbeat_endpoint sha cfg an now rq p w = (Inr resp, w')"
  obtains h tok where "get_agent_host sha an rq (w_db w) = Inr (h, tok)" "heartbeat_valid p"
    "resp = \<lparr>hbr_next_interval_sec = 30, hbr_server_time = now\<rparr>"
    "\<And>i. get_host (w_db w') i = (if i = h_id h
       then Some ((heartbeat_host now p h)\<lparr>h_status := heartbeat_status cfg now p (h_id h) (w_db w)\<rparr>)
       else get_host (w_db w) i)"
    "db_reservations (w_db w') = db_reservations (w_db w)" "db_tokens (w_db w') = db_tokens (w_db w)"
    "w_metrics w' = heartbeat_metrics p (h_hostname h) (heartbeat_status cfg now p (h_id h) (w_db w)) (w_metrics w)"
proof -
  from assms obtain h tok where a: "get_agent_host sha an rq (w_db w) = Inr (h, tok)" and v: "heartbeat_valid p"
    by (auto simp: heartbeat_endpoint_def split: sum.splits if_splits)
  let ?h1 = "heartbeat_host now p h" and ?d1 = "save_host (heartbeat_host now p h) (w_db w)"
  have st: "heartbeat_status cfg now p (h_id h) ?d1 = heartbeat_status cfg now p (h_id h) (w_db w)"
    by (rule heartbeat_status_frame) simp
  obtain c d2 b where t: "transition_host ?h1 (heartbeat_status cfg now p (h_id h) (w_db w)) ''heartbeat''
      (Some (w_broker w)) now ?d1 = (c, d2, b)" by (metis prod.exhaust)
  have row: "get_host (w_db w) (h_id h) = Some h" by (rule get_agent_host_Inr(2) [OF a])
  have g1: "get_host ?d1 i = (if i = h_id h then Some ?h1 else get_host (w_db w) i)" for i
    by (simp add: get_host_save_host row)
  have g: "get_host d2 i = (if i = h_id h
       then Some (?h1\<lparr>h_status := heartbeat_status cfg now p (h_id h) (w_db w)\<rparr>) else get_host (w_db w) i)" for i
    using transition_host_get [OF t, of i] g1 by simp
  from assms show ?thesis
    using transition_host_frame [OF t] g
    by (intro that [OF a v]) (auto simp: heartbeat_endpoint_def a v Let_def st t)
qed

text \<open>An accepted heartbeat records its time and its metrics in the row of the agent's own host
  only, gives the host the status of the evaluation, which is never offline, and sets exactly this
  status in the gauge.\<close>
theorem heartbeat_spec:
  assumes "heartbeat_endpoint sha cfg an now rq p w = (Inr resp, w')" and "0 \<le> host_offline_after_seconds cfg"
  shows "\<exists>h tok st. get_agent_host sha an rq (w_db w) = Inr (h, tok)
    \<and> st = evaluate_host_status cfg now (Some now)
        (get_active_reservation_for_host (w_db w) (h_id h) now \<noteq> None) (hb_sunshine_running p)
        (Some (hb_cpu_pct p)) (Some (hb_mem_pct p))
    \<and> st \<noteq> OFFLINE
    \<and> get_host (w_db w') (h_id h) = Some ((heartbeat_host now p h)\<lparr>h_status := st\<rparr>)
    \<and> (get_host (w_db w'))(h_id h := None) = (get_host (w_db w))(h_id h := None)
    \<and> (\<lambda>s. m_status_info (w_metrics w') (h_hostname h, s)) = (\<lambda>s. Some (if s = st then 1 else 0))"
  using assms(1)
proof (rule heartbeat_Inr)
  fix h :: host and tok
  let ?st = "heartbeat_status cfg now p (h_id h) (w_db w)"
  assume a: "get_agent_host sha an rq (w_db w) = Inr (h, tok)"
    and g: "\<And>i. get_host (w_db w') i = (if i = h_id h then Some ((heartbeat_host now p h)\<lparr>h_status := ?st\<rparr>)
       else get_host (w_db w) i)"
    and m: "w_metrics w' = heartbeat_metrics p (h_hostname h) ?st (w_metrics w)"
  show ?thesis
    using a g heartbeat_status_online [OF assms(2), of now p "h_id h" "w_db w"]
    by (intro exI [of _ h] exI [of _ tok] exI [of _ ?st])
      (simp add: fun_eq_iff m heartbeat_metrics_status heartbeat_status_def)
qed

text \<open>C18: A heartbeat protects its host from the monitor for exactly the configured time: a tick within
  it leaves the status of the heartbeat, the first tick after it takes the host offline.\<close>
theorem heartbeat_protects_from_monitor:
  assumes "wf_db (w_db w)" and "heartbeat_endpoint sha cfg an now rq p w = (Inr resp, w')"
    and "0 \<le> host_offline_after_seconds cfg"
  shows "\<exists>h tok. get_agent_host sha an rq (w_db w) = Inr (h, tok)
    \<and> map_option h_status (get_host (w_db (monitor_step cfg tick w')) (h_id h)) =
        Some (if tick - now \<le> host_offline_after_seconds cfg * sec_us
              then heartbeat_status cfg now p (h_id h) (w_db w) else OFFLINE)"
  using assms(2)
proof (rule heartbeat_Inr)
  fix h :: host and tok
  let ?st = "heartbeat_status cfg now p (h_id h) (w_db w)"
  assume a: "get_agent_host sha an rq (w_db w) = Inr (h, tok)"
    and g: "\<And>i. get_host (w_db w') i = (if i = h_id h then Some ((heartbeat_host now p h)\<lparr>h_status := ?st\<rparr>)
       else get_host (w_db w) i)"
  have wf: "wf_db (w_db w')"
    using evolves_heartbeat [of w sha cfg an now rq p] assms(1,2) by (simp add: evolves_def)
  obtain n d b where t: "run_one_tick cfg tick (w_db w') (Some (w_broker w')) = (n, d, b)" by (metis prod.exhaust)
  have "offline_row cfg tick ((heartbeat_host now p h)\<lparr>h_status := ?st\<rparr>)
      \<longleftrightarrow> \<not> tick - now \<le> host_offline_after_seconds cfg * sec_us"
    using heartbeat_status_online [OF assms(3)] by (auto simp: offline_row_def)
  then show ?thesis
    using a tick_spec(3) [OF wf t, of "h_id h"] by (simp add: monitor_step_def t g)
qed

definition sample_heartbeat :: heartbeat where
  "sample_heartbeat = \<lparr>hb_agent_version = ''0.1.0'', hb_boot_time = at_utc 0, hb_cpu_pct = 20, hb_mem_pct = 30,
     hb_uptime_sec = 60, hb_load_avg = None, hb_sunshine_running = True, hb_active_user = None,
     hb_active_clients = 0, hb_connection_state = None, hb_gpu = None, hb_self_rtt_ms = Some 2\<rparr>"

definition agent_request :: request where
  "agent_request = (sample_request '''')\<lparr>rq_authorization := ''Bearer agent''\<rparr>"

lemma run_enrol_wf: "wf_db (w_db run_enrol)"
proof -
  have "reach system_start (system_step (\<lambda>s. s) default_settings) (0, run_start)"
    by (rule reach_init) (simp add: system_start_def run_start_def)
  then have "reach system_start (system_step (\<lambda>s. s) default_settings) (0, run_enrol)"
    using run_steps(1,2) by (blast intro: reach_step)
  then show ?thesis by (rule reach_wf)
qed

lemma sample_heartbeat_accepted:
  obtains resp w' where "heartbeat_endpoint (\<lambda>s. s) default_settings hour_us hour_us agent_request
    sample_heartbeat run_enrol = (Inr resp, w')"
proof -
  let ?h = "heartbeat_endpoint (\<lambda>s. s) default_settings hour_us hour_us agent_request sample_heartbeat run_enrol"
  have "is_ok (fst ?h)" by code_simp
  then show ?thesis using that by (cases ?h) (auto simp: is_ok_iff)
qed

theorem heartbeat_spec_witness:
  "map_option h_status (get_host (w_db run_enrol) 1) = Some OFFLINE
   \<and> map_option h_status (get_host (w_db (snd (heartbeat_endpoint (\<lambda>s. s) default_settings hour_us hour_us
       agent_request sample_heartbeat run_enrol))) 1) = Some IDLE"
proof
  show "map_option h_status (get_host (w_db run_enrol) 1) = Some OFFLINE" by code_simp
  obtain resp w' where h: "heartbeat_endpoint (\<lambda>s. s) default_settings hour_us hour_us agent_request
    sample_heartbeat run_enrol = (Inr resp, w')" by (rule sample_heartbeat_accepted)
  have off: "0 \<le> host_offline_after_seconds default_settings" by (simp add: default_settings_def)
  have i: "map_sum id (\<lambda>x. h_id (fst x)) (get_agent_host (\<lambda>s. s) hour_us agent_request (w_db run_enrol)) = Inr 1"
    by code_simp
  have e: "evaluate_host_status default_settings hour_us (Some hour_us)
        (get_active_reservation_for_host (w_db run_enrol) 1 hour_us \<noteq> None) (hb_sunshine_running sample_heartbeat)
        (Some (hb_cpu_pct sample_heartbeat)) (Some (hb_mem_pct sample_heartbeat)) = IDLE" by code_simp
  show "map_option h_status (get_host (w_db (snd (heartbeat_endpoint (\<lambda>s. s) default_settings hour_us hour_us
       agent_request sample_heartbeat run_enrol))) 1) = Some IDLE"
    using heartbeat_spec [OF h off] i e by (auto simp: h)
qed

theorem heartbeat_protects_from_monitor_witness:
  "\<exists>w'. snd (heartbeat_endpoint (\<lambda>s. s) default_settings hour_us hour_us agent_request sample_heartbeat run_enrol) = w'
     \<and> map_option h_status (get_host (w_db (monitor_step default_settings (hour_us + 90 * sec_us) w')) 1) = Some IDLE
     \<and> map_option h_status (get_host (w_db (monitor_step default_settings (hour_us + 91 * sec_us) w')) 1) = Some OFFLINE"
proof -
  obtain resp w' where h: "heartbeat_endpoint (\<lambda>s. s) default_settings hour_us hour_us agent_request
    sample_heartbeat run_enrol = (Inr resp, w')" by (rule sample_heartbeat_accepted)
  have off: "0 \<le> host_offline_after_seconds default_settings"
    and n: "host_offline_after_seconds default_settings = 90" by (simp_all add: default_settings_def)
  have i: "map_sum id (\<lambda>x. h_id (fst x)) (get_agent_host (\<lambda>s. s) hour_us agent_request (w_db run_enrol)) = Inr 1"
    by code_simp
  have e: "heartbeat_status default_settings hour_us sample_heartbeat 1 (w_db run_enrol) = IDLE" by code_simp
  have "map_option h_status (get_host (w_db (monitor_step default_settings tick w')) 1)
      = Some (if tick - hour_us \<le> 90 * sec_us then IDLE else OFFLINE)" for tick
    using heartbeat_protects_from_monitor [OF run_enrol_wf h off, of tick] i e by (auto simp: n)
  from this [of "hour_us + 90 * sec_us"] this [of "hour_us + 91 * sec_us"] show ?thesis by (simp add: h)
qed

subsection \<open>Enrolment and rotation\<close>

text \<open>Enrolling a host with valid data and fresh keys fails only when the name is taken, with 409
  and no change; otherwise the host is there, offline, and the secret of the answer is accepted as
  its agent token until it expires.\<close>
theorem enrolment_outcome:
  assumes "host_create_valid p" and "hid \<notin> h_id ` set (db_hosts (w_db w))" and "tid \<notin> t_id ` set (db_tokens (w_db w))"
    and "sha raw \<notin> t_jti ` set (db_tokens (w_db w))" and "u_id admin \<in> u_id ` set (db_users (w_db w))" and "raw \<noteq> ''''"
    and "wf_db (w_db w)"
  shows "if hp_hostname p \<in> h_hostname ` set (db_hosts (w_db w))
    then create_host_endpoint sha cfg rnow now raw hid tid admin p w = (Inl (hostname_conflict (hp_hostname p)), w)
    else \<exists>resp w'. create_host_endpoint sha cfg rnow now raw hid tid admin p w = (Inr resp, w')
      \<and> ht_agent_token resp = raw \<and> hr_id resp = hid
      \<and> get_host (w_db w') hid = Some (new_host hid p) \<and> h_status (new_host hid p) = OFFLINE
      \<and> (map_option t_host_id (verify_agent_token sha t raw (w_db w')) = Some (Some hid)
           \<longleftrightarrow> t < now + agent_token_ttl_days cfg * day_us)"
proof (cases "hp_hostname p \<in> h_hostname ` set (db_hosts (w_db w))")
  case True
  then have "insert_host (new_host hid p) (w_db w) = Inl (violation ''hosts_hostname_key'')"
    using assms(2) by (simp add: insert_host_def new_host_def)
  moreover have "contains_str ''hosts_hostname_key'' (''violates constraint '' @ ''hosts_hostname_key'')"
    by code_simp
  ultimately show ?thesis using True assms(1) by (simp add: create_host_endpoint_def violation_def)
next
  case False
  let ?h = "new_host hid p" and ?d = "w_db w"
  obtain d1 where d1: "insert_host ?h ?d = Inr d1" "d1 = ?d\<lparr>db_hosts := db_hosts ?d @ [?h]\<rparr>"
    using assms(2) False by (simp add: insert_host_def new_host_def)
  have wf1: "wf_db d1" by (rule wf_insert_host [OF d1(1) assms(7)])
  have "is_ok (issue_agent_token sha cfg rnow now raw tid hid admin d1)"
    using assms(3-5) by (simp add: issue_agent_token_def insert_token_def Let_def split_beta get_None_iff d1(2)
        revoke_active_agent_tokens_def token_simps image_update_where) (simp add: new_host_def)
  then obtain raw' tok n d2 where "issue_agent_token sha cfg rnow now raw tid hid admin d1 = Inr ((raw', tok, n), d2)"
    by (auto simp: is_ok_iff)
  with issue_agent_token_Inr(1) [OF this]
  have i: "issue_agent_token sha cfg rnow now raw tid hid admin d1 = Inr ((raw, tok, n), d2)" by simp
  note I = issue_agent_token_Inr [OF i]
  have hosts: "db_hosts d2 = db_hosts d1"
    using insert_token_Inr(1) [OF I(7)] by (simp add: revoke_active_agent_tokens_def token_simps)
  have row: "get_host d2 hid = Some ?h"
    using assms(2) by (simp add: get_host_def hosts d1(2) fetch_append fetch_None_iff [THEN iffD2] row_simps)
      (simp add: new_host_def)
  have wf2: "tokens_wf (db_tokens d2)"
    using evolves_issue_agent_token [OF i] wf1 by (simp add: evolves_def wf_db_def)
  have tok: "tok \<in> set (db_tokens d2)" by (simp add: I(8))
  have live: "token_live Agent t tok \<longleftrightarrow> t < now + agent_token_ttl_days cfg * day_us"
    using I(4,5) by (simp add: token_live_def open_token_def)
  let ?e = "t < now + agent_token_ttl_days cfg * day_us"
  have uniq: "q = tok" if "q \<in> set (db_tokens d2)" "t_jti q = t_jti tok" for q
    using wf2 tok that by (auto simp: tokens_wf_def distinct_map inj_on_def)
  have "lookup_token sha Agent t raw d2 = Some q \<longleftrightarrow> ?e \<and> q = tok" for q
    using lookup_token_iff [OF wf2, of sha Agent t raw q] tok I(2) live uniq [of q] by metis
  then have lk: "lookup_token sha Agent t raw d2 = (if ?e then Some tok else None)"
    by (cases "lookup_token sha Agent t raw d2") auto
  have acc: "map_option t_host_id (verify_agent_token sha t raw d2) = Some (Some hid) \<longleftrightarrow> ?e"
    using assms(6) I(3) by (simp add: verify_agent_token_def lk)
  have run: "create_host_endpoint sha cfg rnow now raw hid tid admin p w = (Inr (to_with_token ?h raw n), w\<lparr>w_db := d2\<rparr>)"
    using assms(1) d1(1) i row by (simp add: create_host_endpoint_def)
  have "ht_agent_token (to_with_token ?h raw n) = raw" "hr_id (to_with_token ?h raw n) = hid" "h_status ?h = OFFLINE"
    by (simp_all add: to_with_token_def new_host_def)
  with acc row False show ?thesis by (simp add: run)
qed

definition spare_host :: host_create where
  "spare_host = \<lparr>hp_hostname = ''pc-2'', hp_display_name = ''PC 2'', hp_location = None, hp_ip_address = None,
     hp_sunshine_port = 47984, hp_gpu_model = None, hp_sunshine_broker_token = None\<rparr>"

theorem enrolment_outcome_witness:
  "fst (create_host_endpoint (\<lambda>s. s) default_settings 0 0 ''agent2'' 2 9 run_user
      (spare_host\<lparr>hp_hostname := ''pc-1''\<rparr>) run_enrol) = Inl (hostname_conflict ''pc-1'')
   \<and> (\<exists>resp w'. create_host_endpoint (\<lambda>s. s) default_settings 0 0 ''agent2'' 2 9 run_user spare_host run_enrol = (Inr resp, w')
        \<and> ht_agent_token resp = ''agent2'')"
proof -
  have fresh: "2 \<notin> h_id ` set (db_hosts (w_db run_enrol))" "9 \<notin> t_id ` set (db_tokens (w_db run_enrol))"
    "(\<lambda>s. s) ''agent2'' \<notin> t_jti ` set (db_tokens (w_db run_enrol))"
    "u_id run_user \<in> u_id ` set (db_users (w_db run_enrol))" by code_simp+
  have valid: "host_create_valid spare_host" "host_create_valid (spare_host\<lparr>hp_hostname := ''pc-1''\<rparr>)" by code_simp+
  have names: "hp_hostname spare_host \<notin> h_hostname ` set (db_hosts (w_db run_enrol))"
    "hp_hostname (spare_host\<lparr>hp_hostname := ''pc-1''\<rparr>) \<in> h_hostname ` set (db_hosts (w_db run_enrol))" by code_simp+
  have raw: "''agent2'' \<noteq> ''''" by simp
  note out = enrolment_outcome [OF _ fresh(1,2) _ fresh(4) raw run_enrol_wf, of _ "\<lambda>s. s" default_settings 0 0 0]
  show ?thesis
    using out [OF valid(1) fresh(3)] out [OF valid(2) fresh(3)] names by (simp only: if_True if_False) auto
qed

text \<open>C30: Rotating the agent token of a host locks its old agent out: a request that was accepted as
  coming from the host is answered 401 from then on.\<close>
theorem rotation_locks_out_old_agent:
  assumes "wf_db (w_db w)" and "get_agent_host sha now0 rq (w_db w) = Inr (h, tok)"
    and "rotate_agent_token_endpoint sha cfg rnow now raw tid (h_id h) admin w = (Inr resp, w')"
  shows "get_agent_host sha t rq (w_db w') = Inl (unauthorized ''invalid_agent_token'')
    \<and> ht_agent_token resp = raw \<and> 0 < ht_revoked_previous resp"
proof -
  let ?old = "strip (drop 7 (rq_authorization rq))"
  note A = get_agent_host_Inr [OF assms(2)]
  have wf: "tokens_wf (db_tokens (w_db w))" using assms(1) by (simp add: wf_db_def)
  have old: "tok \<in> set (db_tokens (w_db w))" "t_jti tok = sha ?old" "token_live Agent now0 tok"
    using A(4) lookup_token_iff [OF wf] by (auto simp: verify_agent_token_def split: if_splits)
  from assms(3) A(2) obtain raw' new n where r:
    "issue_agent_token sha cfg rnow now raw tid (h_id h) admin (w_db w) = Inr ((raw', new, n), w_db w')"
    "resp = to_with_token h raw' n"
    by (auto simp: rotate_agent_token_endpoint_def split: sum.splits option.splits)
  note I = issue_agent_token_Inr [OF r(1)]
  have "n \<noteq> 0" using I(6) old(1,3) A(3) by (auto simp: count_where_0_iff open_token_def token_live_def)
  moreover have "\<not> (t_jti x = sha ?old \<and> token_live Agent t x)" if "x \<in> set (db_tokens (w_db w'))" for x
  proof
    assume x: "t_jti x = sha ?old \<and> token_live Agent t x"
    have ne: "t_jti new \<noteq> t_jti tok"
      using insert_token_Inr(3) [OF I(7)] old(1) by (auto simp: revoke_active_agent_tokens_def token_simps image_update_where)
    with x old(2) that I(8) have "x \<in> set (db_tokens (snd (revoke_active_agent_tokens rnow (h_id h) (w_db w))))"
      by auto
    then obtain q where q: "q \<in> set (db_tokens (w_db w))"
      "x = (if t_host_id q = Some (h_id h) \<and> open_token Agent q then q\<lparr>t_revoked_at := Some rnow\<rparr> else q)"
      by (auto simp: revoke_active_agent_tokens_def token_simps elim!: in_update_whereE)
    then have "q = tok"
      using wf old(1,2) x by (auto simp: tokens_wf_def distinct_map inj_on_def split: if_splits)
    with q(2) x A(3) old(3) show False by (auto simp: token_live_def open_token_def split: if_splits)
  qed
  then have "lookup_token sha Agent t ?old (w_db w') = None"
    unfolding lookup_token_def find_None_iff by blast
  moreover have "starts_with ''bearer '' (map lower_char (rq_authorization rq))"
    using assms(2) by (simp add: get_agent_host_def Let_def split: if_splits)
  ultimately show ?thesis
    using I(1) by (simp add: get_agent_host_def Let_def verify_agent_token_def r(2) to_with_token_def)
qed

theorem rotation_locks_out_old_agent_witness:
  "is_ok (get_agent_host (\<lambda>s. s) 0 agent_request (w_db run_enrol))
   \<and> get_agent_host (\<lambda>s. s) 0 agent_request (w_db (snd (rotate_agent_token_endpoint (\<lambda>s. s) default_settings
        0 0 ''newagent'' 9 1 run_user run_enrol))) = Inl (unauthorized ''invalid_agent_token'')"
proof -
  let ?r = "rotate_agent_token_endpoint (\<lambda>s. s) default_settings 0 0 ''newagent'' 9 1 run_user run_enrol"
  have ok: "is_ok (get_agent_host (\<lambda>s. s) 0 agent_request (w_db run_enrol))" by code_simp
  then obtain h tok where a: "get_agent_host (\<lambda>s. s) 0 agent_request (w_db run_enrol) = Inr (h, tok)"
    by (auto simp: is_ok_iff)
  have "map_sum id (\<lambda>x. h_id (fst x)) (get_agent_host (\<lambda>s. s) 0 agent_request (w_db run_enrol)) = Inr 1" by code_simp
  then have i: "h_id h = 1" by (simp add: a)
  have "is_ok (fst ?r)" by code_simp
  then obtain resp w' where r: "?r = (Inr resp, w')" by (cases ?r) (auto simp: is_ok_iff)
  show ?thesis using rotation_locks_out_old_agent [OF run_enrol_wf a, of default_settings 0 0 "''newagent''" 9] r ok
    by (simp add: i)
qed

subsection \<open>Hosts for a slot\<close>

lemma slot_listing_confirmed:
  assumes "\<forall>r \<in> set (db_reservations d). r_status r \<noteq> COMPLETED"
  shows "set (list_slot_available_hosts f t d) =
      {h \<in> set (db_hosts d). h_status h = IDLE \<and> \<not> excluded (db_reservations d) (h_id h) (TimeRange f t)}
    \<and> sorted (map h_id (list_slot_available_hosts f t d))"
proof -
  have "r_status r = CONFIRMED \<longleftrightarrow> reservation_active (r_status r)" if "r \<in> set (db_reservations d)" for r
    using assms that by (auto simp: reservation_active_def)
  then have "(\<exists>r \<in> set (db_reservations d). r_host_id r = hid \<and> r_status r = CONFIRMED
        \<and> range_overlaps (r_time_range r) (TimeRange f t)) \<longleftrightarrow> excluded (db_reservations d) hid (TimeRange f t)" for hid
    unfolding excluded_def by blast
  then show ?thesis by (auto simp: list_slot_available_hosts_def)
qed

end
