(* ===== verification/Status_Facts.thy ===== *)
theory Status_Facts
  imports Host_Facts
begin

text \<open>
  The life of a reservation in the reachable states: it is booked as confirmed, may be cancelled,
  and no step of the broker ever completes it, although the tables, the exclusion constraint and the
  quotas provide for a completed one.  With this invariant the hosts listed for a slot are those
  the constraint admits, in every reachable state.
\<close>

definition open_or_cancelled :: "reservation \<Rightarrow> bool" where
  "open_or_cancelled r \<longleftrightarrow> r_status r = CONFIRMED \<and> r_canceled_at r = None
     \<or> r_status r = CANCELED \<and> r_canceled_at r \<noteq> None"

definition none_completed :: "reservation list \<Rightarrow> bool" where
  "none_completed rs \<longleftrightarrow> (\<forall>r \<in> set rs. open_or_cancelled r)"

lemma none_completed_cancel: "none_completed (db_reservations d) \<Longrightarrow> none_completed (db_reservations (cancel_row i now d))"
  by (auto simp: none_completed_def cancel_row_def open_or_cancelled_def elim!: in_update_whereE split: if_splits)

lemma none_completed_book:
  assumes "book_row nid created usr hid s e extra d = Inr (r, d')" "instant_of s < instant_of e"
    and "none_completed (db_reservations d)"
  shows "none_completed (db_reservations d')"
  using assms(3) book_row_Inr(1,2) [OF assms(1,2)] by (auto simp: none_completed_def open_or_cancelled_def booked_def)

lemma create_rows:
  assumes "none_completed (db_reservations (w_db w))"
  shows "none_completed (db_reservations (w_db (snd (create_reservation_endpoint cfg now1 now2 nid created usr p w))))"
proof (cases "create_reservation cfg now1 now2 nid created usr (rc_host_id p) (rc_starts_at p) (rc_ends_at p) (w_db w)")
  case (Inr x)
  obtain r d where x: "x = (r, d)" by (cases x)
  note c = create_reservation_InrD [OF Inr [unfolded x]]
  show ?thesis using Inr x none_completed_book [OF c(1,4) assms] assms
    by (simp add: create_reservation_endpoint_def)
qed (simp add: create_reservation_endpoint_def assms)

lemma instant_rows:
  assumes "none_completed (db_reservations (w_db w))"
  shows "none_completed (db_reservations (w_db
    (snd (instant_reservation_endpoint sha cfg clk nid created raw tid usr hid w))))"
proof (cases "create_instant_reservation cfg (ic_now clk) (ic_quota clk) nid created usr hid (w_db w)")
  case (Inr x)
  obtain r d1 where x: "x = (r, d1)" by (cases x)
  from Inr [unfolded x] have "none_completed (db_reservations d1)"
  proof (rule create_instant_InrD)
    fix s e
    assume b: "book_row nid created usr hid (at_utc s) (at_utc e) [(''instant'', JBool True)] (w_db w) = Inr (r, d1)"
      and win: "instant_window (ic_now clk) (next_reservation_start (w_db w) hid (ic_now clk)) = (s, e)"
    show ?thesis by (rule none_completed_book [OF b _ assms]) (simp add: instant_window_proper(3) [OF win])
  qed
  with assms Inr x show ?thesis
    by (auto simp: instant_reservation_endpoint_def dest!: transition_host_frame(2) issue_response_rows
        split: prod.split sum.split option.split)
qed (simp add: instant_reservation_endpoint_def assms)

lemma cancel_rows:
  assumes "none_completed (db_reservations (w_db w))"
  shows "none_completed (db_reservations (w_db (snd (cancel_reservation_endpoint cn now rid usr w))))"
proof (cases "cancel_reservation cn usr rid (w_db w)")
  case (Inr x)
  obtain r d1 where x: "x = (r, d1)" by (cases x)
  have "none_completed (db_reservations d1)"
    using cancel_reservation_rows [OF Inr [unfolded x]] assms none_completed_cancel [of "w_db w" rid cn] by auto
  then show ?thesis by (auto simp: cancel_reservation_endpoint_def Inr x split: option.split)
qed (simp add: cancel_reservation_endpoint_def assms)

definition open_statuses :: "system \<Rightarrow> bool" where
  "open_statuses s \<longleftrightarrow> none_completed (db_reservations (w_db (snd s)))"

lemma open_statuses_step: "open_statuses s \<Longrightarrow> system_step sha cfg s s' \<Longrightarrow> open_statuses s'"
  by (cases s, cases s', simp, erule system_stepE)
    (auto simp: open_statuses_def create_rows instant_rows cancel_rows route_frames with_broker_def)

interpretation status_system: invariant_system system_start "system_step sha cfg" open_statuses
  for sha cfg
  by unfold_locales (simp add: system_start_def open_statuses_def none_completed_def empty_db_def, rule open_statuses_step)

lemma reach_open_statuses:
  "reach system_start (system_step sha cfg) (t, w) \<Longrightarrow> r \<in> set (db_reservations (w_db w)) \<Longrightarrow> open_or_cancelled r"
  by (drule status_system.inv_reach) (simp add: open_statuses_def none_completed_def)

text \<open>No reservation is ever completed: in every state the broker can reach each reservation is
  confirmed or cancelled, and it carries a time of cancellation exactly when it is cancelled.\<close>
theorem no_reservation_completes:
  assumes "reach system_start (system_step sha cfg) (t, w)" and "r \<in> set (db_reservations (w_db w))"
  shows "r_status r \<noteq> COMPLETED \<and> (r_status r = CANCELED \<longleftrightarrow> r_canceled_at r \<noteq> None)"
  using reach_open_statuses [OF assms] by (auto simp: open_or_cancelled_def)

theorem no_reservation_completes_witness:
  "map r_status (db_reservations (w_db run_cancel)) = [CANCELED]
   \<and> list_all (\<lambda>r. r_canceled_at r \<noteq> None) (db_reservations (w_db run_cancel))"
proof
  show st: "map r_status (db_reservations (w_db run_cancel)) = [CANCELED]" by code_simp
  then have "r_status r = CANCELED" if "r \<in> set (db_reservations (w_db run_cancel))" for r
    using that by (auto simp: map_eq_Cons_conv)
  then show "list_all (\<lambda>r. r_canceled_at r \<noteq> None) (db_reservations (w_db run_cancel))"
    using no_reservation_completes [OF run_reach(4)] by (auto simp: list_all_iff)
qed

subsection \<open>Hosts for a slot\<close>

text \<open>C33: In every reachable state the hosts listed for a slot are, in the order of their keys, exactly
  the idle hosts on which the exclusion constraint admits a booking of the slot.\<close>
theorem slot_listing_matches_constraint:
  assumes "reach system_start (system_step sha cfg) (t, w)"
  shows "set (list_slot_available_hosts f u (w_db w)) =
      {h \<in> set (db_hosts (w_db w)). h_status h = IDLE \<and> \<not> excluded (db_reservations (w_db w)) (h_id h) (TimeRange f u)}
    \<and> sorted (map h_id (list_slot_available_hosts f u (w_db w)))"
  by (rule slot_listing_confirmed) (use reach_open_statuses [OF assms] in \<open>force simp: open_or_cancelled_def\<close>)

definition run_alive :: world where
  "run_alive = snd (heartbeat_endpoint (\<lambda>s. s) default_settings 0 0 agent_request sample_heartbeat run_booking)"

theorem slot_listing_matches_constraint_witness:
  "list_slot_available_hosts hour_us (2 * hour_us) (w_db run_alive) = []
   \<and> (\<exists>h \<in> set (db_hosts (w_db run_alive)). h_status h = IDLE
       \<and> excluded (db_reservations (w_db run_alive)) (h_id h) (TimeRange hour_us (2 * hour_us)))
   \<and> map h_id (list_slot_available_hosts (2 * hour_us) (3 * hour_us) (w_db run_alive)) = [1]"
proof -
  have "reach system_start (system_step (\<lambda>s. s) default_settings) (0, run_alive)"
    unfolding run_alive_def by (rule reach_step [OF run_reach(1) Heartbeat]) (simp add: clocked_def)
  note listed = slot_listing_matches_constraint [OF this]
  have busy: "list_slot_available_hosts hour_us (2 * hour_us) (w_db run_alive) = []" by code_simp
  have free: "map h_id (list_slot_available_hosts (2 * hour_us) (3 * hour_us) (w_db run_alive)) = [1]" by code_simp
  then obtain h where "list_slot_available_hosts (2 * hour_us) (3 * hour_us) (w_db run_alive) = [h]"
    by (auto simp: map_eq_Cons_conv)
  then have "h \<in> set (db_hosts (w_db run_alive))" "h_status h = IDLE"
    using listed [of "2 * hour_us" "3 * hour_us"] by auto
  then have "\<exists>h \<in> set (db_hosts (w_db run_alive)). h_status h = IDLE
      \<and> excluded (db_reservations (w_db run_alive)) (h_id h) (TimeRange hour_us (2 * hour_us))"
    using listed [of hour_us "2 * hour_us"] busy by (intro bexI [of _ h]) auto
  with busy free show ?thesis by blast
qed

end
