(* ===== verification/Refinement.thy ===== *)
theory Refinement
  imports Status_Facts
begin

text \<open>
  What the broker promises about bookings, without tables, users' requests, clocks or errors: a
  timetable is a set of bookings, a booking may be added when nothing else on its host overlaps it,
  and a booking may be released.  Every run of the broker is a run of this timetable, so what holds of
  all timetables holds of the broker.
\<close>

subsection \<open>The timetable\<close>

record booking =
  bk_id :: int
  bk_user :: int
  bk_host :: int
  bk_from :: instant
  bk_until :: instant

definition compatible :: "booking \<Rightarrow> booking \<Rightarrow> bool" where
  "compatible b c \<longleftrightarrow> bk_id b \<noteq> bk_id c
     \<and> (bk_host b = bk_host c \<longrightarrow> bk_until c \<le> bk_from b \<or> bk_until b \<le> bk_from c)"

inductive timetable_step :: "booking set \<Rightarrow> booking set \<Rightarrow> bool" where
  Book: "bk_from b < bk_until b \<Longrightarrow> \<forall>c \<in> T. compatible b c \<Longrightarrow> timetable_step T (insert b T)"
| Release: "b \<in> T \<Longrightarrow> timetable_step T (T - {b})"
| Idle: "timetable_step T T"

inductive_cases timetable_stepE: "timetable_step T T'"

definition timetable_start :: "booking set \<Rightarrow> bool" where
  "timetable_start T \<longleftrightarrow> T = {}"

definition timetable_ok :: "booking set \<Rightarrow> bool" where
  "timetable_ok T \<longleftrightarrow> (\<forall>b \<in> T. bk_from b < bk_until b) \<and> (\<forall>b \<in> T. \<forall>c \<in> T. b \<noteq> c \<longrightarrow> compatible b c)"

lemma compatible_sym: "compatible b c \<Longrightarrow> compatible c b"
  by (auto simp: compatible_def)

interpretation timetable: invariant_system timetable_start timetable_step timetable_ok
proof unfold_locales
  show "timetable_ok T" if "timetable_start T" for T using that by (simp add: timetable_start_def timetable_ok_def)
  show "timetable_ok T'" if "timetable_ok T" "timetable_step T T'" for T T'
    using that(2,1) by cases (auto simp: timetable_ok_def intro: compatible_sym)
qed

subsection \<open>The broker's timetable\<close>

fun booking_of :: "reservation \<Rightarrow> booking option" where
  "booking_of r =
     (if reservation_active (r_status r) then
        (case r_time_range r of
           EmptyRange \<Rightarrow> None
         | TimeRange s e \<Rightarrow> Some \<lparr>bk_id = r_id r, bk_user = r_user_id r, bk_host = r_host_id r, bk_from = s, bk_until = e\<rparr>)
      else None)"

definition timetable_of :: "reservation list \<Rightarrow> booking set" where
  "timetable_of rs = {b. \<exists>r \<in> set rs. booking_of r = Some b}"

definition timetable :: "system \<Rightarrow> booking set" where
  "timetable s = timetable_of (db_reservations (w_db (snd s)))"

lemma booking_of_Some:
  "booking_of r = Some b \<longleftrightarrow> reservation_active (r_status r) \<and> r_time_range r = TimeRange (bk_from b) (bk_until b)
     \<and> bk_id b = r_id r \<and> bk_user b = r_user_id r \<and> bk_host b = r_host_id r"
  by (cases b) (auto split: time_range.splits)

declare booking_of.simps [simp del]

lemma book_is_step:
  assumes "book_row nid created usr hid s e extra d = Inr (r, d')" and "instant_of s < instant_of e" and "wf_db d"
  shows "timetable_step (timetable_of (db_reservations d)) (timetable_of (db_reservations d'))"
proof -
  note B = book_row_Inr [OF assms(1,2)]
  let ?b = "\<lparr>bk_id = nid, bk_user = u_id usr, bk_host = hid, bk_from = instant_of s, bk_until = instant_of e\<rparr>"
  have r: "booking_of r = Some ?b"
    by (simp add: booking_of_Some B(1) booked_def reservation_active_def)
  have "timetable_of (db_reservations d') = insert ?b (timetable_of (db_reservations d))"
    using r by (auto simp: timetable_of_def B(2))
  moreover have "compatible ?b c" if c: "c \<in> timetable_of (db_reservations d)" for c
  proof -
    from c obtain q where q: "q \<in> set (db_reservations d)" "booking_of q = Some c" by (auto simp: timetable_of_def)
    then have "bk_id c \<noteq> nid" using B(4) by (auto simp: booking_of_Some)
    moreover have "bk_until c \<le> instant_of s \<or> instant_of e \<le> bk_from c" if "bk_host c = hid"
      using B(3) q that by (auto simp: booking_of_Some excluded_def not_less)
    ultimately show ?thesis by (auto simp: compatible_def)
  qed
  ultimately show ?thesis using assms(2) by (auto intro: Book)
qed

lemma cancel_is_step:
  assumes "wf_db d"
  shows "timetable_step (timetable_of (db_reservations d)) (timetable_of (db_reservations (cancel_row i now d)))"
proof -
  let ?rs = "db_reservations d"
  have "booking_of (r\<lparr>r_status := CANCELED, r_canceled_at := Some now\<rparr>) = None" for r
    by (simp add: booking_of.simps reservation_active_def)
  then have rows: "timetable_of (db_reservations (cancel_row i now d))
      = {b. \<exists>r \<in> set ?rs. r_id r \<noteq> i \<and> booking_of r = Some b}"
    by (auto simp: timetable_of_def cancel_row_def bex_update_where split: if_splits)
  have uniq: "r = q" if "r \<in> set ?rs" "q \<in> set ?rs" "r_id r = r_id q" for r q
    using assms that by (auto simp: wf_db_def reservations_wf_def distinct_map inj_on_def)
  show ?thesis
  proof (cases "\<exists>b \<in> timetable_of ?rs. bk_id b = i")
    case True
    then obtain b where tb: "b \<in> timetable_of ?rs" "bk_id b = i" by blast
    then obtain r where "r \<in> set ?rs" "booking_of r = Some b" unfolding timetable_of_def by blast
    with tb have b: "b \<in> timetable_of ?rs" "r \<in> set ?rs" "booking_of r = Some b" "r_id r = i"
      by (simp_all add: booking_of_Some)
    have "x \<noteq> b \<longleftrightarrow> r_id q \<noteq> i" if "q \<in> set ?rs" "booking_of q = Some x" for x q
      using that b(2-4) tb(2) uniq [of q r] booking_of_Some [of q x] by auto
    then have "timetable_of (db_reservations (cancel_row i now d)) = timetable_of ?rs - {b}"
      unfolding rows by (auto simp: timetable_of_def)
    with b(1) show ?thesis by (auto intro: Release)
  next
    case False
    then have "timetable_of (db_reservations (cancel_row i now d)) = timetable_of ?rs"
      unfolding rows by (auto simp: timetable_of_def booking_of_Some)
    then show ?thesis by (simp add: Idle)
  qed
qed

lemma create_is_step:
  assumes "wf_db (w_db w)"
  shows "timetable_step (timetable_of (db_reservations (w_db w)))
    (timetable_of (db_reservations (w_db (snd (create_reservation_endpoint cfg now1 now2 nid created usr p w)))))"
proof (cases "create_reservation cfg now1 now2 nid created usr (rc_host_id p) (rc_starts_at p) (rc_ends_at p) (w_db w)")
  case (Inr x)
  obtain r d where x: "x = (r, d)" by (cases x)
  note c = create_reservation_InrD [OF Inr [unfolded x]]
  show ?thesis using Inr x book_is_step [OF c(1,4) assms]
    by (simp add: create_reservation_endpoint_def Idle)
qed (simp add: create_reservation_endpoint_def Idle)

lemma instant_is_step:
  assumes "wf_db (w_db w)"
  shows "timetable_step (timetable_of (db_reservations (w_db w))) (timetable_of (db_reservations (w_db
    (snd (instant_reservation_endpoint sha cfg clk nid created raw tid usr hid w)))))"
proof (rule instant_endpoint_cases [of sha cfg clk nid created raw tid usr hid w])
  fix r d1
  assume c: "create_instant_reservation cfg (ic_now clk) (ic_quota clk) nid created usr hid (w_db w) = Inr (r, d1)"
    and same: "db_reservations (w_db (snd (instant_reservation_endpoint sha cfg clk nid created raw tid usr hid w)))
      = db_reservations d1"
  from c have "timetable_step (timetable_of (db_reservations (w_db w))) (timetable_of (db_reservations d1))"
  proof (rule create_instant_InrD)
    fix s e
    assume b: "book_row nid created usr hid (at_utc s) (at_utc e) [(''instant'', JBool True)] (w_db w) = Inr (r, d1)"
      and win: "instant_window (ic_now clk) (next_reservation_start (w_db w) hid (ic_now clk)) = (s, e)"
    show ?thesis by (rule book_is_step [OF b _ assms]) (simp add: instant_window_proper(3) [OF win])
  qed
  with same show ?thesis by simp
qed (simp add: Idle)

lemma cancel_endpoint_is_step:
  assumes "wf_db (w_db w)"
  shows "timetable_step (timetable_of (db_reservations (w_db w)))
    (timetable_of (db_reservations (w_db (snd (cancel_reservation_endpoint cn now rid usr w)))))"
proof (cases "cancel_reservation cn usr rid (w_db w)")
  case (Inr x)
  obtain r d1 where x: "x = (r, d1)" by (cases x)
  have "db_reservations (w_db (snd (cancel_reservation_endpoint cn now rid usr w)))
      \<in> {db_reservations (w_db w), db_reservations (cancel_row rid cn (w_db w))}"
    using cancel_reservation_rows [OF Inr [unfolded x]]
    by (auto simp: cancel_reservation_endpoint_def Inr x split: option.split)
  with cancel_is_step [OF assms, of rid cn] show ?thesis by (auto intro: Idle)
qed (simp add: cancel_reservation_endpoint_def Idle)

lemma system_step_timetable:
  "wf_db (w_db w) \<Longrightarrow> system_step sha cfg (t, w) (t', w') \<Longrightarrow> timetable_step (timetable (t, w)) (timetable (t', w'))"
  by (erule system_stepE)
    (auto simp: timetable_def create_is_step instant_is_step cancel_endpoint_is_step route_frames with_broker_def Idle)

interpretation broker_timetable: simulation system_start "system_step sha cfg" timetable_start timetable_step timetable
  for sha cfg
proof unfold_locales
  show "timetable_start (timetable s)" if "system_start s" for s
    using that by (simp add: system_start_def timetable_start_def timetable_def timetable_of_def empty_db_def)
  show "timetable_step (timetable s) (timetable s')"
    if "reach system_start (system_step sha cfg) s" "system_step sha cfg s s'" for s s'
    using that system_step_timetable reach_wf by (cases s, cases s') blast
qed

text \<open>The broker refines the timetable: each of its steps adds a booking that overlaps nothing on its
  host, releases one or leaves the timetable alone, so every state it reaches shows a timetable that
  can be reached, in which no two bookings of a host overlap.\<close>
theorem broker_refines_timetable:
  assumes "reach system_start (system_step sha cfg) s" and "system_step sha cfg s s'"
  shows "timetable_step (timetable s) (timetable s') \<and> reach timetable_start timetable_step (timetable s')
    \<and> timetable_ok (timetable s')"
proof -
  have r: "reach system_start (system_step sha cfg) s'" by (rule reach_step [OF assms])
  show ?thesis
    using broker_timetable.sim_step [OF assms] broker_timetable.sim_reach [OF r]
      broker_timetable.sim_invariant [OF timetable.invariant_system_axioms r] by blast
qed

theorem broker_refines_timetable_witness:
  "timetable (0, run_booking) = {\<lparr>bk_id = 1, bk_user = 1, bk_host = 1, bk_from = hour_us, bk_until = 2 * hour_us\<rparr>}
   \<and> reach timetable_start timetable_step (timetable (0, run_booking))"
proof
  have "map booking_of (db_reservations (w_db run_booking))
      = [Some \<lparr>bk_id = 1, bk_user = 1, bk_host = 1, bk_from = hour_us, bk_until = 2 * hour_us\<rparr>]" by code_simp
  then show "timetable (0, run_booking) = {\<lparr>bk_id = 1, bk_user = 1, bk_host = 1, bk_from = hour_us, bk_until = 2 * hour_us\<rparr>}"
    by (auto simp: timetable_def timetable_of_def map_eq_Cons_conv)
  show "reach timetable_start timetable_step (timetable (0, run_booking))"
    using broker_refines_timetable [OF run_reach(1) Time [of 0 0]] by simp
qed

end
