(* ===== verification/Interleaving.thy ===== *)
theory Interleaving
  imports Refinement "HOL-Library.Multiset"
begin

text \<open>
  Requests inside each other.  Every statement of \<open>services/reservation.py\<close> is an \<open>await\<close>, so the
  event loop may turn to another request between any two of them, and other workers run at the same time.
  Here a booking is a task that takes one statement at a time: the checks before the quota, the two
  queries of the quota, the insertion, the commit.  A statement sees the rows committed before it; an
  insertion waits for the uncommitted rows of the others, which the constraints count as well; a task may
  fail at any point.  The theorems say what the constraint secures however the statements interleave, and by
  how much the limit on unfinished reservations can be exceeded.
\<close>

subsection \<open>The statements of a booking\<close>

text \<open>The two queries of \<open>_validate_quota\<close>, each with the exception that follows it.\<close>

definition validate_concurrent :: "settings \<Rightarrow> instant \<Rightarrow> db \<Rightarrow> user \<Rightarrow> app_error + unit" where
  "validate_concurrent cfg now d usr =
     (let current = concurrent_count d (u_id usr) now in
      if current \<ge> max_concurrent_reservations cfg
        then Inl (ReservationQuota (ConcurrentLimit current (max_concurrent_reservations cfg)))
      else Inr ())"

definition validate_daily :: "settings \<Rightarrow> db \<Rightarrow> user \<Rightarrow> datetime \<Rightarrow> datetime \<Rightarrow> app_error + unit" where
  "validate_daily cfg d usr starts_at ends_at =
     (let day_start = day_start_of starts_at; day_end = day_start + day_us;
          new_duration_minutes = (instant_of ends_at - instant_of starts_at) div min_us;
          used = used_minutes d (u_id usr) day_start day_end;
          max_minutes = max_reservation_hours_per_day cfg * 60 in
      if used + new_duration_minutes > max_minutes
        then Inl (ReservationQuota (DailyLimit used new_duration_minutes max_minutes))
      else Inr ())"

lemma validate_quota_statements:
  "validate_quota cfg now d usr s e =
     (case validate_concurrent cfg now d usr of
        Inl err \<Rightarrow> Inl err | Inr _ \<Rightarrow> validate_daily cfg d usr s e)"
  by (simp add: validate_quota_def validate_concurrent_def validate_daily_def Let_def)

record booking_task =
  tk_user :: user
  tk_host :: int
  tk_from :: datetime
  tk_until :: datetime
  tk_extra :: "(string \<times> json) list"

text \<open>\<open>create_reservation\<close> up to the first query of the quota, and \<open>create_instant_reservation\<close> up to the
  query for the next reservation.\<close>

definition admit_booking :: "settings \<Rightarrow> instant \<Rightarrow> booking_task \<Rightarrow> db \<Rightarrow> app_error + unit" where
  "admit_booking cfg now q d =
     (case validate_window cfg now (tk_from q) (tk_until q) of
        Inl err \<Rightarrow> Inl err
      | Inr _ \<Rightarrow> (case validate_host_exists d (tk_host q) of Inl err \<Rightarrow> Inl err | Inr _ \<Rightarrow> Inr ()))"

definition check_idle :: "int \<Rightarrow> db \<Rightarrow> app_error + unit" where
  "check_idle hid d =
     (case validate_host_exists d hid of
        Inl err \<Rightarrow> Inl err
      | Inr h \<Rightarrow> if h_status h \<noteq> IDLE then Inl (HostNotAvailable hid (h_status h)) else Inr ())"

definition instant_task :: "user \<Rightarrow> int \<Rightarrow> instant \<Rightarrow> db \<Rightarrow> booking_task" where
  "instant_task usr hid now d =
     (case instant_window now (next_reservation_start d hid now) of
        (s, e) \<Rightarrow> \<lparr>tk_user = usr, tk_host = hid, tk_from = at_utc s, tk_until = at_utc e,
                   tk_extra = [(''instant'', JBool True)]\<rparr>)"

definition task_row :: "booking_task \<Rightarrow> int \<Rightarrow> instant \<Rightarrow> reservation" where
  "task_row q nid created =
     booked nid (tk_user q) (tk_host q) (instant_of (tk_from q)) (instant_of (tk_until q)) created"

text \<open>The insertion beside the rows that other transactions have inserted and not committed.\<close>

definition insert_beside :: "reservation list \<Rightarrow> booking_task \<Rightarrow> int \<Rightarrow> instant \<Rightarrow> db \<Rightarrow> app_error + db" where
  "insert_beside ps q nid created d =
     insert_reservation nid (u_id (tk_user q)) (tk_host q) (instant_of (tk_from q)) (instant_of (tk_until q)) created
       (d\<lparr>db_reservations := db_reservations d @ ps\<rparr>)"

definition commit_booking :: "booking_task \<Rightarrow> reservation \<Rightarrow> db \<Rightarrow> db" where
  "commit_booking q r d =
     write_audit ''reservation_create'' (Some (u_id (tk_user q))) ActorUser (Some ''reservation'') (Some (r_id r))
       AuditSuccess
       ([(''host_id'', JInt (tk_host q)), (''starts_at'', JTime (tk_from q)), (''ends_at'', JTime (tk_until q))]
          @ tk_extra q)
       (Some (u_provider (tk_user q))) None (d\<lparr>db_reservations := db_reservations d @ [r]\<rparr>)"

definition commit_cancel :: "instant \<Rightarrow> user \<Rightarrow> int \<Rightarrow> db \<Rightarrow> db" where
  "commit_cancel now usr rid d =
     write_audit ''reservation_cancel'' (Some (u_id usr)) ActorUser (Some ''reservation'') (Some rid) AuditSuccess
       [(''by'', JStr (if is_admin usr then ''admin'' else ''owner''))] (Some (u_provider usr)) None
       (cancel_row rid now d)"

subsection \<open>Tasks and their steps\<close>

text \<open>The state: the time, the committed tables, the tasks that are under way and how far each has come.\<close>

datatype task =
    Found_Idle user int instant
  | Admitted booking_task
  | Counted booking_task
  | Checked booking_task
  | Inserted booking_task int instant
  | Cancelling user int

type_synonym statement_state = "instant \<times> db \<times> task list"

fun pending_row :: "task \<Rightarrow> reservation option" where
  "pending_row (Inserted q nid created) = Some (task_row q nid created)"
| "pending_row _ = None"

definition pending_rows :: "task list \<Rightarrow> reservation list" where
  "pending_rows T = List.map_filter pending_row T"

text \<open>A transaction that touches no reservation: the constraints hold, no user and no host disappears.\<close>

definition elsewhere :: "db \<Rightarrow> db \<Rightarrow> bool" where
  "elsewhere d d' \<longleftrightarrow> wf_db d' \<and> ids_kept d d' \<and> db_reservations d' = db_reservations d"

inductive statement_step :: "settings \<Rightarrow> statement_state \<Rightarrow> statement_state \<Rightarrow> bool" for cfg where
  Tick: "t \<le> t' \<Longrightarrow> statement_step cfg (t, d, T) (t', d, T)"
| Admit: "now \<le> t \<Longrightarrow> admit_booking cfg now q d = Inr () \<Longrightarrow> tk_extra q = [] \<Longrightarrow>
    statement_step cfg (t, d, T) (t, d, Admitted q # T)"
| Find_Idle: "now \<le> t \<Longrightarrow> check_idle hid d = Inr () \<Longrightarrow>
    statement_step cfg (t, d, T) (t, d, Found_Idle usr hid now # T)"
| Choose_Window:
    "statement_step cfg (t, d, T1 @ Found_Idle usr hid now # T2) (t, d, T1 @ Admitted (instant_task usr hid now d) # T2)"
| Count: "now \<le> t \<Longrightarrow> validate_concurrent cfg now d (tk_user q) = Inr () \<Longrightarrow>
    statement_step cfg (t, d, T1 @ Admitted q # T2) (t, d, T1 @ Counted q # T2)"
| Daily: "validate_daily cfg d (tk_user q) (tk_from q) (tk_until q) = Inr () \<Longrightarrow>
    statement_step cfg (t, d, T1 @ Counted q # T2) (t, d, T1 @ Checked q # T2)"
| Insert: "insert_beside (pending_rows (T1 @ T2)) q nid created d = Inr d1 \<Longrightarrow>
    statement_step cfg (t, d, T1 @ Checked q # T2) (t, d, T1 @ Inserted q nid created # T2)"
| Commit: "statement_step cfg (t, d, T1 @ Inserted q nid created # T2)
    (t, commit_booking q (task_row q nid created) d, T1 @ T2)"
| Fail: "statement_step cfg (t, d, T1 @ x # T2) (t, d, T1 @ T2)"
| Begin_Cancel: "get_reservation usr rid d = Inr r \<Longrightarrow> r_status r \<noteq> CANCELED \<Longrightarrow>
    statement_step cfg (t, d, T) (t, d, Cancelling usr rid # T)"
| Commit_Cancel: "now \<le> t \<Longrightarrow>
    statement_step cfg (t, d, T1 @ Cancelling usr rid # T2) (t, commit_cancel now usr rid d, T1 @ T2)"
| Elsewhere: "elsewhere d d' \<Longrightarrow> statement_step cfg (t, d, T) (t, d', T)"

inductive_cases statement_stepE: "statement_step cfg (t, d, T) s'"

definition statement_start :: "statement_state \<Rightarrow> bool" where
  "statement_start s \<longleftrightarrow> (case s of (_, d, T) \<Rightarrow> d = empty_db \<and> T = [])"

subsection \<open>What the constraint secures\<close>

lemma pending_simps [simp]:
  "pending_rows [] = []"
  "pending_rows (T1 @ T2) = pending_rows T1 @ pending_rows T2"
  "pending_rows (x # T) = (case pending_row x of None \<Rightarrow> pending_rows T | Some r \<Rightarrow> r # pending_rows T)"
  by (simp_all add: pending_rows_def List.map_filter_def split: option.split)

fun task_ok :: "db \<Rightarrow> task \<Rightarrow> bool" where
  "task_ok d (Admitted q) \<longleftrightarrow> instant_of (tk_from q) < instant_of (tk_until q)"
| "task_ok d (Counted q) \<longleftrightarrow> instant_of (tk_from q) < instant_of (tk_until q)"
| "task_ok d (Checked q) \<longleftrightarrow> instant_of (tk_from q) < instant_of (tk_until q)"
| "task_ok d (Inserted q nid created) \<longleftrightarrow> instant_of (tk_from q) < instant_of (tk_until q)
     \<and> u_id (tk_user q) \<in> u_id ` set (db_users d) \<and> tk_host q \<in> h_id ` set (db_hosts d)"
| "task_ok d _ \<longleftrightarrow> True"

definition statement_inv :: "statement_state \<Rightarrow> bool" where
  "statement_inv s \<longleftrightarrow> (case s of (t, d, T) \<Rightarrow>
     wf_db d \<and> reservations_wf (db_reservations d @ pending_rows T) \<and> (\<forall>x \<in> set T. task_ok d x))"

lemma task_ok_kept: "ids_kept d d' \<Longrightarrow> task_ok d x \<Longrightarrow> task_ok d' x"
  by (cases x) (auto simp: ids_kept_def)

lemma reservations_wf_prefix: "reservations_wf (xs @ zs) \<Longrightarrow> reservations_wf xs"
  by (auto simp: reservations_wf_def exclusive_def)

lemma reservations_wf_subset:
  assumes "reservations_wf ys" "mset xs \<subseteq># mset ys" shows "reservations_wf xs"
proof -
  obtain zs where zs: "mset ys = mset (xs @ zs)"
    using assms(2) ex_mset by (metis mset_append subset_mset.add_diff_inverse)
  have "distinct (map r_id ys) \<longleftrightarrow> distinct (map r_id (xs @ zs))"
    by (rule mset_eq_imp_distinct_iff) (simp only: mset_map zs)
  moreover have "exclusive ys \<longleftrightarrow> exclusive (xs @ zs)"
    by (simp only: exclusive_def mset_eq_setD [OF zs])
  moreover have "\<forall>r \<in> set (xs @ zs). range_ok (r_time_range r)"
    using assms(1) unfolding reservations_wf_def mset_eq_setD [OF zs, symmetric] by blast
  ultimately have "reservations_wf (xs @ zs)" using assms(1) by (simp only: reservations_wf_def simp_thms)
  then show ?thesis by (rule reservations_wf_prefix)
qed

lemma wf_append_row:
  assumes "wf_db d" "reservations_wf (db_reservations d @ [r])"
    and "r_user_id r \<in> u_id ` set (db_users d)" "r_host_id r \<in> h_id ` set (db_hosts d)"
  shows "wf_db (d\<lparr>db_reservations := db_reservations d @ [r]\<rparr>)"
  using assms by (auto simp: wf_db_def refs_wf_def)

lemma booked_simps [simp]:
  "r_id (booked nid usr hid s e c) = nid" "r_user_id (booked nid usr hid s e c) = u_id usr"
  "r_host_id (booked nid usr hid s e c) = hid" "r_time_range (booked nid usr hid s e c) = TimeRange s e"
  "r_status (booked nid usr hid s e c) = CONFIRMED"
  by (simp_all add: booked_def)

lemma task_row_simps [simp]:
  "r_id (task_row q nid created) = nid" "r_user_id (task_row q nid created) = u_id (tk_user q)"
  "r_host_id (task_row q nid created) = tk_host q" "r_status (task_row q nid created) = CONFIRMED"
  "r_time_range (task_row q nid created) = TimeRange (instant_of (tk_from q)) (instant_of (tk_until q))"
  by (simp_all add: task_row_def)

lemma commit_simps [simp]:
  "db_reservations (commit_booking q r d) = db_reservations d @ [r]"
  "db_users (commit_booking q r d) = db_users d" "db_hosts (commit_booking q r d) = db_hosts d"
  "db_reservations (commit_cancel now usr rid d) = db_reservations (cancel_row rid now d)"
  "db_users (commit_cancel now usr rid d) = db_users d" "db_hosts (commit_cancel now usr rid d) = db_hosts d"
  by (simp_all add: commit_booking_def commit_cancel_def)

lemma commit_kept: "ids_kept d (commit_booking q r d)" "ids_kept d (commit_cancel now usr rid d)"
  by (simp_all add: ids_kept_def)

lemma insert_beside_Inr:
  assumes "insert_beside ps q nid created d = Inr d1" "instant_of (tk_from q) < instant_of (tk_until q)"
  shows "db_reservations d1 = db_reservations d @ ps @ [task_row q nid created]"
    and "u_id (tk_user q) \<in> u_id ` set (db_users d)" "tk_host q \<in> h_id ` set (db_hosts d)"
  using assms by (auto simp: insert_beside_def task_row_def booked_def mk_range_lt elim!: insert_reservation_Inr)

lemma reservations_wf_cancel:
  assumes "reservations_wf (rs @ ps)"
  shows "reservations_wf (update_where (\<lambda>r. r_id r = i) (\<lambda>r. r\<lparr>r_status := CANCELED, r_canceled_at := Some now\<rparr>) rs @ ps)"
    (is "reservations_wf (update_where ?P ?f rs @ ps)")
proof -
  have "r \<notin> set rs" if "r \<in> set ps" for r using assms that by (auto simp: reservations_wf_def)
  then have "update_where ?P ?f rs @ ps = update_where (\<lambda>r. ?P r \<and> r \<in> set rs) ?f (rs @ ps)"
    by (auto simp: update_where_def intro!: map_idI [symmetric])
  moreover have "reservations_wf (update_where Q ?f (rs @ ps))" for Q
    using assms unfolding reservations_wf_def
    by (auto simp: map_update_where set_update_where intro!: exclusive_update)
  ultimately show ?thesis by simp
qed

lemma statement_invD:
  assumes "statement_inv (t, d, T)"
  shows "wf_db d" "reservations_wf (db_reservations d @ pending_rows T)" "x \<in> set T \<Longrightarrow> task_ok d x"
  using assms by (simp_all add: statement_inv_def)

lemma statement_inv_step: "statement_step cfg s s' \<Longrightarrow> statement_inv s \<Longrightarrow> statement_inv s'"
proof (induction rule: statement_step.induct)
  case (Admit now t q d T)
  then have "instant_of (tk_from q) < instant_of (tk_until q)"
    by (auto simp: admit_booking_def split: sum.splits dest: validate_window_proper)
  with Admit show ?case by (simp add: statement_inv_def)
next
  case (Choose_Window t d T1 usr hid now T2)
  obtain s e where w: "instant_window now (next_reservation_start d hid now) = (s, e)"
    by (cases "instant_window now (next_reservation_start d hid now)")
  have "task_ok d (Admitted (instant_task usr hid now d))"
    using instant_window_proper(3) [OF w] by (simp add: instant_task_def w)
  with Choose_Window show ?case by (simp add: statement_inv_def)
next
  case (Insert T1 T2 q nid created d d1 t)
  note I = statement_invD [OF Insert.prems]
  have lt: "instant_of (tk_from q) < instant_of (tk_until q)" using I(3) [of "Checked q"] by simp
  have "reservations_wf (db_reservations d1)"
    by (rule reservations_wf_insert [OF Insert.hyps [unfolded insert_beside_def]]) (use I(2) in simp)
  then have "reservations_wf (db_reservations d @ pending_rows T1 @ task_row q nid created # pending_rows T2)"
    unfolding insert_beside_Inr(1) [OF Insert.hyps lt] by (rule reservations_wf_subset) simp
  with Insert lt insert_beside_Inr(2,3) [OF Insert.hyps lt] show ?case by (simp add: statement_inv_def)
next
  case (Commit t d T1 q nid created T2)
  note I = statement_invD [OF Commit.prems]
  let ?r = "task_row q nid created"
  have "reservations_wf (db_reservations d @ [?r])"
    by (rule reservations_wf_subset [OF I(2)]) simp
  then have "wf_db (commit_booking q ?r d)"
    unfolding commit_booking_def using I(1) I(3) [of "Inserted q nid created"]
    by (intro wf_write_audit wf_append_row) simp_all
  moreover have "reservations_wf ((db_reservations d @ [?r]) @ pending_rows T1 @ pending_rows T2)"
    by (rule reservations_wf_subset [OF I(2)]) simp
  ultimately show ?case
    using I(3) task_ok_kept [OF commit_kept(1)] by (auto simp: statement_inv_def)
next
  case (Fail t d T1 x T2)
  note I = statement_invD [OF Fail.prems]
  have "reservations_wf (db_reservations d @ pending_rows (T1 @ T2))"
    by (rule reservations_wf_subset [OF I(2)]) (simp split: option.split)
  with Fail show ?case by (simp add: statement_inv_def)
next
  case (Commit_Cancel now t d T1 usr rid T2)
  note I = statement_invD [OF Commit_Cancel.prems]
  have "reservations_wf (db_reservations (cancel_row rid now d) @ pending_rows (T1 @ T2))"
    using reservations_wf_cancel [OF I(2)] by (simp add: cancel_row_def)
  moreover have "wf_db (commit_cancel now usr rid d)"
    unfolding commit_cancel_def by (intro wf_write_audit wf_cancel_row I(1))
  ultimately show ?case
    using I(3) task_ok_kept [OF commit_kept(2)] by (auto simp: statement_inv_def)
next
  case (Elsewhere d d' t T)
  then show ?case using task_ok_kept [of d d'] by (auto simp: statement_inv_def elsewhere_def)
qed (auto simp: statement_inv_def)

lemma statement_inv_start: "statement_start s \<Longrightarrow> statement_inv s"
  by (cases s) (auto simp: statement_start_def statement_inv_def reservations_wf_def exclusive_def, simp_all add: empty_db_def)

interpretation statements: invariant_system statement_start "statement_step cfg" statement_inv for cfg
  by unfold_locales (rule statement_inv_start, assumption, rule statement_inv_step)

subsection \<open>No double booking\<close>

definition statement_view :: "statement_state \<Rightarrow> booking set" where
  "statement_view s = (case s of (t, d, T) \<Rightarrow> timetable_of (db_reservations d))"

lemma append_is_step:
  assumes "reservations_wf (rs @ [r])" "r_time_range r = TimeRange s e" "s < e" "r_status r = CONFIRMED"
  shows "timetable_step (timetable_of rs) (timetable_of (rs @ [r]))"
proof -
  let ?b = "\<lparr>bk_id = r_id r, bk_user = r_user_id r, bk_host = r_host_id r, bk_from = s, bk_until = e\<rparr>"
  have r: "booking_of r = Some ?b" by (simp add: booking_of_Some assms)
  then have "timetable_of (rs @ [r]) = insert ?b (timetable_of rs)" by (auto simp: timetable_of_def)
  moreover have "compatible ?b c" if "c \<in> timetable_of rs" for c
  proof -
    from that obtain q where q: "q \<in> set rs" "booking_of q = Some c" by (auto simp: timetable_of_def)
    moreover have "r_id r \<notin> r_id ` set rs" using assms(1) by (simp add: reservations_wf_def)
    ultimately have "r_id q \<noteq> r_id r" by (metis imageI)
    with q assms show ?thesis
      by (auto simp: compatible_def booking_of_Some reservations_wf_def exclusive_def not_less)
  qed
  ultimately show ?thesis using assms(3) by (auto intro: Book)
qed

lemma statement_timetable_step:
  "statement_step cfg s s' \<Longrightarrow> statement_inv s \<Longrightarrow> timetable_step (statement_view s) (statement_view s')"
proof (induction rule: statement_step.induct)
  case (Commit t d T1 q nid created T2)
  note I = statement_invD [OF Commit.prems]
  have "reservations_wf (db_reservations d @ [task_row q nid created])"
    by (rule reservations_wf_subset [OF I(2)]) simp
  then have "timetable_step (timetable_of (db_reservations d)) (timetable_of (db_reservations d @ [task_row q nid created]))"
    using I(3) [of "Inserted q nid created"]
    by (intro append_is_step [of _ _ "instant_of (tk_from q)" "instant_of (tk_until q)"]) simp_all
  then show ?case by (simp add: statement_view_def)
next
  case (Commit_Cancel now t d T1 usr rid T2)
  with cancel_is_step [OF statement_invD(1)] show ?case by (simp add: statement_view_def)
qed (simp_all add: statement_view_def elsewhere_def Idle)

interpretation statement_timetable: simulation statement_start "statement_step cfg" timetable_start timetable_step statement_view
  for cfg
proof unfold_locales
  show "timetable_start (statement_view s)" if "statement_start s" for s
    using that by (auto simp: statement_start_def statement_view_def timetable_start_def timetable_of_def empty_db_def)
  show "timetable_step (statement_view s) (statement_view s')"
    if "reach statement_start (statement_step cfg) s" "statement_step cfg s s'" for s s'
    using statement_timetable_step [OF that(2) statements.inv_reach [OF that(1)]] .
qed

subsection \<open>The limit on unfinished reservations\<close>

text \<open>The bookings of a user that have passed the first query of the quota and are not yet committed, and
  the steps after which no user has more than \<open>K\<close> of them.\<close>

fun has_counted :: "int \<Rightarrow> task \<Rightarrow> bool" where
  "has_counted uid (Counted q) \<longleftrightarrow> u_id (tk_user q) = uid"
| "has_counted uid (Checked q) \<longleftrightarrow> u_id (tk_user q) = uid"
| "has_counted uid (Inserted q nid created) \<longleftrightarrow> u_id (tk_user q) = uid"
| "has_counted uid _ \<longleftrightarrow> False"

definition in_flight :: "int \<Rightarrow> task list \<Rightarrow> nat" where
  "in_flight uid T = count_where (has_counted uid) T"

definition limited_step :: "settings \<Rightarrow> nat \<Rightarrow> statement_state \<Rightarrow> statement_state \<Rightarrow> bool" where
  "limited_step cfg K s s' \<longleftrightarrow> statement_step cfg s s' \<and> (\<forall>uid. in_flight uid (snd (snd s')) \<le> K)"

definition limit_inv :: "settings \<Rightarrow> nat \<Rightarrow> statement_state \<Rightarrow> bool" where
  "limit_inv cfg K s \<longleftrightarrow> (case s of (t, d, T) \<Rightarrow> \<forall>uid.
     concurrent_count d uid t + int (in_flight uid T) \<le> max 0 (max_concurrent_reservations cfg - 1 + int K))"

lemma in_flight_simps [simp]:
  "in_flight uid [] = 0" "in_flight uid (T1 @ T2) = in_flight uid T1 + in_flight uid T2"
  "in_flight uid (x # T) = (if has_counted uid x then 1 else 0) + in_flight uid T"
  by (simp_all add: in_flight_def row_simps)

lemma concurrent_count_commit:
  "concurrent_count (commit_booking q (task_row q nid created) d) uid t
     \<le> concurrent_count d uid t + (if u_id (tk_user q) = uid then 1 else 0)"
  by (simp add: concurrent_count_def row_simps)

lemma concurrent_count_cancel: "concurrent_count (commit_cancel now usr rid d) uid t \<le> concurrent_count d uid t"
  unfolding concurrent_count_def commit_simps cancel_row_def by (auto intro: count_where_update_le)

lemma limit_inv_step:
  "statement_step cfg s s' \<Longrightarrow> \<forall>uid. in_flight uid (snd (snd s')) \<le> K \<Longrightarrow> limit_inv cfg K s \<Longrightarrow> limit_inv cfg K s'"
proof (induction rule: statement_step.induct)
  case (Tick t t' d T)
  show ?case
    unfolding limit_inv_def prod.case
  proof
    fix uid
    show "concurrent_count d uid t' + int (in_flight uid T) \<le> max 0 (max_concurrent_reservations cfg - 1 + int K)"
      using Tick.prems(2) concurrent_count_later [OF Tick.hyps, of d uid] unfolding limit_inv_def prod.case
      by (smt (verit))
  qed
next
  case (Count now t d q T1 T2)
  have "concurrent_count d (u_id (tk_user q)) t < max_concurrent_reservations cfg"
    using Count.hyps concurrent_count_later [of now t d "u_id (tk_user q)"]
    by (simp add: validate_concurrent_def Let_def split: if_splits)
  moreover have "in_flight (u_id (tk_user q)) (T1 @ Counted q # T2) \<le> K" using Count.prems(1) [rule_format, of "u_id (tk_user q)"] by simp
  ultimately have "concurrent_count d (u_id (tk_user q)) t + int (in_flight (u_id (tk_user q)) (T1 @ Counted q # T2))
      \<le> max 0 (max_concurrent_reservations cfg - 1 + int K)" by linarith
  with Count.prems(2) show ?case by (auto simp: limit_inv_def)
next
  case (Commit t d T1 q nid created T2)
  show ?case
    unfolding limit_inv_def prod.case
  proof
    fix uid
    show "concurrent_count (commit_booking q (task_row q nid created) d) uid t + int (in_flight uid (T1 @ T2))
        \<le> max 0 (max_concurrent_reservations cfg - 1 + int K)"
      using Commit.prems(2) [unfolded limit_inv_def prod.case, rule_format, of uid]
        concurrent_count_commit [of q nid created d uid t] by (auto split: if_splits)
  qed
next
  case (Fail t d T1 x T2)
  show ?case
    unfolding limit_inv_def prod.case
  proof
    fix uid
    show "concurrent_count d uid t + int (in_flight uid (T1 @ T2)) \<le> max 0 (max_concurrent_reservations cfg - 1 + int K)"
      using Fail.prems(2) [unfolded limit_inv_def prod.case, rule_format, of uid] by (simp split: if_splits)
  qed
next
  case (Commit_Cancel now t d T1 usr rid T2)
  show ?case
    unfolding limit_inv_def prod.case
  proof
    fix uid
    show "concurrent_count (commit_cancel now usr rid d) uid t + int (in_flight uid (T1 @ T2))
        \<le> max 0 (max_concurrent_reservations cfg - 1 + int K)"
      using Commit_Cancel.prems(2) [unfolded limit_inv_def prod.case, rule_format, of uid]
        concurrent_count_cancel [of now usr rid d uid t] by simp
  qed
next
  case (Elsewhere d d' t T)
  then show ?case by (simp add: limit_inv_def elsewhere_def concurrent_count_def)
qed (simp_all add: limit_inv_def)

interpretation limited: invariant_system statement_start "limited_step cfg K" "limit_inv cfg K" for cfg K
proof unfold_locales
  show "limit_inv cfg K s" if "statement_start s" for s
    using that by (auto simp: statement_start_def limit_inv_def concurrent_count_def empty_db_def row_simps)
  show "limit_inv cfg K s'" if "limit_inv cfg K s" "limited_step cfg K s s'" for s s'
    using that limit_inv_step [of cfg s s' K] by (simp add: limited_step_def)
qed

lemma reach_limited: "reach statement_start (limited_step cfg K) s \<Longrightarrow> reach statement_start (statement_step cfg) s"
  by (induction rule: reach.induct) (auto simp: limited_step_def intro: reach.intros)

lemma in_flight_le: "in_flight uid T \<le> length T"
  by (simp add: in_flight_def count_where_def)

lemma limitedI: "statement_step cfg (t, d, T) (t', d', T') \<Longrightarrow> length T' \<le> K \<Longrightarrow> limited_step cfg K (t, d, T) (t', d', T')"
  by (auto simp: limited_step_def intro: le_trans [OF in_flight_le])

subsection \<open>Requests one after another\<close>

text \<open>Requests that are handled one after another, as \<open>System\<close> has them, are a special case: every step of
  \<open>system_step\<close> is a sequence of statements with at most one booking in flight.\<close>

definition alone :: "settings \<Rightarrow> statement_state \<Rightarrow> statement_state \<Rightarrow> bool" where
  "alone cfg = (limited_step cfg 1)\<^sup>*\<^sup>*"

lemma alone_refl [simp]: "alone cfg s s"
  by (simp add: alone_def)

lemma alone_trans: "alone cfg s s' \<Longrightarrow> alone cfg s' s'' \<Longrightarrow> alone cfg s s''"
  unfolding alone_def by (rule rtranclp_trans)

lemma alone_first:
  assumes "statement_step cfg (t, d, T) (t', d', T')" "length T' \<le> 1" "alone cfg (t', d', T') s"
  shows "alone cfg (t, d, T) s"
  using limitedI [OF assms(1,2)] assms(3) unfolding alone_def by (rule converse_rtranclp_into_rtranclp)

definition committed :: "system \<Rightarrow> statement_state" where
  "committed s = (fst s, w_db (snd s), [])"

lemma book_row_commits:
  assumes "book_row nid created usr hid s e extra d = Inr (r, d')" "instant_of s < instant_of e"
    and "q = \<lparr>tk_user = usr, tk_host = hid, tk_from = s, tk_until = e, tk_extra = extra\<rparr>"
  shows "\<exists>d1. insert_beside [] q nid created d = Inr d1" and "d' = commit_booking q (task_row q nid created) d"
proof -
  obtain d1 where ins: "insert_reservation nid (u_id usr) hid (instant_of s) (instant_of e) created d = Inr d1"
    using book_row_Inr(5) [OF assms(1,2)] ..
  then show "\<exists>d1. insert_beside [] q nid created d = Inr d1" by (simp add: insert_beside_def assms(3))
  have "d1 = d\<lparr>db_reservations := db_reservations d @ [task_row q nid created]\<rparr>"
    using ins assms(2) by (auto elim!: insert_reservation_Inr simp: task_row_def booked_def assms(3) mk_range_lt)
  with ins assms(1) book_row_Inr(1) [OF assms(1,2)] show "d' = commit_booking q (task_row q nid created) d"
    by (auto simp: book_row_def commit_booking_def assms(3) split: option.splits)
qed

lemma booking_statements:
  assumes "book_row nid created usr hid s e extra d = Inr (r, d')" "instant_of s < instant_of e"
    and "validate_quota cfg now d usr s e = Inr ()" "now \<le> t"
  shows "alone cfg
    (t, d, [Admitted \<lparr>tk_user = usr, tk_host = hid, tk_from = s, tk_until = e, tk_extra = extra\<rparr>]) (t, d', [])"
proof -
  let ?q = "\<lparr>tk_user = usr, tk_host = hid, tk_from = s, tk_until = e, tk_extra = extra\<rparr>"
  have quota: "validate_concurrent cfg now d (tk_user ?q) = Inr ()"
    "validate_daily cfg d (tk_user ?q) (tk_from ?q) (tk_until ?q) = Inr ()"
    using assms(3) by (auto simp: validate_quota_statements split: sum.splits)
  obtain d1 where ins: "insert_beside [] ?q nid created d = Inr d1"
    using book_row_commits(1) [OF assms(1,2) refl] ..
  have count: "statement_step cfg (t, d, [Admitted ?q]) (t, d, [Counted ?q])"
    using Count [of now t cfg d ?q "[]" "[]"] quota assms(4) by simp
  have daily: "statement_step cfg (t, d, [Counted ?q]) (t, d, [Checked ?q])"
    using Daily [of cfg d ?q t "[]" "[]"] quota by simp
  have insert: "statement_step cfg (t, d, [Checked ?q]) (t, d, [Inserted ?q nid created])"
    using Insert [of "[]" "[]" ?q nid created d d1] ins by simp
  have commit: "statement_step cfg (t, d, [Inserted ?q nid created]) (t, d', [])"
    using Commit [of cfg t d "[]" ?q nid created "[]"] book_row_commits(2) [OF assms(1,2) refl] by simp
  show ?thesis
    by (rule alone_first [OF count _ alone_first [OF daily _ alone_first [OF insert _ alone_first [OF commit]]]]) simp_all
qed

lemma create_statements:
  assumes "create_reservation cfg now1 now2 nid created usr hid s e d = Inr (r, d')" "now1 \<le> t" "now2 \<le> t"
  shows "alone cfg (t, d, []) (t, d', [])"
proof -
  let ?q = "\<lparr>tk_user = usr, tk_host = hid, tk_from = s, tk_until = e, tk_extra = []\<rparr>"
  note c = create_reservation_InrD [OF assms(1)]
  have "admit_booking cfg now1 ?q d = Inr ()"
    using assms(1) by (auto simp: admit_booking_def create_reservation_def split: sum.splits)
  then have "statement_step cfg (t, d, []) (t, d, [Admitted ?q])" using assms(2) by (intro Admit) simp_all
  from alone_first [OF this _ booking_statements [OF c(1,4,3) assms(3)]] show ?thesis by simp
qed

lemma instant_statements:
  assumes "create_instant_reservation cfg now now2 nid created usr hid d = Inr (r, d')" "now \<le> t" "now2 \<le> t"
  shows "alone cfg (t, d, []) (t, d', [])"
  using assms(1)
proof (rule create_instant_InrD)
  fix s e
  assume b: "book_row nid created usr hid (at_utc s) (at_utc e) [(''instant'', JBool True)] d = Inr (r, d')"
    and win: "instant_window now (next_reservation_start d hid now) = (s, e)"
    and q: "validate_quota cfg now2 d usr (at_utc s) (at_utc e) = Inr ()"
  have "check_idle hid d = Inr ()"
    using assms(1) by (auto simp: check_idle_def create_instant_reservation_def split: sum.splits if_splits)
  then have 1: "statement_step cfg (t, d, []) (t, d, [Found_Idle usr hid now])" by (rule Find_Idle [OF assms(2)])
  have 2: "statement_step cfg (t, d, [Found_Idle usr hid now])
      (t, d, [Admitted \<lparr>tk_user = usr, tk_host = hid, tk_from = at_utc s, tk_until = at_utc e,
         tk_extra = [(''instant'', JBool True)]\<rparr>])"
    using Choose_Window [of cfg t d "[]" usr hid now "[]"] by (simp add: instant_task_def win)
  have 3: "alone cfg (t, d, [Admitted \<lparr>tk_user = usr, tk_host = hid, tk_from = at_utc s, tk_until = at_utc e,
         tk_extra = [(''instant'', JBool True)]\<rparr>]) (t, d', [])"
    by (rule booking_statements [OF b _ q assms(3)]) (simp add: instant_window_proper(3) [OF win])
  show ?thesis by (rule alone_first [OF 1 _ alone_first [OF 2 _ 3]]) simp_all
qed

lemma elsewhere_evolves: "wf_db d \<Longrightarrow> evolves d d' \<Longrightarrow> db_reservations d' = db_reservations d \<Longrightarrow> elsewhere d d'"
  by (simp add: elsewhere_def evolves_def)

lemma elsewhere_statements:
  assumes "elsewhere d d'" shows "alone cfg (t, d, []) (t, d', [])"
  by (rule alone_first [OF Elsewhere [OF assms]]) simp_all

lemma cancel_statements:
  assumes "cancel_reservation now usr rid d = Inr (r, d')" "now \<le> t"
  shows "alone cfg (t, d, []) (t, d', [])"
proof -
  obtain r0 where r0: "get_reservation usr rid d = Inr r0"
    using assms(1) by (auto simp: cancel_reservation_def split: sum.splits)
  then have id: "r_id r0 = rid" by (auto simp: get_reservation_Inr dest: get_reservation_rowD)
  show ?thesis
  proof (cases "r_status r0 = CANCELED")
    case True
    with assms(1) r0 show ?thesis by (simp add: cancel_reservation_def)
  next
    case False
    have "d' = commit_cancel now usr rid d"
      using assms(1) r0 False id
      by (auto simp: cancel_reservation_def commit_cancel_def Let_def dest!: get_reservation_rowD split: option.splits)
    then have commit: "statement_step cfg (t, d, [Cancelling usr rid]) (t, d', [])"
      using Commit_Cancel [OF assms(2), of cfg d "[]" usr rid "[]"] by simp
    show ?thesis
      by (rule alone_first [OF Begin_Cancel [OF r0 False, of cfg t "[]"] _ alone_first [OF commit]]) simp_all
  qed
qed

lemma route_statements:
  assumes "wf_db d" "evolves d d'" "db_reservations d' = db_reservations d"
  shows "alone cfg (t, d, []) (t, d', [])"
  by (rule elsewhere_statements [OF elsewhere_evolves [OF assms]])

lemma create_endpoint_statements:
  assumes "now1 \<le> t" "now2 \<le> t"
  shows "alone cfg (t, w_db w, [])
    (t, w_db (snd (create_reservation_endpoint cfg now1 now2 nid created usr p w)), [])"
proof (cases "create_reservation cfg now1 now2 nid created usr (rc_host_id p) (rc_starts_at p) (rc_ends_at p) (w_db w)")
  case (Inr x)
  obtain r d where x: "x = (r, d)" by (cases x)
  show ?thesis using create_statements [OF Inr [unfolded x] assms] by (simp add: create_reservation_endpoint_def Inr x)
qed (simp add: create_reservation_endpoint_def)

lemma evolves_split:
  assumes "alone cfg (t, d, []) (t, d1, [])" "wf_db d1" "evolves d1 d'" "db_reservations d' = db_reservations d1"
  shows "alone cfg (t, d, []) (t, d', [])"
  using assms(1) route_statements [OF assms(2-4)] by (rule alone_trans)

lemma instant_endpoint_statements:
  assumes "wf_db (w_db w)" "ic_now clk \<le> t" "ic_quota clk \<le> t"
  shows "alone cfg (t, w_db w, [])
    (t, w_db (snd (instant_reservation_endpoint sha cfg clk nid created raw tid usr hid w)), [])"
proof (rule instant_endpoint_cases [of sha cfg clk nid created raw tid usr hid w])
  fix r d1
  assume c: "create_instant_reservation cfg (ic_now clk) (ic_quota clk) nid created usr hid (w_db w) = Inr (r, d1)"
    and e: "evolves d1 (w_db (snd (instant_reservation_endpoint sha cfg clk nid created raw tid usr hid w)))"
    and s: "db_reservations (w_db (snd (instant_reservation_endpoint sha cfg clk nid created raw tid usr hid w)))
      = db_reservations d1"
  have "wf_db d1" using c assms(1) evolves_book_row by (auto simp: evolves_def elim!: create_instant_InrD)
  then show ?thesis using evolves_split [OF instant_statements [OF c assms(2,3)] _ e s] by simp
qed simp

lemma cancel_endpoint_statements:
  assumes "wf_db (w_db w)" "cn \<le> t"
  shows "alone cfg (t, w_db w, []) (t, w_db (snd (cancel_reservation_endpoint cn now rid usr w)), [])"
proof (cases "cancel_reservation cn usr rid (w_db w)")
  case (Inr x)
  obtain r d1 where x: "x = (r, d1)" by (cases x)
  note c = Inr [unfolded x]
  have "wf_db d1" using cancel_evolves [OF c] assms(1) by (simp add: evolves_def)
  note later = evolves_split [OF cancel_statements [OF c assms(2)] this]
  have "alone cfg (t, w_db w, [])
      (t, fst (snd (transition_host h IDLE ''reservation_canceled'' None now d1)), [])"
    if "get_host d1 (r_host_id r) = Some h" for h
    using that evolves_transition_host [of h IDLE _ None now d1 _ _ _] get_hostD [OF that]
    by (intro later) (metis prod.collapse, simp)
  then show ?thesis using cancel_statements [OF c assms(2)]
    by (auto simp: cancel_reservation_endpoint_def Inr x split: option.split)
qed (simp add: cancel_reservation_endpoint_def)

lemma system_step_statements:
  assumes "wf_db (w_db w)" "system_step sha cfg (t, w) (t', w')"
  shows "alone cfg (t', w_db w, []) (t', w_db w', [])"
  using assms(2)
  by (rule system_stepE)
    (simp_all add: assms(1) clocked_def create_endpoint_statements instant_endpoint_statements cancel_endpoint_statements
      route_statements route_evolves route_frames with_broker_def)

interpretation serial_requests: simulation system_start "system_step sha cfg" statement_start "alone cfg" committed
  for sha cfg
proof unfold_locales
  show "statement_start (committed s)" if "system_start s" for s
    using that by (simp add: system_start_def statement_start_def committed_def)
  show "alone cfg (committed s) (committed s')"
    if "reach system_start (system_step sha cfg) s" "system_step sha cfg s s'" for s s'
  proof -
    obtain t w t' w' where s: "s = (t, w)" "s' = (t', w')" by (cases s, cases s')
    note tick = Tick [OF step_time [OF that(2) [unfolded s]]]
    from alone_first [OF tick _ system_step_statements [OF reach_wf [OF that(1) [unfolded s]] that(2) [unfolded s]]]
    show ?thesis by (simp add: s committed_def)
  qed
qed

lemma reach_steps: "reach init (step\<^sup>*\<^sup>*) s \<Longrightarrow> reach init step s"
proof (induction rule: reach.induct)
  case (reach_step s t)
  from reach_step(2,3) show ?case
    by (induction rule: rtranclp_induct) (auto intro: reach.reach_step)
qed (rule reach.reach_init)

lemma reach_alone: "reach system_start (system_step sha cfg) s \<Longrightarrow> reach statement_start (limited_step cfg 1) (committed s)"
  by (rule reach_steps) (use serial_requests.sim_reach [of sha cfg s] in \<open>simp add: alone_def\<close>)

subsection \<open>Bookings that overlap in time\<close>

text \<open>Tasks that all pass the two queries before any of them inserts its row.\<close>

definition passes :: "settings \<Rightarrow> instant \<Rightarrow> db \<Rightarrow> booking_task \<Rightarrow> bool" where
  "passes cfg t d q \<longleftrightarrow> admit_booking cfg t q d = Inr () \<and> tk_extra q = []
     \<and> validate_concurrent cfg t d (tk_user q) = Inr ()
     \<and> validate_daily cfg d (tk_user q) (tk_from q) (tk_until q) = Inr ()"

definition insertable :: "db \<Rightarrow> booking_task \<Rightarrow> bool" where
  "insertable d q \<longleftrightarrow> instant_of (tk_from q) < instant_of (tk_until q)
     \<and> u_id (tk_user q) \<in> u_id ` set (db_users d) \<and> tk_host q \<in> h_id ` set (db_hosts d)
     \<and> \<not> excluded (db_reservations d) (tk_host q) (TimeRange (instant_of (tk_from q)) (instant_of (tk_until q)))"

lemma checks_overlap:
  "list_all (passes cfg t d) qs \<Longrightarrow> length qs \<le> K \<Longrightarrow>
   (limited_step cfg K)\<^sup>*\<^sup>* (t, d, []) (t, d, map Checked qs)"
proof (induction qs)
  case (Cons q qs)
  let ?T = "map Checked qs"
  have p: "admit_booking cfg t q d = Inr ()" "tk_extra q = []" "validate_concurrent cfg t d (tk_user q) = Inr ()"
    "validate_daily cfg d (tk_user q) (tk_from q) (tk_until q) = Inr ()"
    using Cons.prems(1) by (simp_all add: passes_def)
  have "(limited_step cfg K)\<^sup>*\<^sup>* (t, d, []) (t, d, ?T)" using Cons by simp
  also have "limited_step cfg K (t, d, ?T) (t, d, Admitted q # ?T)"
    using Admit [OF order_refl p(1,2)] Cons.prems(2) by (intro limitedI) simp_all
  also have "limited_step cfg K (t, d, Admitted q # ?T) (t, d, Counted q # ?T)"
    using Count [OF order_refl p(3), of "[]" ?T] Cons.prems(2) by (intro limitedI) simp_all
  also have "limited_step cfg K (t, d, Counted q # ?T) (t, d, Checked q # ?T)"
    using Daily [OF p(4), of t "[]" ?T] Cons.prems(2) by (intro limitedI) simp_all
  finally show ?case by simp
qed simp

lemma pending_checked [simp]: "pending_rows (map Checked qs) = []"
  by (induction qs) simp_all

lemma insert_beside_success:
  assumes "insertable d q" "nid \<notin> r_id ` set (db_reservations d)"
  shows "\<exists>d1. insert_beside [] q nid created d = Inr d1"
  using assms by (simp add: insert_beside_def insertable_def insert_reservation_def mk_range_lt get_None_iff)

lemma insertable_commit:
  "insertable d p \<Longrightarrow> tk_host p \<noteq> tk_host q \<Longrightarrow> insertable (commit_booking q (task_row q nid created) d) p"
  by (auto simp: insertable_def excluded_def)

lemma commits_overlap:
  assumes "list_all (insertable d) qs" "distinct (map tk_host qs)" "length qs \<le> K"
  shows "\<exists>d'. (limited_step cfg K)\<^sup>*\<^sup>* (t, d, map Checked qs) (t, d', [])
    \<and> (\<exists>ns. length ns = length qs \<and> db_reservations d' = db_reservations d @ map2 (\<lambda>q n. task_row q n t) qs ns)"
  using assms
proof (induction qs arbitrary: d)
  case (Cons q qs)
  let ?T = "map Checked qs"
  obtain nid where new: "nid \<notin> r_id ` set (db_reservations d)"
    using ex_new_if_finite [of "r_id ` set (db_reservations d)"] infinite_UNIV_int by auto
  obtain d1 where ins: "insert_beside [] q nid t d = Inr d1"
    using insert_beside_success [OF _ new] Cons.prems(1) by auto
  let ?d = "commit_booking q (task_row q nid t) d"
  have "list_all (insertable ?d) qs"
    using Cons.prems(1,2) by (auto simp: list_all_iff image_iff intro!: insertable_commit)
  with Cons.IH [of ?d] Cons.prems obtain d' ns where
    run: "(limited_step cfg K)\<^sup>*\<^sup>* (t, ?d, ?T) (t, d', [])" and
    rows: "length ns = length qs" "db_reservations d' = db_reservations ?d @ map2 (\<lambda>q n. task_row q n t) qs ns"
    by auto
  have "limited_step cfg K (t, d, Checked q # ?T) (t, d, Inserted q nid t # ?T)"
    using Insert [of "[]" ?T q nid t d d1] ins Cons.prems(3) by (intro limitedI) simp_all
  moreover have "limited_step cfg K (t, d, Inserted q nid t # ?T) (t, ?d, ?T)"
    using Commit [of cfg t d "[]" q nid t ?T] Cons.prems(3) by (intro limitedI) simp_all
  ultimately have "(limited_step cfg K)\<^sup>*\<^sup>* (t, d, map Checked (q # qs)) (t, d', [])"
    using run by (simp add: converse_rtranclp_into_rtranclp)
  then show ?case using rows by (intro exI [of _ d'] conjI exI [of _ "nid # ns"]) simp_all
next
  case (Nil d)
  show ?case by (intro exI [of _ d]) simp
qed

lemma concurrent_count_rows:
  assumes "length ns = length qs" "\<forall>q \<in> set qs. u_id (tk_user q) = uid \<and> t < instant_of (tk_until q)"
    and "db_reservations d' = db_reservations d @ map2 (\<lambda>q n. task_row q n t) qs ns"
  shows "concurrent_count d' uid t = concurrent_count d uid t + int (length qs)"
proof -
  have "count_where (\<lambda>r. r_user_id r = uid \<and> reservation_active (r_status r) \<and> ends_after t (r_time_range r))
      (map2 (\<lambda>q n. task_row q n t) qs ns) = length qs"
    using assms(1,2) by (induction ns qs rule: list_induct2) (simp_all add: row_simps ends_after_def)
  then show ?thesis by (simp add: concurrent_count_def assms(3) row_simps)
qed

lemma booking_alone_passes:
  assumes "create_reservation cfg t t nid created usr hid s e d = Inr (r, d')"
    and "q = \<lparr>tk_user = usr, tk_host = hid, tk_from = s, tk_until = e, tk_extra = []\<rparr>"
  shows "passes cfg t d q" "insertable d q" "t < instant_of e"
proof -
  note c = create_reservation_InrD [OF assms(1)]
  note b = book_row_Inr [OF c(1,4)]
  show "passes cfg t d q"
    using assms c(3) by (auto simp: passes_def admit_booking_def create_reservation_def validate_quota_statements split: sum.splits)
  obtain d1 where "insert_reservation nid (u_id usr) hid (instant_of s) (instant_of e) created d = Inr d1" using b(5) ..
  then show "insertable d q" using b(3) c(4) by (auto simp: insertable_def assms(2) elim!: insert_reservation_Inr)
  show "t < instant_of e" using c(4,5) by simp
qed

lemma overlapping_bookings:
  assumes "distinct hs" "list_all (\<lambda>hid. is_ok (create_reservation cfg t t nid created usr hid s e d)) hs"
  shows "\<exists>d'. (limited_step cfg (length hs))\<^sup>*\<^sup>* (t, d, []) (t, d', [])
    \<and> concurrent_count d' (u_id usr) t = concurrent_count d (u_id usr) t + int (length hs)"
proof -
  let ?q = "\<lambda>hid. \<lparr>tk_user = usr, tk_host = hid, tk_from = s, tk_until = e, tk_extra = []\<rparr>"
  let ?qs = "map ?q hs"
  have p: "passes cfg t d (?q hid)" "insertable d (?q hid)" "t < instant_of e" if "hid \<in> set hs" for hid
    using assms(2) that booking_alone_passes by (fastforce simp: list_all_iff is_ok_iff)+
  have "list_all (insertable d) ?qs" "distinct (map tk_host ?qs)" "length ?qs \<le> length hs"
    using p(2) assms(1) by (auto simp: list_all_iff comp_def)
  from commits_overlap [OF this, of cfg t] obtain d' ns where
    run: "(limited_step cfg (length hs))\<^sup>*\<^sup>* (t, d, map Checked ?qs) (t, d', [])" and ns: "length ns = length ?qs"
    and rows: "db_reservations d' = db_reservations d @ map2 (\<lambda>q n. task_row q n t) ?qs ns"
    by blast
  have "(limited_step cfg (length hs))\<^sup>*\<^sup>* (t, d, []) (t, d, map Checked ?qs)"
    by (rule checks_overlap) (use p(1) in \<open>auto simp: list_all_iff\<close>)
  then have "(limited_step cfg (length hs))\<^sup>*\<^sup>* (t, d, []) (t, d', [])" using run by (rule rtranclp_trans)
  moreover have "concurrent_count d' (u_id usr) t = concurrent_count d (u_id usr) t + int (length ?qs)"
    by (rule concurrent_count_rows [OF ns _ rows]) (use p(3) in auto)
  ultimately show ?thesis by auto
qed

subsection \<open>What holds however the statements interleave\<close>

text \<open>C1: However the statements of bookings, cancellations and other requests interleave, at any instant
  at most one active reservation of a host covers it, rows that are inserted and not yet committed
  included.\<close>
theorem interleaved_no_double_booking:
  assumes "reach statement_start (statement_step cfg) (t, d, T)"
  shows "count_where (\<lambda>r. reservation_active (r_status r) \<and> r_host_id r = hid
      \<and> range_contains (r_time_range r) u) (db_reservations d @ pending_rows T) \<le> 1"
  by (intro active_at_le_1 statement_invD(2) [OF statements.inv_reach [OF assms]])

lemma reach_run_booking: "reach statement_start (limited_step default_settings 1) (0, w_db run_booking, [])"
  using reach_alone [OF run_reach(1)] by (simp add: committed_def)

text \<open>A state with an uncommitted row, for the witness: a second booking is inserted and not committed.\<close>

definition run_task :: booking_task where
  "run_task = \<lparr>tk_user = run_user, tk_host = 1, tk_from = at_utc (2 * hour_us), tk_until = at_utc (3 * hour_us),
     tk_extra = []\<rparr>"

lemma reach_pending: "reach statement_start (statement_step default_settings) (0, w_db run_booking, [Inserted run_task 2 0])"
proof -
  let ?d = "w_db run_booking"
  have a: "admit_booking default_settings 0 run_task ?d = Inr ()" by code_simp
  have c: "validate_concurrent default_settings 0 ?d (tk_user run_task) = Inr ()" by code_simp
  have v: "validate_daily default_settings ?d (tk_user run_task) (tk_from run_task) (tk_until run_task) = Inr ()"
    by code_simp
  have "is_ok (insert_beside (pending_rows ([] @ [])) run_task 2 0 ?d)" unfolding append_Nil pending_simps by code_simp
  then obtain d1 where i: "insert_beside (pending_rows ([] @ [])) run_task 2 0 ?d = Inr d1" by (auto simp: is_ok_iff)
  have "tk_extra run_task = []" by (simp add: run_task_def)
  note steps = Admit [OF order_refl a this, of "[]"] Count [OF order_refl c, of "[]" "[]"] Daily [OF v, of 0 "[]" "[]"]
    Insert [OF i, of default_settings 0]
  show ?thesis
    by (rule reach_step [OF reach_step [OF reach_step [OF reach_step [OF reach_limited [OF reach_run_booking]]]]])
      (use steps in simp_all)
qed

theorem interleaved_no_double_booking_witness:
  "length (db_reservations (w_db run_booking) @ pending_rows [Inserted run_task 2 0]) = 2
   \<and> count_where (\<lambda>r. reservation_active (r_status r) \<and> r_host_id r = 1
       \<and> range_contains (r_time_range r) (2 * hour_us))
       (db_reservations (w_db run_booking) @ pending_rows [Inserted run_task 2 0]) \<le> 1"
  by (rule conjI, code_simp, rule interleaved_no_double_booking [OF reach_pending])



text \<open>C3: However the statements interleave, each step books something that overlaps no committed booking of
  its host, releases one, or leaves the committed bookings alone: the interleaved system refines the timetable
  as well.\<close>
theorem statements_refine_timetable:
  assumes "reach statement_start (statement_step cfg) s" and "statement_step cfg s s'"
  shows "timetable_step (statement_view s) (statement_view s') \<and> timetable_ok (statement_view s')"
  using statement_timetable.sim_step [OF assms]
    statement_timetable.sim_invariant [OF timetable.invariant_system_axioms reach_step [OF assms]] by blast

theorem statements_refine_timetable_witness:
  "timetable_step (statement_view (0, w_db run_booking, [Inserted run_task 2 0]))
     (statement_view (0, commit_booking run_task (task_row run_task 2 0) (w_db run_booking), []))
   \<and> length (db_reservations (commit_booking run_task (task_row run_task 2 0) (w_db run_booking))) = 2"
proof
  have "statement_step default_settings (0, w_db run_booking, [Inserted run_task 2 0])
      (0, commit_booking run_task (task_row run_task 2 0) (w_db run_booking), [])"
    using Commit [of default_settings 0 "w_db run_booking" "[]" run_task 2 0 "[]"] by simp
  then show "timetable_step (statement_view (0, w_db run_booking, [Inserted run_task 2 0]))
     (statement_view (0, commit_booking run_task (task_row run_task 2 0) (w_db run_booking), []))"
    using statements_refine_timetable [OF reach_pending] by blast
qed code_simp

text \<open>C5: How far the limit on unfinished reservations can be exceeded: when no user ever has more than
  \<open>K\<close> bookings between their count and their commit, no user has more than the limit and \<open>K - 1\<close>; with one
  booking at a time, whatever else goes on, the limit holds.\<close>
theorem limit_with_overlapping_bookings:
  assumes "reach statement_start (limited_step cfg K) (t, d, T)"
    and "0 \<le> max_concurrent_reservations cfg" and "1 \<le> K"
  shows "concurrent_count d uid t + int (in_flight uid T) \<le> max_concurrent_reservations cfg + int K - 1"
proof -
  have "concurrent_count d uid t + int (in_flight uid T) \<le> max 0 (max_concurrent_reservations cfg - 1 + int K)"
    using limited.inv_reach [OF assms(1)] unfolding limit_inv_def prod.case by blast
  also have "\<dots> = max_concurrent_reservations cfg + int K - 1" using assms(2,3) by simp
  finally show ?thesis .
qed

theorem limit_with_overlapping_bookings_witness:
  "concurrent_count (w_db run_booking) 1 0 = 1 \<and> concurrent_count (w_db run_booking) 1 0 + int (in_flight 1 []) \<le> 5"
proof
  have "0 \<le> max_concurrent_reservations default_settings" "max_concurrent_reservations default_settings = 5"
    by code_simp+
  with limit_with_overlapping_bookings [OF reach_run_booking, of 1]
  show "concurrent_count (w_db run_booking) 1 0 + int (in_flight 1 []) \<le> 5" by simp
qed code_simp

text \<open>C6: The bound is met: bookings of a user on different hosts, each of which would be accepted alone, are
  all accepted when their statements overlap, however many they are, and all of them count.\<close>
theorem overlapping_bookings_exceed_limit:
  assumes "distinct hs" and "list_all (\<lambda>hid. is_ok (create_reservation cfg t t nid created usr hid s e d)) hs"
  shows "\<exists>d'. (limited_step cfg (length hs))\<^sup>*\<^sup>* (t, d, []) (t, d', [])
    \<and> concurrent_count d' (u_id usr) t = concurrent_count d (u_id usr) t + int (length hs)"
  by (rule overlapping_bookings [OF assms])

theorem overlapping_bookings_exceed_limit_witness:
  "\<exists>d'. (limited_step (default_settings\<lparr>max_concurrent_reservations := 1\<rparr>) 2)\<^sup>*\<^sup>* (0, sample_db, []) (0, d', [])
     \<and> concurrent_count d' 2 0 = 2"
proof -
  let ?cfg = "default_settings\<lparr>max_concurrent_reservations := 1\<rparr>"
  have ok: "list_all (\<lambda>hid. is_ok (create_reservation ?cfg 0 0 1 0 (sample_user 2 ''user'') hid (at_utc hour_us)
      (at_utc (2 * hour_us)) sample_db)) [7, 8]" by code_simp
  have "u_id (sample_user 2 ''user'') = 2" "concurrent_count sample_db 2 0 = 0" by code_simp+
  with overlapping_bookings_exceed_limit [OF _ ok] show ?thesis by (simp add: numeral_2_eq_2)
qed

end
