(* ===== verification/Status_Interleaving.thy ===== *)
theory Status_Interleaving
  imports Host_Facts
begin

text \<open>
  The monitor and a heartbeat inside each other.  A tick of \<open>services/host_status_monitor.py\<close> selects the
  stale hosts with one statement and writes their status with others; the route of the heartbeat loads the
  row of its host first and writes it last.  A unit of work writes the columns it has changed, into whatever
  row is there when it commits.  Run without interruption the two halves are the tick and the heartbeat of
  \<open>Host_Status\<close> and \<open>Host_Api\<close>; with one inside the other, a host whose heartbeat has just been accepted is
  left offline.
\<close>

subsection \<open>Writing columns\<close>

definition write_columns :: "int \<Rightarrow> (host \<Rightarrow> host) \<Rightarrow> db \<Rightarrow> db" where
  "write_columns i f d = d\<lparr>db_hosts := update_where (\<lambda>h. h_id h = i) f (db_hosts d)\<rparr>"

definition audit_transition :: "host \<Rightarrow> host_status \<Rightarrow> string \<Rightarrow> db \<Rightarrow> db" where
  "audit_transition h new reason =
     write_audit ''host_status_change'' None ActorSystem (Some ''host'') (Some (h_id h)) AuditSuccess
       [(''old'', JStr (host_status_name (h_status h))), (''new'', JStr (host_status_name new)),
        (''reason'', JStr reason)] None None"

text \<open>The second half of a tick, on the rows \<open>hs\<close> its query returned.\<close>

fun commit_tick :: "host list \<Rightarrow> db \<Rightarrow> db" where
  "commit_tick [] d = d"
| "commit_tick (h # hs) d =
     commit_tick hs
       (if h_status h = OFFLINE then d
        else audit_transition h OFFLINE ''heartbeat_stale''
          (write_columns (h_id h) (\<lambda>q. q\<lparr>h_status := OFFLINE\<rparr>) d))"

text \<open>The second half of a heartbeat, on the row \<open>h\<close> that was loaded when the agent was identified.\<close>

definition commit_heartbeat :: "settings \<Rightarrow> instant \<Rightarrow> heartbeat \<Rightarrow> host \<Rightarrow> db \<Rightarrow> db" where
  "commit_heartbeat cfg now p h d =
     (let d1 = write_columns (h_id h)
            (\<lambda>q. q\<lparr>h_last_heartbeat_at := Some now, h_metadata := h_metadata (heartbeat_host now p h)\<rparr>) d;
          st = heartbeat_status cfg now p (h_id h) d1 in
      if h_status h = st then d1
      else audit_transition h st ''heartbeat'' (write_columns (h_id h) (\<lambda>q. q\<lparr>h_status := st\<rparr>) d1))"

lemma get_host_write_columns:
  assumes "\<And>q. h_id (f q) = h_id q"
  shows "get_host (write_columns i f d) j = (if j = i then map_option f (get_host d j) else get_host d j)"
proof -
  have "get_host (write_columns i f d) j = map_option (\<lambda>q. if h_id q = i then f q else q) (get_host d j)"
    unfolding get_host_def write_columns_def by (simp add: fetch_update_where assms)
  then show ?thesis by (cases "get_host d j") (auto dest: get_hostD)
qed

lemma write_columns_frame [simp]:
  "db_users (write_columns i f d) = db_users d" "db_reservations (write_columns i f d) = db_reservations d"
  "db_tokens (write_columns i f d) = db_tokens d" "db_audits (write_columns i f d) = db_audits d"
  by (simp_all add: write_columns_def)

lemma get_host_audit [simp]: "get_host (audit_transition h st reason d) i = get_host d i"
  by (simp add: audit_transition_def get_host_def)

lemma audit_transition_frame [simp]: "db_reservations (audit_transition h st reason d) = db_reservations d"
  "db_hosts (audit_transition h st reason d) = db_hosts d"
  by (simp_all add: audit_transition_def)

subsection \<open>Without interruption\<close>

text \<open>Writing columns of a row that is as it was loaded is saving the row.\<close>

lemma write_columns_save:
  assumes "distinct (map h_id (db_hosts d))" "get_host d (h_id h) = Some h" "h_id (f h) = h_id h"
  shows "write_columns (h_id h) f d = save_host (f h) d"
proof -
  have "q = h" if "q \<in> set (db_hosts d)" "h_id q = h_id h" for q
    using assms(1) that get_hostD [OF assms(2)] by (auto simp: distinct_map inj_on_def)
  then have "map (\<lambda>q. if h_id q = h_id h then f q else q) (db_hosts d)
      = map (\<lambda>q. if h_id q = h_id h then f h else q) (db_hosts d)" by (intro map_cong) auto
  then show ?thesis by (simp add: write_columns_def save_host_def update_where_def assms(3))
qed

lemma transition_host_columns:
  assumes "distinct (map h_id (db_hosts d))" "get_host d (h_id h) = Some h" "h_status h \<noteq> st"
  shows "fst (snd (transition_host h st reason b now d))
    = audit_transition h st reason (write_columns (h_id h) (\<lambda>q. q\<lparr>h_status := st\<rparr>) d)"
  using assms by (simp add: transition_host_def audit_transition_def write_columns_save)

lemma tick_hosts_columns:
  assumes "distinct (map h_id (db_hosts d))" "distinct (map h_id hs)" "\<forall>h \<in> set hs. get_host d (h_id h) = Some h"
  shows "fst (snd (tick_hosts now hs n d b)) = commit_tick hs d"
  using assms
proof (induction hs arbitrary: n d b)
  case (Cons h hs)
  have row: "get_host d (h_id h) = Some h" using Cons.prems(3) by simp
  obtain c d1 b1 where t: "transition_host h OFFLINE ''heartbeat_stale'' b now d = (c, d1, b1)"
    by (cases "transition_host h OFFLINE ''heartbeat_stale'' b now d") auto
  have d1: "d1 = (if h_status h = OFFLINE then d else audit_transition h OFFLINE ''heartbeat_stale''
      (write_columns (h_id h) (\<lambda>q. q\<lparr>h_status := OFFLINE\<rparr>) d))"
    using transition_host_columns [OF Cons.prems(1) row, of OFFLINE "''heartbeat_stale''" b now] t
    by (auto simp: transition_host_def)
  have "\<forall>q \<in> set hs. get_host d1 (h_id q) = Some q"
    using Cons.prems(2,3) transition_host_get [OF t row] by (auto simp: image_iff)
  moreover have "distinct (map h_id (db_hosts d1))"
    using Cons.prems(1) transition_host_frame(4) [OF t] by simp
  ultimately show ?case using Cons.IH [of d1] Cons.prems(2) by (simp add: t d1 split: if_splits)
qed simp

lemma tick_uninterrupted:
  assumes "wf_db (w_db w)"
  shows "w_db (monitor_step cfg now w) = commit_tick (tick_rows cfg now (w_db w)) (w_db w)"
proof -
  have ids: "distinct (map h_id (db_hosts (w_db w)))" using assms by (simp add: wf_db_def hosts_wf_def)
  then have "distinct (map h_id (tick_rows cfg now (w_db w)))" by (simp add: tick_rows_eq distinct_map_filter)
  with tick_hosts_columns [OF ids this] tick_rows_get [OF assms] show ?thesis
    by (simp add: monitor_step_def run_one_tick_def split_beta)
qed

lemma heartbeat_uninterrupted:
  assumes "wf_db (w_db w)" "heartbeat_endpoint sha cfg an now rq p w = (Inr resp, w')"
    and "get_agent_host sha an rq (w_db w) = Inr (h, tok)"
  shows "w_db w' = commit_heartbeat cfg now p h (w_db w)"
proof -
  have ids: "distinct (map h_id (db_hosts (w_db w)))" using assms(1) by (simp add: wf_db_def hosts_wf_def)
  have row: "get_host (w_db w) (h_id h) = Some h" by (rule get_agent_host_Inr(2) [OF assms(3)])
  let ?h1 = "heartbeat_host now p h"
  let ?f = "\<lambda>q. q\<lparr>h_last_heartbeat_at := Some now, h_metadata := h_metadata ?h1\<rparr>"
  have "?f h = ?h1" by (simp add: heartbeat_host_def)
  then have d1: "write_columns (h_id h) ?f (w_db w) = save_host ?h1 (w_db w)"
    using write_columns_save [OF ids row, of ?f] by simp
  let ?d1 = "save_host ?h1 (w_db w)"
  let ?st = "heartbeat_status cfg now p (h_id h) ?d1"
  have w': "w_db w' = fst (snd (transition_host ?h1 ?st ''heartbeat'' (Some (w_broker w)) now ?d1))"
    using assms(2,3) by (auto simp: heartbeat_endpoint_def Let_def split_beta split: if_splits)
  have "distinct (map h_id (db_hosts ?d1))" "get_host ?d1 (h_id ?h1) = Some ?h1"
    using ids row by (simp_all add: get_host_save_host)
  from transition_host_columns [OF this, of ?st "''heartbeat''" "Some (w_broker w)" now]
  show ?thesis
    by (auto simp: w' commit_heartbeat_def Let_def d1 audit_transition_def transition_host_def)
qed

subsection \<open>One inside the other\<close>

lemma get_host_commit_tick:
  "\<forall>h \<in> set hs. h_status h \<noteq> OFFLINE \<Longrightarrow>
   get_host (commit_tick hs d) i =
     (if i \<in> h_id ` set hs then map_option (\<lambda>q. q\<lparr>h_status := OFFLINE\<rparr>) (get_host d i) else get_host d i)"
  by (induction hs arbitrary: d) (auto simp: get_host_write_columns option.map_comp comp_def)

lemma get_host_commit_heartbeat:
  "get_host (commit_heartbeat cfg now p h d) (h_id h) =
     map_option (\<lambda>q. q\<lparr>h_last_heartbeat_at := Some now, h_metadata := h_metadata (heartbeat_host now p h),
         h_status := (if h_status h = heartbeat_status cfg now p (h_id h) d then h_status q
                      else heartbeat_status cfg now p (h_id h) d)\<rparr>) (get_host d (h_id h))"
proof -
  have "heartbeat_status cfg now p (h_id h) (write_columns i f d) = heartbeat_status cfg now p (h_id h) d" for i f
    by (rule heartbeat_status_frame) simp
  then show ?thesis
    by (cases "get_host d (h_id h)")
      (simp_all add: commit_heartbeat_def Let_def get_host_write_columns heartbeat_host_def)
qed

lemma commit_tick_reservations: "db_reservations (commit_tick hs d) = db_reservations d"
  by (induction hs arbitrary: d) simp_all

text \<open>C34: The protection of a heartbeat does not survive interleaving.  When a tick selects a stale host, the
  host's heartbeat is accepted, and then the tick writes, the host is offline although its heartbeat is
  recorded; so it is when the whole tick falls between the loading and the writing of the heartbeat, unless
  the heartbeat changes the status it had loaded.\<close>
theorem tick_around_heartbeat_leaves_offline:
  assumes "wf_db (w_db w)" and "heartbeat_endpoint sha cfg an now rq p w = (Inr resp, w')"
    and "get_agent_host sha an rq (w_db w) = Inr (h, tok)" and "h \<in> set (tick_rows cfg tick (w_db w))"
  shows "map_option (\<lambda>q. (h_status q, h_last_heartbeat_at q))
      (get_host (commit_tick (tick_rows cfg tick (w_db w)) (w_db w')) (h_id h)) = Some (OFFLINE, Some now)
    \<and> map_option (\<lambda>q. (h_status q, h_last_heartbeat_at q))
      (get_host (commit_heartbeat cfg now p h (w_db (monitor_step cfg tick w))) (h_id h))
        = Some (if h_status h = heartbeat_status cfg now p (h_id h) (w_db w) then OFFLINE
                else heartbeat_status cfg now p (h_id h) (w_db w), Some now)"
proof
  let ?hs = "tick_rows cfg tick (w_db w)"
  have on: "\<forall>h \<in> set ?hs. h_status h \<noteq> OFFLINE" by (simp add: tick_rows_eq offline_row_def)
  have row: "get_host (w_db w) (h_id h) = Some h" by (rule get_agent_host_Inr(2) [OF assms(3)])
  have after: "w_db w' = commit_heartbeat cfg now p h (w_db w)" by (rule heartbeat_uninterrupted [OF assms(1-3)])
  show "map_option (\<lambda>q. (h_status q, h_last_heartbeat_at q)) (get_host (commit_tick ?hs (w_db w')) (h_id h))
      = Some (OFFLINE, Some now)"
    using assms(4) by (simp add: get_host_commit_tick [OF on] after get_host_commit_heartbeat row)
  have "heartbeat_status cfg now p (h_id h) (w_db (monitor_step cfg tick w)) = heartbeat_status cfg now p (h_id h) (w_db w)"
    by (rule heartbeat_status_frame) (simp add: tick_uninterrupted [OF assms(1)] commit_tick_reservations)
  then show "map_option (\<lambda>q. (h_status q, h_last_heartbeat_at q))
      (get_host (commit_heartbeat cfg now p h (w_db (monitor_step cfg tick w))) (h_id h))
        = Some (if h_status h = heartbeat_status cfg now p (h_id h) (w_db w) then OFFLINE
                else heartbeat_status cfg now p (h_id h) (w_db w), Some now)"
    using assms(4) by (simp add: get_host_commit_heartbeat tick_uninterrupted [OF assms(1)] get_host_commit_tick [OF on] row)
qed

text \<open>The host has sent one heartbeat, then nothing for 91 seconds.\<close>

definition stale_world :: world where
  "stale_world = snd (heartbeat_endpoint (\<lambda>s. s) default_settings hour_us hour_us agent_request sample_heartbeat run_enrol)"

lemma wf_stale_world: "wf_db (w_db stale_world)"
  using evolves_heartbeat [of run_enrol "\<lambda>s. s" default_settings hour_us hour_us agent_request sample_heartbeat] run_enrol_wf
  by (simp add: stale_world_def evolves_def)

theorem tick_around_heartbeat_leaves_offline_witness:
  "\<exists>w'. heartbeat_endpoint (\<lambda>s. s) default_settings (hour_us + 91 * sec_us) (hour_us + 91 * sec_us) agent_request
       sample_heartbeat stale_world = (Inr \<lparr>hbr_next_interval_sec = 30, hbr_server_time = hour_us + 91 * sec_us\<rparr>, w')
     \<and> map_option (\<lambda>q. (h_status q, h_last_heartbeat_at q))
         (get_host (commit_tick (tick_rows default_settings (hour_us + 91 * sec_us) (w_db stale_world)) (w_db w')) 1)
       = Some (OFFLINE, Some (hour_us + 91 * sec_us))"
proof -
  let ?t = "hour_us + 91 * sec_us"
  let ?e = "heartbeat_endpoint (\<lambda>s. s) default_settings ?t ?t agent_request sample_heartbeat stale_world"
  have "is_ok (fst ?e)" by code_simp
  then obtain resp w' where e: "?e = (Inr resp, w')" by (cases ?e) (auto simp: is_ok_iff)
  obtain h tok where h: "get_agent_host (\<lambda>s. s) ?t agent_request (w_db stale_world) = Inr (h, tok)"
    and resp: "resp = \<lparr>hbr_next_interval_sec = 30, hbr_server_time = ?t\<rparr>"
    using e by (rule heartbeat_Inr)
  have "map_sum id (\<lambda>x. h_id (fst x)) (get_agent_host (\<lambda>s. s) ?t agent_request (w_db stale_world)) = Inr 1" by code_simp
  with h have i: "h_id h = 1" by simp
  have "map h_id (tick_rows default_settings ?t (w_db stale_world)) = [1]" by code_simp
  then have "1 \<in> h_id ` set (tick_rows default_settings ?t (w_db stale_world))"
    by (simp only: set_map [symmetric]) simp
  then obtain q where q: "q \<in> set (tick_rows default_settings ?t (w_db stale_world))" "h_id q = 1"
    by (elim imageE) simp
  have "h = q" using tick_rows_get [OF wf_stale_world q(1)] get_agent_host_Inr(2) [OF h] by (simp add: i q(2))
  with q have "h \<in> set (tick_rows default_settings ?t (w_db stale_world))" by simp
  from tick_around_heartbeat_leaves_offline [OF wf_stale_world e h this] show ?thesis
    using e resp by (intro exI [of _ w']) (simp add: i)
qed

end
