(* ===== verification/Session_Facts.thy ===== *)
theory Session_Facts
  imports Auth_Api
begin

text \<open>
  What the login routes promise together with the session middleware: the cookie of a login
  identifies the user who logged in, until it expires or is handed in at the logout route, and a
  login never changes what an administrator has set on the user's row.
\<close>

subsection \<open>The user row\<close>

definition same_identity :: "user_identity \<Rightarrow> user \<Rightarrow> bool" where
  "same_identity ident u \<longleftrightarrow> u_provider u = ui_provider ident \<and> u_external_id u = ui_external_id ident"

lemma upsert_user_eq:
  "upsert_user nid ident d =
     (if \<not> identity_fits ident then Inl DataError
      else case find (same_identity ident) (db_users d) of
        Some u \<Rightarrow>
          Inr (u\<lparr>u_display_name := ui_display_name ident, u_email := ui_email ident\<rparr>,
            d\<lparr>db_users := update_where (same_identity ident)
               (\<lambda>u. u\<lparr>u_display_name := ui_display_name ident, u_email := ui_email ident\<rparr>) (db_users d)\<rparr>)
      | None \<Rightarrow>
          if nid \<in> u_id ` set (db_users d) then Inl (violation ''users_pkey'')
          else (let u = \<lparr>u_id = nid, u_external_id = ui_external_id ident, u_provider = ui_provider ident,
                       u_display_name = ui_display_name ident, u_email = ui_email ident,
                       u_role = ui_role ident, u_is_active = True\<rparr>
                in Inr (u, d\<lparr>db_users := db_users d @ [u]\<rparr>)))"
  by (simp only: upsert_user_def Let_def same_identity_def [abs_def])

lemma filter_update_where:
  "(\<And>v. v \<in> set rs \<Longrightarrow> P v \<Longrightarrow> P (f v)) \<Longrightarrow> filter (\<lambda>v. \<not> P v) (update_where P f rs) = filter (\<lambda>v. \<not> P v) rs"
  by (induction rs) (auto simp: update_where_def)

lemma upsert_user_cases:
  assumes "upsert_user nid ident d = Inr (u, d')"
  obtains (old) u0 where "u0 \<in> set (db_users d)" "same_identity ident u0"
      "u = u0\<lparr>u_display_name := ui_display_name ident, u_email := ui_email ident\<rparr>"
      "db_users d' = update_where (same_identity ident)
         (\<lambda>u. u\<lparr>u_display_name := ui_display_name ident, u_email := ui_email ident\<rparr>) (db_users d)"
  | (new) "\<forall>v \<in> set (db_users d). \<not> same_identity ident v" "nid \<notin> u_id ` set (db_users d)"
      "u = \<lparr>u_id = nid, u_external_id = ui_external_id ident, u_provider = ui_provider ident,
            u_display_name = ui_display_name ident, u_email = ui_email ident, u_role = ui_role ident,
            u_is_active = True\<rparr>" "db_users d' = db_users d @ [u]"
proof (cases "find (same_identity ident) (db_users d)")
  case None
  then have "\<forall>v \<in> set (db_users d). \<not> same_identity ident v" by (simp add: find_None_iff)
  with None assms show ?thesis
    by (intro new) (auto simp: upsert_user_eq Let_def split: if_splits)
next
  case (Some u0)
  with assms show ?thesis
    by (intro old [of u0]) (auto simp: upsert_user_eq dest: find_SomeD split: if_splits)
qed

lemma upsert_user_row:
  assumes "users_wf (db_users d)" and "upsert_user nid ident d = Inr (u, d')"
  shows "users_wf (db_users d') \<and> u \<in> set (db_users d') \<and> same_identity ident u"
  using assms(2)
proof (cases rule: upsert_user_cases)
  case (old u0)
  have "users_wf (db_users d')" using assms(1) by (simp add: old(4) users_wf_def map_update_where)
  moreover have "u \<in> set (db_users d')" using old by (auto simp: set_update_where)
  moreover have "same_identity ident u" using old(2) by (simp add: old(3) same_identity_def)
  ultimately show ?thesis by blast
next
  case new
  then show ?thesis using assms(1) by (auto simp: users_wf_def same_identity_def)
qed

text \<open>A login of a known user updates the name and the address only: key, role and activity stay
  as an administrator left them, every other row is untouched, and no second row for the same
  identity appears.\<close>
theorem login_preserves_role:
  assumes "users_wf (db_users d)" and "upsert_user nid ident d = Inr (u, d')"
  shows "users_wf (db_users d') \<and> u \<in> set (db_users d') \<and> same_identity ident u
    \<and> u_display_name u = ui_display_name ident \<and> u_email u = ui_email ident
    \<and> (case find (same_identity ident) (db_users d) of
         None \<Rightarrow> u_role u = ui_role ident \<and> u_is_active u \<and> db_users d' = db_users d @ [u]
       | Some u0 \<Rightarrow> u_id u = u_id u0 \<and> u_role u = u_role u0 \<and> u_is_active u = u_is_active u0
           \<and> filter (\<lambda>v. \<not> same_identity ident v) (db_users d')
             = filter (\<lambda>v. \<not> same_identity ident v) (db_users d)
           \<and> map u_id (db_users d') = map u_id (db_users d))"
  using assms(2)
proof (cases rule: upsert_user_cases)
  case (old u0)
  have "v = u0" if "v \<in> set (db_users d)" "same_identity ident v" for v
    using assms(1) that old(1,2) by (auto simp: users_wf_def distinct_map inj_on_def same_identity_def)
  then have "find (same_identity ident) (db_users d) = Some u0"
    using find_Some_iff_unique [of "db_users d" "same_identity ident" u0] old(1,2) by blast
  moreover have "filter (\<lambda>v. \<not> same_identity ident v) (db_users d')
      = filter (\<lambda>v. \<not> same_identity ident v) (db_users d)"
    unfolding old(4) by (rule filter_update_where) (simp add: same_identity_def)
  moreover have "map u_id (db_users d') = map u_id (db_users d)" by (simp add: old(4) map_update_where)
  ultimately show ?thesis using upsert_user_row [OF assms] by (simp add: old(3))
next
  case new
  have "find (same_identity ident) (db_users d) = None" using new(1) by (simp add: find_None_iff)
  with upsert_user_row [OF assms] new show ?thesis by simp
qed

subsection \<open>From login to logout\<close>

lemma mock_callback_Inr:
  assumes "mock_callback sha cfg now nid raw tid rq body w = (Inr resp, w1)"
  obtains ident usr d1 tok d2 where "mock_verify_callback body = Inr ident"
    "upsert_user nid ident (w_db w) = Inr (usr, d1)"
    "issue_session sha (session_ttl_seconds cfg) now raw tid usr d1 = Inr ((raw, tok), d2)"
    "db_tokens (w_db w1) = db_tokens d2" "db_users (w_db w1) = db_users d2"
    "lr_cookie resp = session_cookie cfg raw"
proof -
  from assms obtain ident usr d1 raw' tok d2 where a: "mock_verify_callback body = Inr ident"
    "upsert_user nid ident (w_db w) = Inr (usr, d1)"
    "issue_session sha (session_ttl_seconds cfg) now raw tid usr d1 = Inr ((raw', tok), d2)"
    by (auto simp: mock_callback_def split: if_splits sum.splits)
  have raw: "raw' = raw" by (rule issue_session_Inr(1) [OF a(3)])
  from assms a show ?thesis
    by (intro that [of ident usr d1 tok d2])
      (auto simp: mock_callback_def raw Let_def split: if_splits sum.splits)
qed

lemma verify_session_tokens:
  "db_tokens d' = db_tokens d \<Longrightarrow> db_users d' = db_users d \<Longrightarrow> verify_session sha t raw d' = verify_session sha t raw d"
  by (simp add: verify_session_def)

lemma fresh_session_verifies:
  assumes "issue_session sha ttl now raw tid usr d = Inr ((raw', tok), d')" and "raw \<noteq> ''''"
    and "usr \<in> set (db_users d)" and "distinct (map u_id (db_users d))"
  shows "verify_session sha t raw d' = (if u_is_active usr \<and> t < now + ttl * sec_us then Some usr else None)"
proof -
  note I = issue_session_Inr [OF assms(1)]
  have "t_jti x \<noteq> sha raw" if "x \<in> set (db_tokens d)" for x
    using insert_token_Inr(3) [OF I(2)] I(4) that by (auto simp: image_iff)
  then have "(\<exists>x \<in> set (db_tokens d'). t_user_id x = uid \<and> t_jti x = sha raw \<and> token_live Session t x)
      \<longleftrightarrow> uid = u_id usr \<and> t < now + ttl * sec_us" for uid
    using I(4-9) by (auto simp: I(3) token_live_def)
  then have v: "verify_session sha t raw d' = find (\<lambda>u. u_is_active u \<and> u_id u = u_id usr \<and> t < now + ttl * sec_us) (db_users d)"
    using assms(2) by (simp add: verify_session_def I(10))
  have uniq: "u = usr" if "u \<in> set (db_users d)" "u_id u = u_id usr" for u
    using assms(3,4) that by (auto simp: distinct_map inj_on_def)
  show ?thesis
  proof (cases "u_is_active usr \<and> t < now + ttl * sec_us")
    case True
    with find_Some_iff_unique [of "db_users d" "\<lambda>u. u_is_active u \<and> u_id u = u_id usr \<and> t < now + ttl * sec_us" usr]
      uniq assms(3) show ?thesis by (auto simp: v)
  next
    case False
    then show ?thesis using uniq by (auto simp: v find_None_iff)
  qed
qed

lemma no_session_after_revocation:
  "verify_session sha t raw (snd (revoke_session sha t0 raw d)) = None"
  by (auto simp: verify_session_def revoke_session_def token_simps find_None_iff token_live_def
      elim!: in_update_whereE split: if_splits)

lemma no_session_to_revoke:
  "fst (revoke_session sha t0 raw d) = 0 \<Longrightarrow> verify_session sha t raw d = None"
  by (auto simp: verify_session_def revoke_session_def revoke_where_def count_where_0_iff find_None_iff
      token_live_def)

text \<open>C25: The cookie of a login identifies the user who logged in, on every request until it expires,
  provided the account is active, and nobody from the moment it is handed in at the logout route.\<close>
theorem login_round_trip:
  assumes "wf_db (w_db w)" and "mock_callback sha cfg now nid raw tid rq body w = (Inr resp, w1)" and "raw \<noteq> ''''"
    and "rq_cookie rq' = Some (ck_value (lr_cookie resp))"
  shows "\<exists>ident usr. mock_verify_callback body = Inr ident \<and> usr \<in> set (db_users (w_db w1))
    \<and> same_identity ident usr
    \<and> session_user sha t rq' (w_db w1)
        = (if u_is_active usr \<and> t < now + session_ttl_seconds cfg * sec_us then Some usr else None)
    \<and> session_user sha t rq' (w_db (snd (logout sha cfg t0 rq' su w1))) = None"
  using assms(2)
proof (rule mock_callback_Inr)
  fix ident usr d1 tok d2
  assume i: "mock_verify_callback body = Inr ident" and u: "upsert_user nid ident (w_db w) = Inr (usr, d1)"
    and s: "issue_session sha (session_ttl_seconds cfg) now raw tid usr d1 = Inr ((raw, tok), d2)"
    and w1: "db_tokens (w_db w1) = db_tokens d2" "db_users (w_db w1) = db_users d2"
    and c: "lr_cookie resp = session_cookie cfg raw"
  note I = issue_session_Inr [OF s]
  have P: "users_wf (db_users d1)" "usr \<in> set (db_users d1)" "same_identity ident usr"
    using upsert_user_row [OF _ u] assms(1) by (auto simp: wf_db_def)
  have v: "verify_session sha t raw (w_db w1)
      = (if u_is_active usr \<and> t < now + session_ttl_seconds cfg * sec_us then Some usr else None)"
    using fresh_session_verifies [OF s assms(3) P(2)] P(1) verify_session_tokens [OF w1]
    by (simp add: users_wf_def)
  have cookie: "rq_cookie rq' = Some raw" by (simp add: assms(4) c session_cookie_def)
  have "verify_session sha t raw (write_audit a ac k tk ti r de p ip d) = verify_session sha t raw d"
    for a ac k tk ti r de p ip d by (rule verify_session_tokens) simp_all
  then have out: "verify_session sha t raw (w_db (snd (logout sha cfg t0 rq' su w1))) = None"
    using no_session_to_revoke [of sha t0 raw "w_db w1" t] no_session_after_revocation [of sha t raw t0 "w_db w1"]
      assms(3)
    by (auto simp: logout_def cookie split_beta)
  show ?thesis
    using i P(2,3) v out assms(3) by (intro exI [of _ ident] exI [of _ usr]) (simp add: w1 I(10) session_user_def cookie)
qed

definition kim_form :: callback_body where
  "kim_form = FormBody [(''external_id'', ''20260001''), (''display_name'', ''Kim'')]"

definition kim_identity :: user_identity where
  "kim_identity = \<lparr>ui_external_id = ''20260001'', ui_provider = ''mock'', ui_display_name = ''Kim'',
     ui_email = None, ui_role = ''user''\<rparr>"

definition kim_admin :: user where
  "kim_admin = \<lparr>u_id = 1, u_external_id = ''20260001'', u_provider = ''mock'', u_display_name = ''K'',
     u_email = None, u_role = ''admin'', u_is_active = True\<rparr>"

theorem login_preserves_role_witness:
  "\<exists>u d'. upsert_user 2 kim_identity (empty_db\<lparr>db_users := [kim_admin]\<rparr>) = Inr (u, d')
     \<and> u_display_name u = ''Kim'' \<and> u_role u = ''admin'' \<and> u_id u = 1"
proof -
  let ?d = "empty_db\<lparr>db_users := [kim_admin]\<rparr>"
  have "yields (upsert_user 2 kim_identity ?d) (\<lambda>_ _. True)" by code_simp
  then obtain u d' where u: "upsert_user 2 kim_identity ?d = Inr (u, d')" by (rule yieldsE)
  have "users_wf (db_users ?d)" by (simp add: users_wf_def)
  from login_preserves_role [OF this u]
  show ?thesis using u by (auto simp: same_identity_def kim_admin_def kim_identity_def)
qed

theorem login_round_trip_witness:
  "\<exists>resp w1. mock_callback (\<lambda>s. s) default_settings 0 1 ''cookie'' 1 (sample_request '''') kim_form
        \<lparr>w_db = empty_db, w_broker = new_broker, w_metrics = empty_metrics\<rparr> = (Inr resp, w1)
     \<and> map_option u_display_name
         (session_user (\<lambda>s. s) hour_us ((sample_request '''')\<lparr>rq_cookie := Some ''cookie''\<rparr>) (w_db w1)) = Some ''Kim''"
proof -
  let ?w = "\<lparr>w_db = empty_db, w_broker = new_broker, w_metrics = empty_metrics\<rparr> :: world"
  let ?rq = "(sample_request '''')\<lparr>rq_cookie := Some ''cookie''\<rparr>"
  let ?m = "mock_callback (\<lambda>s. s) default_settings 0 1 ''cookie'' 1 (sample_request '''') kim_form ?w"
  have "case fst ?m of Inl _ \<Rightarrow> False | Inr resp \<Rightarrow> ck_value (lr_cookie resp) = ''cookie''" by code_simp
  then obtain resp w1 where m: "?m = (Inr resp, w1)" and c: "ck_value (lr_cookie resp) = ''cookie''"
    by (cases ?m) (auto split: sum.splits)
  have cookie: "rq_cookie ?rq = Some (ck_value (lr_cookie resp))" using c by simp
  have names: "list_all (\<lambda>u. u_display_name u = ''Kim'' \<and> u_is_active u) (db_users (w_db (snd ?m)))" by code_simp
  have ttl: "hour_us < 0 + session_ttl_seconds default_settings * sec_us" by (simp add: default_settings_def)
  have wf: "wf_db (w_db ?w)" by simp
  obtain usr where "usr \<in> set (db_users (w_db w1))" "session_user (\<lambda>s. s) hour_us ?rq (w_db w1)
      = (if u_is_active usr \<and> hour_us < 0 + session_ttl_seconds default_settings * sec_us then Some usr else None)"
    using login_round_trip [OF wf m _ cookie, of hour_us] by auto
  with ttl names m show ?thesis by (auto simp: list_all_iff)
qed

text \<open>The form takes names of any length, the columns do not: a longer one ends in an internal error, not
  in the error answer for bad input, and the failed login leaves no trace in the audit log.\<close>
lemma long_name_is_server_error:
  assumes "app_env cfg \<noteq> Production" "auth_provider cfg = Mock"
    and "mock_verify_callback body = Inr ident" "128 < length (ui_display_name ident)"
  shows "mock_callback sha cfg now nid raw tid rq body w = (Inl DataError, w)
    \<and> er_status (error_response_of DataError) = 500"
  using assms by (simp add: mock_callback_def upsert_user_def identity_fits_def build_provider_def error_response_of_def)

end
