(* ===== verification/Providers.thy ===== *)
theory Providers
  imports Session_Facts System_Facts
begin

text \<open>
  The login providers behind \<open>core/auth.py\<close>: the protocol as a record of operations, the mock provider and
  the slot for the campus sign-on (\<open>providers/cnu_sso.py\<close>), and the factory of \<open>providers/__init__.py\<close>.  What
  the routes rely on is a locale, interpreted on both providers.  The last section shows what follows for a
  deployment in production, where the mock routes are closed.
\<close>

subsection \<open>The protocol\<close>

datatype provider_exception = NotImplementedError | ValueError callback_error

record provider =
  pv_name :: string
  pv_initiate_login :: "request \<Rightarrow> provider_exception + string"
  pv_verify_callback :: "callback_body \<Rightarrow> provider_exception + user_identity"
  pv_fetch_user_identity :: "string \<Rightarrow> provider_exception + user_identity"

definition mock_initiate_login :: "request \<Rightarrow> provider_exception + string" where
  "mock_initiate_login rq = Inr ''/api/v1/auth/mock/login''"

definition mock_fetch_user_identity :: "string \<Rightarrow> provider_exception + user_identity" where
  "mock_fetch_user_identity tok = Inl NotImplementedError"

definition mock_provider :: provider where
  "mock_provider = \<lparr>pv_name = ''mock'', pv_initiate_login = mock_initiate_login,
     pv_verify_callback = (\<lambda>body. map_sum ValueError id (mock_verify_callback body)),
     pv_fetch_user_identity = mock_fetch_user_identity\<rparr>"

definition cnu_initiate_login :: "request \<Rightarrow> provider_exception + string" where
  "cnu_initiate_login rq = Inl NotImplementedError"

definition cnu_verify_callback :: "callback_body \<Rightarrow> provider_exception + user_identity" where
  "cnu_verify_callback body = Inl NotImplementedError"

definition cnu_fetch_user_identity :: "string \<Rightarrow> provider_exception + user_identity" where
  "cnu_fetch_user_identity tok = Inl NotImplementedError"

definition cnu_sso_methods :: provider where
  "cnu_sso_methods = \<lparr>pv_name = ''cnu_sso'', pv_initiate_login = cnu_initiate_login,
     pv_verify_callback = cnu_verify_callback, pv_fetch_user_identity = cnu_fetch_user_identity\<rparr>"

text \<open>\<open>CnuSsoProvider.__init__\<close> raises, so no instance ever exists.\<close>

definition cnu_sso_init :: "provider_error + provider" where
  "cnu_sso_init = Inl NotImplemented"

definition get_active_provider :: "settings \<Rightarrow> provider_error + provider" where
  "get_active_provider cfg =
     (let name = provider_name (auth_provider cfg) in
      if name = ''mock'' then Inr mock_provider
      else if name = ''cnu_sso'' then cnu_sso_init
      else Inl UnsupportedProvider)"

subsection \<open>What the routes rely on\<close>

locale identity_provider =
  fixes name :: string
    and verify :: "callback_body \<Rightarrow> provider_exception + user_identity"
  assumes verified_name: "verify body = Inr ident \<Longrightarrow> ui_provider ident = name"
    and verified_fields: "verify body = Inr ident \<Longrightarrow> ui_external_id ident \<noteq> '''' \<and> ui_display_name ident \<noteq> ''''"
    and verified_role: "verify body = Inr ident \<Longrightarrow> ui_role ident \<in> {''user'', ''admin''}"
begin

text \<open>The user a login stores: the row carries the name of the provider, and a new row one of the two roles.\<close>

lemma stored_user:
  assumes "verify body = Inr ident" and "upsert_user nid ident d = Inr (usr, d')"
  shows "u_provider usr = name \<and> u_external_id usr \<noteq> '''' \<and> u_display_name usr \<noteq> ''''
    \<and> (u_role usr \<in> {''user'', ''admin''} \<or> (\<exists>u0 \<in> set (db_users d). u_id u0 = u_id usr \<and> u_role u0 = u_role usr))"
  using assms(2)
proof (cases rule: upsert_user_cases)
  case (old u0)
  have "u_provider usr = name" "u_external_id usr \<noteq> ''''" "u_display_name usr \<noteq> ''''"
    using verified_name [OF assms(1)] verified_fields [OF assms(1)] old(2) by (auto simp: old(3) same_identity_def)
  moreover have "u_id u0 = u_id usr \<and> u_role u0 = u_role usr" by (simp add: old(3))
  ultimately show ?thesis using old(1) by blast
next
  case new
  then show ?thesis
    using verified_name [OF assms(1)] verified_fields [OF assms(1)] verified_role [OF assms(1)] by simp
qed

lemma stored_roles:
  assumes "verify body = Inr ident" and "upsert_user nid ident d = Inr (usr, d')"
    and "\<forall>u \<in> set (db_users d). u_role u \<in> {''user'', ''admin''}"
  shows "\<forall>u \<in> set (db_users d'). u_role u \<in> {''user'', ''admin''}"
  using assms(2)
proof (cases rule: upsert_user_cases)
  case (old u0)
  with assms(3) show ?thesis by (auto simp: set_update_where)
next
  case new
  with assms(3) verified_role [OF assms(1)] show ?thesis by auto
qed

end

lemma mock_verify_role: "mock_verify_callback body = Inr ident \<Longrightarrow> ui_role ident \<in> {''user'', ''admin''}
   \<and> ui_provider ident = ''mock'' \<and> ui_external_id ident \<noteq> '''' \<and> ui_display_name ident \<noteq> ''''"
  by (auto simp: mock_verify_callback_def Let_def split: sum.splits if_splits)

interpretation mock: identity_provider "pv_name mock_provider" "pv_verify_callback mock_provider"
proof unfold_locales
  fix body ident
  assume "pv_verify_callback mock_provider body = Inr ident"
  then have "mock_verify_callback body = Inr ident"
    by (cases "mock_verify_callback body") (simp_all add: mock_provider_def)
  note v = mock_verify_role [OF this]
  from v show "ui_provider ident = pv_name mock_provider" by (simp add: mock_provider_def)
  from v show "ui_external_id ident \<noteq> '''' \<and> ui_display_name ident \<noteq> ''''" "ui_role ident \<in> {''user'', ''admin''}" by simp_all
qed

interpretation cnu_sso: identity_provider "pv_name cnu_sso_methods" "pv_verify_callback cnu_sso_methods"
  by unfold_locales (simp_all add: cnu_sso_methods_def cnu_verify_callback_def)

subsection \<open>The factory\<close>

text \<open>The factory agrees with what the dependency \<open>get_current_user\<close> and the callback route use of it, and
  the provider it returns carries the name the setting has, which the audit log records.\<close>

lemma get_active_provider_build: "map_sum id (\<lambda>_. ()) (get_active_provider cfg) = build_provider (auth_provider cfg)"
  by (simp add: get_active_provider_def provider_name_def cnu_sso_init_def build_provider_def split: auth_provider.split)

theorem active_provider_name:
  "get_active_provider cfg = Inr p \<longleftrightarrow> p = mock_provider \<and> pv_name p = provider_name (auth_provider cfg)"
  by (auto simp: get_active_provider_def provider_name_def cnu_sso_init_def mock_provider_def split: auth_provider.split)

text \<open>\<open>get_current_user\<close> of \<open>api/deps.py\<close>, written over the provider object.\<close>

theorem get_current_user_over_provider:
  "get_current_user cfg state_user =
     (case state_user of
        Some usr \<Rightarrow> Inr usr
      | None \<Rightarrow>
          (case get_active_provider cfg of
             Inl NotImplemented \<Rightarrow> Inl (Unauthenticated (auth_login_path cfg))
           | Inl UnsupportedProvider \<Rightarrow> Inl RuntimeError
           | Inr p \<Rightarrow> (case pv_initiate_login p rq of
               Inr login_url \<Rightarrow> Inl (Unauthenticated login_url)
             | Inl _ \<Rightarrow> Inl (Unauthenticated (auth_login_path cfg)))))"
  by (simp add: get_current_user_def get_active_provider_def build_provider_def provider_name_def cnu_sso_init_def
      mock_provider_def mock_initiate_login_def split: option.split auth_provider.split)

subsection \<open>Users are made by logging in\<close>

named_theorems user_frames \<open>routes that leave the users alone\<close>

lemma issue_agent_users: "issue_agent_token sha cfg rnow now raw nid hid usr d = Inr (res, d') \<Longrightarrow> db_users d' = db_users d"
  using issue_agent_token_Inr(7) [of sha cfg rnow now raw nid hid usr d "fst res" "fst (snd res)" "snd (snd res)" d']
  by (auto simp: revoke_active_agent_tokens_def token_simps dest: insert_token_Inr(1))

lemma book_row_users: "book_row nid created usr hid s e extra d = Inr (r, d') \<Longrightarrow> db_users d' = db_users d"
  by (auto simp: book_row_def elim!: insert_reservation_Inr split: sum.splits app_error.splits if_splits option.splits)

lemma issue_response_users:
  "issue_connect_token_response sha cfg now rnow raw tid usr r client w = (res, w') \<Longrightarrow> db_users (w_db w') = db_users (w_db w)"
proof (rule issue_response_cases [of sha cfg now rnow raw tid usr r client w])
  fix resp w'' x d1
  assume "issue_connect_token_response sha cfg now rnow raw tid usr r client w = (res, w')"
    and "issue_connect_token_response sha cfg now rnow raw tid usr r client w = (Inr resp, w'')"
    and j: "issue_connect_token sha cfg now rnow raw tid usr r (w_db w) = Inr (x, d1)"
    and "db_users (w_db w'') = db_users d1"
  then show ?thesis using issue_connect_token_Inr(6) [of sha cfg now rnow raw tid usr r "w_db w" "fst x" "fst (snd x)" "snd (snd x)" d1]
    by simp
qed simp

lemma create_users [user_frames]:
  "db_users (w_db (snd (create_reservation_endpoint cfg n1 n2 nid created usr p w))) = db_users (w_db w)"
  by (auto simp: create_reservation_endpoint_def dest!: create_reservation_InrD(1) book_row_users split: sum.split)

lemma instant_users [user_frames]:
  "db_users (w_db (snd (instant_reservation_endpoint sha cfg clk nid created raw tid usr hid w))) = db_users (w_db w)"
  by (auto simp: instant_reservation_endpoint_def dest!: transition_host_frame(1) issue_response_users
      elim!: create_instant_InrD dest: book_row_users split: prod.split sum.split option.split)

lemma cancel_users [user_frames]:
  "db_users (w_db (snd (cancel_reservation_endpoint cn now rid usr w))) = db_users (w_db w)"
  by (auto simp: cancel_reservation_endpoint_def cancel_reservation_def transition_host_def Let_def
      split: sum.splits option.splits if_splits)

lemma connect_users [user_frames]:
  "db_users (w_db (snd (connect_token_endpoint sha cfg now rnow raw tid rid client usr w))) = db_users (w_db w)"
  by (simp add: connect_token_endpoint_def issue_response_users [OF prod.collapse [symmetric]] split: sum.split)

lemma verify_users [user_frames]:
  "db_users (w_db (snd (verify_token_endpoint sha cfg now cn rq p w))) = db_users (w_db w)"
  by (auto simp: verify_token_endpoint_def finish_verify_def audit_verify_def token_simps split_beta
      split: sum.split option.split)

lemma pair_users [user_frames]: "db_users (w_db (snd (pairing_endpoint sha cfg now answers p w))) = db_users (w_db w)"
  by (auto simp: pairing_endpoint_def split: option.split sum.split pairing_error.split)

lemma enrol_users [user_frames]:
  "db_users (w_db (snd (create_host_endpoint sha cfg rnow now raw hid tid usr p w))) = db_users (w_db w)"
  by (auto simp: create_host_endpoint_def dest!: issue_agent_users insert_host_Inr(1)
      split: sum.split option.split app_error.split prod.split)

lemma rotate_users [user_frames]:
  "db_users (w_db (snd (rotate_agent_token_endpoint sha cfg rnow now raw tid hid usr w))) = db_users (w_db w)"
  by (auto simp: rotate_agent_token_endpoint_def dest: issue_agent_users split: sum.split option.split prod.split)

lemma sunshine_users [user_frames]: "db_users (w_db (snd (set_sunshine_token_endpoint hid secret w))) = db_users (w_db w)"
  by (simp add: set_sunshine_token_endpoint_def Let_def split: option.split sum.split)

lemma heartbeat_users [user_frames]:
  "db_users (w_db (snd (heartbeat_endpoint sha cfg an now rq p w))) = db_users (w_db w)"
  by (rule heartbeat_cases [of sha cfg an now rq p w]) (auto dest: transition_host_frame(1))

lemma logout_users [user_frames]: "db_users (w_db (snd (logout sha cfg now rq su w))) = db_users (w_db w)"
  by (auto simp: logout_def revoke_session_def token_simps split_beta split: option.split)

lemma tick_hosts_users: "tick_hosts now hs n d b = (n', d', b') \<Longrightarrow> db_users d' = db_users d"
proof (induction hs arbitrary: n d b)
  case (Cons h hs)
  then show ?case by (auto dest: transition_host_frame(1) split: prod.splits)
qed simp

lemma monitor_users [user_frames]: "db_users (w_db (monitor_step cfg now w)) = db_users (w_db w)"
  by (auto simp: monitor_step_def run_one_tick_def dest: tick_hosts_users split: prod.split)

lemma login_users:
  assumes "mock_callback sha cfg now nid raw tid rq body w = (res, w')"
  obtains (same) "db_users (w_db w') = db_users (w_db w)"
  | (login) ident usr d1 where "app_env cfg \<noteq> Production" "mock_verify_callback body = Inr ident"
      "upsert_user nid ident (w_db w) = Inr (usr, d1)" "db_users (w_db w') = db_users d1"
proof (cases "\<exists>resp. res = Inr resp")
  case True
  with assms obtain resp where m: "mock_callback sha cfg now nid raw tid rq body w = (Inr resp, w')" by blast
  from m have "app_env cfg \<noteq> Production" by (auto simp: mock_callback_def)
  moreover obtain ident usr d1 tok d2 where l: "mock_verify_callback body = Inr ident"
    "upsert_user nid ident (w_db w) = Inr (usr, d1)"
    "issue_session sha (session_ttl_seconds cfg) now raw tid usr d1 = Inr ((raw, tok), d2)" "db_users (w_db w') = db_users d2"
    using m by (rule mock_callback_Inr)
  moreover have "db_users d2 = db_users d1" using issue_session_Inr(2) [OF l(3)] by (auto dest: insert_token_Inr(1))
  ultimately show ?thesis using login by simp
next
  case False
  with assms have "db_users (w_db w') = db_users (w_db w)"
    by (auto simp: mock_callback_def Let_def split: if_splits sum.splits prod.splits)
  then show ?thesis by (rule same)
qed

definition users_inv :: "settings \<Rightarrow> system \<Rightarrow> bool" where
  "users_inv cfg s \<longleftrightarrow> (app_env cfg = Production \<longrightarrow> db_users (w_db (snd s)) = [])
     \<and> (\<forall>u \<in> set (db_users (w_db (snd s))). u_role u \<in> {''user'', ''admin''} \<and> u_provider u = ''mock'')"

lemma users_inv_same:
  "users_inv cfg (t, w) \<Longrightarrow> db_users (w_db w') = db_users (w_db w) \<Longrightarrow> users_inv cfg (t', w')"
  by (simp add: users_inv_def)

lemma users_inv_login:
  assumes "users_inv cfg (t, w)" shows "users_inv cfg (t', snd (mock_callback sha cfg now nid raw tid rq body w))"
proof -
  obtain res w' where m: "mock_callback sha cfg now nid raw tid rq body w = (res, w')" by (metis prod.exhaust)
  from m show ?thesis
  proof (cases rule: login_users)
    case same
    with assms m show ?thesis by (auto intro: users_inv_same)
  next
    case (login ident usr d1)
    have v: "pv_verify_callback mock_provider body = Inr ident" using login(2) by (simp add: mock_provider_def)
    have "\<forall>u \<in> set (db_users d1). u_role u \<in> {''user'', ''admin''}"
      using mock.stored_roles [OF v login(3)] assms by (simp add: users_inv_def)
    moreover have "\<forall>u \<in> set (db_users d1). u_provider u = ''mock''"
      using login(3)
    proof (cases rule: upsert_user_cases)
      case (old u0)
      with assms show ?thesis by (auto simp: users_inv_def set_update_where)
    next
      case new
      with assms mock.verified_name [OF v] show ?thesis by (auto simp: users_inv_def mock_provider_def)
    qed
    ultimately show ?thesis using login(1,4) by (simp add: users_inv_def m)
  qed
qed

lemma users_inv_step: "system_step sha cfg (t, w) (t', w') \<Longrightarrow> users_inv cfg (t, w) \<Longrightarrow> users_inv cfg (t', w')"
  by (erule system_stepE)
    (auto simp: users_inv_login intro: users_inv_login elim: users_inv_same simp: user_frames with_broker_def)

interpretation broker_users: invariant_system system_start "system_step sha cfg" "users_inv cfg" for sha cfg
proof unfold_locales
  show "users_inv cfg s" if "system_start s" for s
    using that by (simp add: system_start_def users_inv_def empty_db_def)
  show "users_inv cfg s'" if "users_inv cfg s" "system_step sha cfg s s'" for s s'
    using that users_inv_step by (cases s, cases s') blast
qed

text \<open>Every user came from the configured provider with one of the two roles; and in production, where the
  mock routes are closed and no other provider exists, nobody ever logs in: there is no user, and so no
  token and no reservation.\<close>
theorem users_come_from_provider:
  assumes "reach system_start (system_step sha cfg) (t, w)"
  shows "list_all (\<lambda>u. u_provider u = ''mock'' \<and> u_role u \<in> {''user'', ''admin''}) (db_users (w_db w))
    \<and> (if app_env cfg = Production then db_users (w_db w) = [] \<and> db_tokens (w_db w) = [] \<and> db_reservations (w_db w) = []
       else True)"
proof -
  have "refs_wf (w_db w)" using reach_wf [OF assms] by (simp add: wf_db_def)
  then have "db_tokens (w_db w) = [] \<and> db_reservations (w_db w) = []" if "db_users (w_db w) = []"
    using that by (simp add: refs_wf_def)
  with broker_users.inv_reach [OF assms] show ?thesis by (simp add: users_inv_def list_all_iff)
qed

theorem users_come_from_provider_witness:
  "list_all (\<lambda>u. u_provider u = ''mock'' \<and> u_role u \<in> {''user'', ''admin''}) (db_users (w_db run_booking))
   \<and> length (db_users (w_db run_booking)) = 1"
proof
  show "list_all (\<lambda>u. u_provider u = ''mock'' \<and> u_role u \<in> {''user'', ''admin''}) (db_users (w_db run_booking))"
    using users_come_from_provider [OF run_reach(1)] by blast
qed code_simp

end
