(* ===== verification/Schema.thy ===== *)
theory Schema
  imports Domain
begin

text \<open>
  The schema of the database as the migrations build it (\<open>alembic/versions\<close>): the statements of the
  data definition language the migrations use, each revision with its upgrade and its downgrade, and the
  transaction in which \<open>alembic/env.py\<close> runs them.  A schema is the list of its tables with their
  columns and constraints, its indexes and its extensions.  A statement is refused when the object it
  names is missing or taken, or when another object depends on the one it drops.
\<close>

subsection \<open>Tables and columns\<close>

datatype sql_type =
  BigInteger | Integer | Varchar nat | Boolean | DateTimeTz | UUID | INET | JSONB | TSTZRANGE

text \<open>A server default is a literal, which SQLAlchemy quotes, or an SQL expression.\<close>

datatype server_default = DLiteral string | DExpr string

datatype on_delete = NoAction | Restrict | SetNull

record foreign_key =
  fk_table :: string
  fk_column :: string
  fk_ondelete :: on_delete

record column =
  col_name :: string
  col_type :: sql_type
  col_primary :: bool
  col_nullable :: bool
  col_unique :: bool
  col_default :: "server_default option"
  col_reference :: "foreign_key option"

datatype row_predicate =
  ColumnIn string "string list"
| ColumnsNull "string list"

record index =
  ix_name :: string
  ix_table :: string
  ix_columns :: "string list"
  ix_where :: "row_predicate option"
  ix_gist :: bool

datatype exclude_op = OpEqual | OpOverlap

record exclusion =
  ex_name :: string
  ex_elements :: "(string \<times> exclude_op) list"
  ex_where :: row_predicate

record table =
  tb_name :: string
  tb_columns :: "column list"
  tb_uniques :: "(string \<times> string list) list"
  tb_exclusions :: "exclusion list"

record schema =
  sc_extensions :: "string list"
  sc_tables :: "table list"
  sc_indexes :: "index list"

definition empty_schema :: schema where
  "empty_schema = \<lparr>sc_extensions = [], sc_tables = [], sc_indexes = []\<rparr>"

definition find_table :: "string \<Rightarrow> schema \<Rightarrow> table option" where
  "find_table n s = find (\<lambda>t. tb_name t = n) (sc_tables s)"

definition column_names :: "table \<Rightarrow> string list" where
  "column_names t = map col_name (tb_columns t)"

definition map_table :: "string \<Rightarrow> (table \<Rightarrow> table) \<Rightarrow> schema \<Rightarrow> schema" where
  "map_table n f s = s\<lparr>sc_tables := update_where (\<lambda>t. tb_name t = n) f (sc_tables s)\<rparr>"

subsection \<open>Statements\<close>

datatype ddl =
  CreateExtension string
| DropExtension string
| CreateTable table
| DropTable string
| CreateIndex index
| AddExclusion string exclusion
| AddColumn string column
| DropColumn string string
| AlterNullable string string bool

datatype ddl_error =
  DuplicateObject string
| UndefinedObject string
| DependentObjects string
| InvalidTable string
| MigrationError

text \<open>What the other tables refer to, and what needs the operator classes of \<open>btree_gist\<close>: equality
  in an exclusion constraint.\<close>

definition refers_to :: "string \<Rightarrow> table \<Rightarrow> bool" where
  "refers_to n t \<longleftrightarrow> (\<exists>c \<in> set (tb_columns t). map_option fk_table (col_reference c) = Some n)"

definition refers_to_column :: "string \<Rightarrow> string \<Rightarrow> table \<Rightarrow> bool" where
  "refers_to_column n k t \<longleftrightarrow> (\<exists>c \<in> set (tb_columns t).
     map_option (\<lambda>f. (fk_table f, fk_column f)) (col_reference c) = Some (n, k))"

definition reference_defined :: "schema \<Rightarrow> column \<Rightarrow> bool" where
  "reference_defined s c \<longleftrightarrow>
     (case col_reference c of
        None \<Rightarrow> True
      | Some f \<Rightarrow>
          (case find_table (fk_table f) s of
             None \<Rightarrow> False
           | Some t \<Rightarrow> (\<exists>k \<in> set (tb_columns t). col_name k = fk_column f \<and> (col_primary k \<or> col_unique k))))"

definition table_ok :: "table \<Rightarrow> bool" where
  "table_ok t \<longleftrightarrow> distinct (column_names t) \<and> (\<forall>u \<in> set (tb_uniques t). set (snd u) \<subseteq> set (column_names t))
     \<and> (\<forall>x \<in> set (tb_exclusions t). fst ` set (ex_elements x) \<subseteq> set (column_names t))"

definition needs_btree_gist :: "exclusion \<Rightarrow> bool" where
  "needs_btree_gist x \<longleftrightarrow> (\<exists>e \<in> set (ex_elements x). snd e = OpEqual)"

definition extension_needed :: "string \<Rightarrow> schema \<Rightarrow> bool" where
  "extension_needed e s \<longleftrightarrow> e = ''btree_gist''
     \<and> (\<exists>t \<in> set (sc_tables s). \<exists>x \<in> set (tb_exclusions t). needs_btree_gist x)"

definition without_column :: "string \<Rightarrow> table \<Rightarrow> table" where
  "without_column k t = t\<lparr>
     tb_columns := filter (\<lambda>c. col_name c \<noteq> k) (tb_columns t),
     tb_uniques := filter (\<lambda>u. k \<notin> set (snd u)) (tb_uniques t),
     tb_exclusions := filter (\<lambda>x. k \<notin> fst ` set (ex_elements x)) (tb_exclusions t)\<rparr>"

definition exec_ddl :: "ddl \<Rightarrow> schema \<Rightarrow> ddl_error + schema" where
  "exec_ddl st s =
     (case st of
        CreateExtension e \<Rightarrow>
          Inr (if e \<in> set (sc_extensions s) then s else s\<lparr>sc_extensions := sc_extensions s @ [e]\<rparr>)
      | DropExtension e \<Rightarrow>
          if extension_needed e s then Inl (DependentObjects e)
          else Inr (s\<lparr>sc_extensions := removeAll e (sc_extensions s)\<rparr>)
      | CreateTable t \<Rightarrow>
          if find_table (tb_name t) s \<noteq> None then Inl (DuplicateObject (tb_name t))
          else if \<not> table_ok t then Inl (InvalidTable (tb_name t))
          else if \<not> (\<forall>c \<in> set (tb_columns t). reference_defined s c) then Inl (UndefinedObject (tb_name t))
          else if (\<exists>x \<in> set (tb_exclusions t). needs_btree_gist x) \<and> ''btree_gist'' \<notin> set (sc_extensions s)
            then Inl (UndefinedObject ''btree_gist'')
          else Inr (s\<lparr>sc_tables := sc_tables s @ [t]\<rparr>)
      | DropTable n \<Rightarrow>
          if find_table n s = None then Inl (UndefinedObject n)
          else if \<exists>t \<in> set (sc_tables s). tb_name t \<noteq> n \<and> refers_to n t then Inl (DependentObjects n)
          else Inr (s\<lparr>sc_tables := filter (\<lambda>t. tb_name t \<noteq> n) (sc_tables s),
                      sc_indexes := filter (\<lambda>i. ix_table i \<noteq> n) (sc_indexes s)\<rparr>)
      | CreateIndex i \<Rightarrow>
          (case find_table (ix_table i) s of
             None \<Rightarrow> Inl (UndefinedObject (ix_table i))
           | Some t \<Rightarrow>
               if \<not> set (ix_columns i) \<subseteq> set (column_names t) then Inl (UndefinedObject (ix_name i))
               else if ix_name i \<in> ix_name ` set (sc_indexes s) then Inl (DuplicateObject (ix_name i))
               else Inr (s\<lparr>sc_indexes := sc_indexes s @ [i]\<rparr>))
      | AddExclusion n x \<Rightarrow>
          (case find_table n s of
             None \<Rightarrow> Inl (UndefinedObject n)
           | Some t \<Rightarrow>
               if \<not> fst ` set (ex_elements x) \<subseteq> set (column_names t) then Inl (UndefinedObject (ex_name x))
               else if needs_btree_gist x \<and> ''btree_gist'' \<notin> set (sc_extensions s)
                 then Inl (UndefinedObject ''btree_gist'')
               else if ex_name x \<in> ex_name ` set (tb_exclusions t) then Inl (DuplicateObject (ex_name x))
               else Inr (map_table n (\<lambda>t. t\<lparr>tb_exclusions := tb_exclusions t @ [x]\<rparr>) s))
      | AddColumn n c \<Rightarrow>
          (case find_table n s of
             None \<Rightarrow> Inl (UndefinedObject n)
           | Some t \<Rightarrow>
               if col_name c \<in> set (column_names t) then Inl (DuplicateObject (col_name c))
               else if \<not> reference_defined s c then Inl (UndefinedObject (col_name c))
               else Inr (map_table n (\<lambda>t. t\<lparr>tb_columns := tb_columns t @ [c]\<rparr>) s))
      | DropColumn n k \<Rightarrow>
          (case find_table n s of
             None \<Rightarrow> Inl (UndefinedObject n)
           | Some t \<Rightarrow>
               if k \<notin> set (column_names t) then Inl (UndefinedObject k)
               else if \<exists>t' \<in> set (sc_tables s). refers_to_column n k t' then Inl (DependentObjects k)
               else Inr ((map_table n (without_column k) s)
                 \<lparr>sc_indexes := filter (\<lambda>i. \<not> (ix_table i = n \<and> k \<in> set (ix_columns i))) (sc_indexes s)\<rparr>))
      | AlterNullable n k b \<Rightarrow>
          (case find_table n s of
             None \<Rightarrow> Inl (UndefinedObject n)
           | Some t \<Rightarrow>
               if k \<notin> set (column_names t) then Inl (UndefinedObject k)
               else Inr (map_table n (\<lambda>t. t\<lparr>tb_columns :=
                 map (\<lambda>c. if col_name c = k then c\<lparr>col_nullable := b\<rparr> else c) (tb_columns t)\<rparr>) s)))"

fun exec_all :: "ddl list \<Rightarrow> schema \<Rightarrow> ddl_error + schema" where
  "exec_all [] s = Inr s"
| "exec_all (st # sts) s = (case exec_ddl st s of Inl e \<Rightarrow> Inl e | Inr s' \<Rightarrow> exec_all sts s')"

lemma exec_all_append:
  "exec_all (xs @ ys) s = (case exec_all xs s of Inl e \<Rightarrow> Inl e | Inr s' \<Rightarrow> exec_all ys s')"
  by (induction xs arbitrary: s) (auto split: sum.split)

subsection \<open>Consistent schemas\<close>

text \<open>What the checks of the statements promise together: names are unique, every column a constraint or
  an index mentions exists, references lead to a key, and the extension an exclusion needs is there.\<close>

definition schema_wf :: "schema \<Rightarrow> bool" where
  "schema_wf s \<longleftrightarrow> distinct (map tb_name (sc_tables s)) \<and> distinct (map ix_name (sc_indexes s))
     \<and> (\<forall>t \<in> set (sc_tables s). table_ok t \<and> (\<forall>c \<in> set (tb_columns t). reference_defined s c)
          \<and> (\<forall>x \<in> set (tb_exclusions t). needs_btree_gist x \<longrightarrow> ''btree_gist'' \<in> set (sc_extensions s)))
     \<and> (\<forall>i \<in> set (sc_indexes s). \<exists>t. find_table (ix_table i) s = Some t \<and> set (ix_columns i) \<subseteq> set (column_names t))"

lemma find_table_frame [simp]:
  "find_table n (s\<lparr>sc_indexes := is\<rparr>) = find_table n s" "find_table n (s\<lparr>sc_extensions := es\<rparr>) = find_table n s"
  by (simp_all add: find_table_def)

lemma reference_defined_frame [simp]:
  "reference_defined (s\<lparr>sc_indexes := is\<rparr>) c = reference_defined s c"
  "reference_defined (s\<lparr>sc_extensions := es\<rparr>) c = reference_defined s c"
  by (simp_all add: reference_defined_def split: option.split)

lemma find_table_SomeD: "find_table n s = Some t \<Longrightarrow> t \<in> set (sc_tables s) \<and> tb_name t = n"
  by (auto simp: find_table_def dest: find_SomeD)

lemma find_table_None_iff: "find_table n s = None \<longleftrightarrow> n \<notin> tb_name ` set (sc_tables s)"
  by (auto simp: find_table_def find_None_iff)

lemma find_table_unique:
  assumes "distinct (map tb_name (sc_tables s))"
  shows "find_table n s = Some t \<longleftrightarrow> t \<in> set (sc_tables s) \<and> tb_name t = n"
  unfolding find_table_def by (rule find_Some_iff_unique) (use assms in \<open>auto simp: distinct_map inj_on_def\<close>)

lemma find_table_map_table:
  assumes "\<And>t. tb_name (f t) = tb_name t"
  shows "find_table m (map_table n f s) = map_option (\<lambda>t. if tb_name t = n then f t else t) (find_table m s)"
proof -
  have "find (\<lambda>t. tb_name t = m) (update_where (\<lambda>t. tb_name t = n) f ts)
      = map_option (\<lambda>t. if tb_name t = n then f t else t) (find (\<lambda>t. tb_name t = m) ts)" for ts
    by (induction ts) (auto simp: update_where_def assms)
  then show ?thesis by (simp add: find_table_def map_table_def)
qed

lemma map_table_fields [simp]:
  "sc_extensions (map_table n f s) = sc_extensions s" "sc_indexes (map_table n f s) = sc_indexes s"
  by (simp_all add: map_table_def)

lemma set_map_table:
  "set (sc_tables (map_table n f s)) = {f t | t. t \<in> set (sc_tables s) \<and> tb_name t = n}
     \<union> {t \<in> set (sc_tables s). tb_name t \<noteq> n}"
  by (simp add: map_table_def set_update_where)

text \<open>A table may change as long as its columns, keys and constraints stay consistent and no column
  vanishes that something else needs.\<close>

lemma schema_wf_map_table:
  assumes wf: "schema_wf s" and name: "\<And>t. tb_name (f t) = tb_name t"
    and ok: "\<And>t. find_table n s = Some t \<Longrightarrow> table_ok (f t)"
    and refs: "\<And>t c. find_table n s = Some t \<Longrightarrow> c \<in> set (tb_columns (f t)) \<Longrightarrow> reference_defined (map_table n f s) c"
    and ext: "\<And>t x. find_table n s = Some t \<Longrightarrow> x \<in> set (tb_exclusions (f t)) \<Longrightarrow> needs_btree_gist x \<Longrightarrow>
      ''btree_gist'' \<in> set (sc_extensions s)"
    and keys: "\<And>t' c. t' \<in> set (sc_tables s) \<Longrightarrow> c \<in> set (tb_columns t') \<Longrightarrow> reference_defined s c \<Longrightarrow>
      reference_defined (map_table n f s) c"
    and ix: "\<And>i t. i \<in> set is \<Longrightarrow> find_table n s = Some t \<Longrightarrow> ix_table i = n \<Longrightarrow>
      set (ix_columns i) \<subseteq> set (column_names t) \<Longrightarrow> set (ix_columns i) \<subseteq> set (column_names (f t))"
    and sub: "set is \<subseteq> set (sc_indexes s)" "distinct (map ix_name is)"
  shows "schema_wf ((map_table n f s)\<lparr>sc_indexes := is\<rparr>)"
proof -
  have u: "distinct (map tb_name (sc_tables s))" using wf by (simp add: schema_wf_def)

  have tabs: "\<forall>t \<in> set (sc_tables (map_table n f s)). table_ok t
      \<and> (\<forall>c \<in> set (tb_columns t). reference_defined (map_table n f s) c)
      \<and> (\<forall>x \<in> set (tb_exclusions t). needs_btree_gist x \<longrightarrow> ''btree_gist'' \<in> set (sc_extensions s))"
    using wf ok refs ext keys by (auto simp: set_map_table schema_wf_def find_table_unique [OF u])
  have "\<exists>t. find_table (ix_table i) (map_table n f s) = Some t \<and> set (ix_columns i) \<subseteq> set (column_names t)"
    if i: "i \<in> set is" for i
  proof -
    from i sub(1) wf obtain t where t: "find_table (ix_table i) s = Some t" "set (ix_columns i) \<subseteq> set (column_names t)"
      unfolding schema_wf_def by blast
    show ?thesis using t ix [OF i] find_table_SomeD [OF t(1)] by (auto simp: find_table_map_table name)
  qed
  moreover have "distinct (map tb_name (sc_tables (map_table n f s)))"
    using u by (simp add: map_table_def map_update_where name)
  ultimately show ?thesis using tabs sub(2)
    by (auto simp: schema_wf_def)
qed

lemma reference_defined_map_table:
  assumes "\<And>t. tb_name (f t) = tb_name t" "reference_defined s c"
    and "\<And>t k. find_table n s = Some t \<Longrightarrow> map_option fk_table (col_reference c) = Some n \<Longrightarrow>
      map_option fk_column (col_reference c) = Some (col_name k) \<Longrightarrow> k \<in> set (tb_columns t) \<Longrightarrow>
      col_primary k \<or> col_unique k \<Longrightarrow>
      \<exists>k' \<in> set (tb_columns (f t)). col_name k' = col_name k \<and> (col_primary k' \<or> col_unique k')"
  shows "reference_defined (map_table n f s) c"
proof (cases "col_reference c")
  case (Some fk)
  with assms(2) obtain t k where t: "find_table (fk_table fk) s = Some t" "k \<in> set (tb_columns t)"
    "col_name k = fk_column fk" "col_primary k \<or> col_unique k"
    by (auto simp: reference_defined_def split: option.splits)
  show ?thesis
  proof (cases "fk_table fk = n")
    case True
    with assms(3) [of t k] t Some find_table_SomeD [OF t(1)] show ?thesis
      by (auto simp: reference_defined_def find_table_map_table assms(1))
  next
    case False
    with t Some find_table_SomeD [OF t(1)] show ?thesis
      by (auto simp: reference_defined_def find_table_map_table assms(1))
  qed
qed (simp add: reference_defined_def)

lemma update_indexes_same: "s\<lparr>sc_indexes := sc_indexes s\<rparr> = s"
  by simp

lemma schema_wf_create_table:
  assumes "schema_wf s" "exec_ddl (CreateTable t) s = Inr s'" shows "schema_wf s'"
proof -
  have new: "find_table (tb_name t) s = None" and ok: "table_ok t" "\<forall>c \<in> set (tb_columns t). reference_defined s c"
    and ext: "(\<exists>x \<in> set (tb_exclusions t). needs_btree_gist x) \<longrightarrow> ''btree_gist'' \<in> set (sc_extensions s)"
    and s': "s' = s\<lparr>sc_tables := sc_tables s @ [t]\<rparr>"
    using assms(2) by (auto simp: exec_ddl_def split: if_splits)
  have f: "find_table n s = Some q \<Longrightarrow> find_table n s' = Some q" for n q
    by (auto simp: s' find_table_def find_append)
  then have "reference_defined s c \<Longrightarrow> reference_defined s' c" for c
    by (auto simp: reference_defined_def split: option.splits)
  moreover have "tb_name t \<notin> tb_name ` set (sc_tables s)" using new by (simp add: find_table_None_iff)
  moreover have "sc_tables s' = sc_tables s @ [t]" "sc_indexes s' = sc_indexes s" "sc_extensions s' = sc_extensions s"
    by (simp_all add: s')
  ultimately show ?thesis using assms(1) ok ext f unfolding schema_wf_def by (simp, blast)
qed

lemma schema_wf_drop_table:
  assumes "schema_wf s" "exec_ddl (DropTable n) s = Inr s'" shows "schema_wf s'"
proof -
  have free: "\<And>t. t \<in> set (sc_tables s) \<Longrightarrow> tb_name t \<noteq> n \<Longrightarrow> \<not> refers_to n t"
    and s': "s' = s\<lparr>sc_tables := filter (\<lambda>t. tb_name t \<noteq> n) (sc_tables s),
      sc_indexes := filter (\<lambda>i. ix_table i \<noteq> n) (sc_indexes s)\<rparr>"
    using assms(2) by (auto simp: exec_ddl_def split: if_splits)
  have "find (\<lambda>t. tb_name t = m) (filter (\<lambda>t. tb_name t \<noteq> n) ts) = find (\<lambda>t. tb_name t = m) ts" if "m \<noteq> n" for m ts
    using that by (induction ts) auto
  then have f: "m \<noteq> n \<Longrightarrow> find_table m s' = find_table m s" for m
    by (simp add: s' find_table_def)
  have "reference_defined s' c" if "t \<in> set (sc_tables s)" "tb_name t \<noteq> n" "c \<in> set (tb_columns t)" "reference_defined s c" for t c
    using that free [OF that(1,2)] by (auto simp: reference_defined_def refers_to_def f split: option.splits)
  then show ?thesis using assms(1) f
    by (auto simp: schema_wf_def s' distinct_map inj_on_def)
qed

lemma without_column_names: "set (column_names (without_column k t)) = set (column_names t) - {k}"
  by (auto simp: column_names_def without_column_def)

lemma without_column_ok: "table_ok t \<Longrightarrow> table_ok (without_column k t)"
  unfolding table_ok_def without_column_names subset_Diff_insert Diff_empty
  by (simp add: without_column_def) (simp add: column_names_def distinct_map inj_on_def)

lemma schema_wf_drop_column:
  assumes "schema_wf s" "exec_ddl (DropColumn n k) s = Inr s'" shows "schema_wf s'"
proof -
  obtain t0 where t0: "find_table n s = Some t0" and free: "\<forall>t' \<in> set (sc_tables s). \<not> refers_to_column n k t'"
    and s': "s' = (map_table n (without_column k) s)
      \<lparr>sc_indexes := filter (\<lambda>i. \<not> (ix_table i = n \<and> k \<in> set (ix_columns i))) (sc_indexes s)\<rparr>"
    using assms(2) by (auto simp: exec_ddl_def split: option.splits if_splits)
  have t: "t0 \<in> set (sc_tables s)" "table_ok t0" using assms(1) find_table_SomeD [OF t0] by (auto simp: schema_wf_def)
  have name: "tb_name (without_column k t) = tb_name t" for t by (simp add: without_column_def)
  have refs: "reference_defined (map_table n (without_column k) s) c"
    if "t' \<in> set (sc_tables s)" "c \<in> set (tb_columns t')" "reference_defined s c" for t' c
    by (rule reference_defined_map_table)
      (use that free in \<open>auto simp: refers_to_column_def without_column_def\<close>)
  show ?thesis unfolding s'
  proof (rule schema_wf_map_table)
    show "table_ok (without_column k q)" if "find_table n s = Some q" for q
      using that t0 t(2) by (simp add: without_column_ok)
    show "reference_defined (map_table n (without_column k) s) c"
      if "find_table n s = Some q" "c \<in> set (tb_columns (without_column k q))" for q c
      using refs [of q c] that assms(1) find_table_SomeD [OF that(1)] by (auto simp: schema_wf_def without_column_def)
    show "''btree_gist'' \<in> set (sc_extensions s)"
      if "find_table n s = Some q" "x \<in> set (tb_exclusions (without_column k q))" "needs_btree_gist x" for q x
      using that assms(1) find_table_SomeD [OF that(1)] by (auto simp: schema_wf_def without_column_def)
    show "distinct (map ix_name (filter (\<lambda>i. \<not> (ix_table i = n \<and> k \<in> set (ix_columns i))) (sc_indexes s)))"
      using assms(1) by (auto simp: schema_wf_def distinct_map inj_on_def)
  qed (use assms(1) refs in \<open>auto simp: name without_column_names\<close>)
qed

lemma table_ok_add_column:
  "table_ok t \<Longrightarrow> col_name c \<notin> set (column_names t) \<Longrightarrow> table_ok (t\<lparr>tb_columns := tb_columns t @ [c]\<rparr>)"
  by (simp add: table_ok_def column_names_def) blast

lemma schema_wf_add_column:
  assumes "schema_wf s" "exec_ddl (AddColumn n c) s = Inr s'" shows "schema_wf s'"
proof -
  let ?f = "\<lambda>t. t\<lparr>tb_columns := tb_columns t @ [c]\<rparr>"
  obtain t0 where t0: "find_table n s = Some t0" and new: "col_name c \<notin> set (column_names t0)"
    and c: "reference_defined s c" and s': "s' = (map_table n ?f s)\<lparr>sc_indexes := sc_indexes s\<rparr>"
    using assms(2) by (auto simp: exec_ddl_def map_table_def split: option.splits if_splits)
  have refs: "reference_defined (map_table n ?f s) k" if "reference_defined s k" for k
    by (rule reference_defined_map_table) (use that in auto)
  show ?thesis unfolding s'
  proof (rule schema_wf_map_table)
    show "table_ok (?f q)" if "find_table n s = Some q" for q
      using that t0 new assms(1) find_table_SomeD [OF t0] by (auto simp: schema_wf_def intro: table_ok_add_column)
    show "reference_defined (map_table n ?f s) k" if "find_table n s = Some q" "k \<in> set (tb_columns (?f q))" for q k
      using refs [of k] refs [OF c] that assms(1) find_table_SomeD [OF that(1)] by (auto simp: schema_wf_def)
    show "''btree_gist'' \<in> set (sc_extensions s)"
      if "find_table n s = Some q" "x \<in> set (tb_exclusions (?f q))" "needs_btree_gist x" for q x
      using that assms(1) find_table_SomeD [OF that(1)] by (auto simp: schema_wf_def)
  qed (use assms(1) refs in \<open>auto simp: column_names_def schema_wf_def\<close>)
qed

lemma schema_wf_alter_nullable:
  assumes "schema_wf s" "exec_ddl (AlterNullable n k b) s = Inr s'" shows "schema_wf s'"
proof -
  let ?g = "\<lambda>c. if col_name c = k then c\<lparr>col_nullable := b\<rparr> else c"
  let ?f = "\<lambda>t. t\<lparr>tb_columns := map ?g (tb_columns t)\<rparr>"
  have g: "col_name (?g c) = col_name c" "col_primary (?g c) = col_primary c" "col_unique (?g c) = col_unique c"
    "col_reference (?g c) = col_reference c" for c
    by simp_all
  have names: "column_names (?f t) = column_names t" for t by (simp add: column_names_def)
  have ok: "table_ok (?f t) = table_ok t" for t unfolding table_ok_def names by simp
  have ref: "reference_defined s (?g c) = reference_defined s c" for c s by (simp add: reference_defined_def)
  have s': "s' = (map_table n ?f s)\<lparr>sc_indexes := sc_indexes s\<rparr>"
    using assms(2) by (auto simp: exec_ddl_def map_table_def split: option.splits if_splits)
  have refs: "reference_defined (map_table n ?f s) c" if "reference_defined s c" for c
  proof (rule reference_defined_map_table)
    show "\<exists>k' \<in> set (tb_columns (?f t)). col_name k' = col_name q \<and> (col_primary k' \<or> col_unique k')"
      if "q \<in> set (tb_columns t)" "col_primary q \<or> col_unique q" for t q
      using that by (intro bexI [of _ "?g q"]) (simp_all only: g, simp_all)
  qed (use that in simp_all)
  show ?thesis unfolding s'
  proof (rule schema_wf_map_table)
    show "table_ok (?f q)" if "find_table n s = Some q" for q
      using assms(1) find_table_SomeD [OF that] unfolding ok by (auto simp: schema_wf_def)
    show "reference_defined (map_table n ?f s) c" if "find_table n s = Some q" "c \<in> set (tb_columns (?f q))" for q c
    proof -
      from that(2) obtain c0 where c0: "c0 \<in> set (tb_columns q)" "c = ?g c0" by auto
      have "reference_defined s c" unfolding c0(2) ref
        using assms(1) find_table_SomeD [OF that(1)] c0(1) by (auto simp: schema_wf_def)
      then show ?thesis by (rule refs)
    qed
    show "''btree_gist'' \<in> set (sc_extensions s)"
      if "find_table n s = Some q" "x \<in> set (tb_exclusions (?f q))" "needs_btree_gist x" for q x
      using that assms(1) find_table_SomeD [OF that(1)] by (auto simp: schema_wf_def)
  qed (use assms(1) refs in \<open>auto simp: names schema_wf_def simp del: table.simps\<close>)
qed

lemma schema_wf_add_exclusion:
  assumes "schema_wf s" "exec_ddl (AddExclusion n x) s = Inr s'" shows "schema_wf s'"
proof -
  let ?f = "\<lambda>t. t\<lparr>tb_exclusions := tb_exclusions t @ [x]\<rparr>"
  obtain t0 where t0: "find_table n s = Some t0" and cols: "fst ` set (ex_elements x) \<subseteq> set (column_names t0)"
    and ext: "needs_btree_gist x \<longrightarrow> ''btree_gist'' \<in> set (sc_extensions s)"
    and s': "s' = (map_table n ?f s)\<lparr>sc_indexes := sc_indexes s\<rparr>"
    using assms(2) by (auto simp: exec_ddl_def map_table_def split: option.splits if_splits)
  have refs: "reference_defined (map_table n ?f s) k" if "reference_defined s k" for k
    by (rule reference_defined_map_table) (use that in auto)
  show ?thesis unfolding s'
  proof (rule schema_wf_map_table)
    show "table_ok (?f q)" if "find_table n s = Some q" for q
      using that t0 cols assms(1) find_table_SomeD [OF t0] by (auto simp: schema_wf_def table_ok_def column_names_def)
    show "''btree_gist'' \<in> set (sc_extensions s)"
      if "find_table n s = Some q" "y \<in> set (tb_exclusions (?f q))" "needs_btree_gist y" for q y
      using that ext assms(1) find_table_SomeD [OF that(1)] by (auto simp: schema_wf_def)
  qed (use assms(1) refs in \<open>auto simp: column_names_def schema_wf_def dest!: find_table_SomeD\<close>)
qed

text \<open>Every statement keeps a schema consistent, and so does every list of them.\<close>

lemma schema_wf_exec: assumes "schema_wf s" "exec_ddl st s = Inr s'" shows "schema_wf s'"
proof (cases st)
  case (CreateIndex i)
  obtain t where "find_table (ix_table i) s = Some t" "set (ix_columns i) \<subseteq> set (column_names t)"
    "ix_name i \<notin> ix_name ` set (sc_indexes s)" "s' = s\<lparr>sc_indexes := sc_indexes s @ [i]\<rparr>"
    using assms(2) CreateIndex by (auto simp: exec_ddl_def split: option.splits if_splits)
  then show ?thesis using assms(1) by (auto simp: schema_wf_def)
next
  case (DropExtension e)
  then show ?thesis using assms by (auto simp: exec_ddl_def schema_wf_def extension_needed_def split: if_splits)
next
  case (CreateExtension e)
  then show ?thesis using assms by (auto simp: exec_ddl_def schema_wf_def split: if_splits)
qed (use assms in \<open>blast intro: schema_wf_create_table schema_wf_drop_table schema_wf_drop_column
       schema_wf_add_column schema_wf_alter_nullable schema_wf_add_exclusion\<close>)+

lemma schema_wf_exec_all: "schema_wf s \<Longrightarrow> exec_all sts s = Inr s' \<Longrightarrow> schema_wf s'"
  by (induction sts arbitrary: s) (auto split: sum.splits dest: schema_wf_exec)

lemma schema_wf_empty [simp]: "schema_wf empty_schema"
  by (simp add: schema_wf_def empty_schema_def)

end
