(* ===== verification/Migrations.thy ===== *)
theory Migrations
  imports Schema
begin

text \<open>
  The three revisions of \<open>alembic/versions\<close>, table by table, the transaction of \<open>alembic/env.py\<close>
  in which they run, and what running them forwards and backwards does.
\<close>

subsection \<open>Columns\<close>

text \<open>\<open>sa.Column(name, type, nullable=...)\<close>; what else a column carries is an update of it.\<close>

definition sa_column :: "string \<Rightarrow> sql_type \<Rightarrow> bool \<Rightarrow> column" where
  "sa_column n ty nullable = \<lparr>col_name = n, col_type = ty, col_primary = False, col_nullable = nullable,
     col_unique = False, col_default = None, col_reference = None\<rparr>"

definition with_default :: "server_default \<Rightarrow> column \<Rightarrow> column" where
  "with_default v c = c\<lparr>col_default := Some v\<rparr>"

definition with_reference :: "string \<Rightarrow> on_delete \<Rightarrow> column \<Rightarrow> column" where
  "with_reference t od c = c\<lparr>col_reference := Some \<lparr>fk_table = t, fk_column = ''id'', fk_ondelete = od\<rparr>\<rparr>"

definition sa_id :: column where
  "sa_id = (sa_column ''id'' BigInteger False)\<lparr>col_primary := True\<rparr>"

definition sa_public_id :: column where
  "sa_public_id = (with_default (DExpr ''gen_random_uuid()'') (sa_column ''public_id'' UUID False))\<lparr>col_unique := True\<rparr>"

definition sa_now :: "string \<Rightarrow> column" where
  "sa_now n = with_default (DExpr ''now()'') (sa_column n DateTimeTz False)"

definition sa_json :: "string \<Rightarrow> column" where
  "sa_json n = with_default (DExpr ([CHR 0x27] @ ''{}'' @ [CHR 0x27] @ ''::jsonb'')) (sa_column n JSONB False)"

definition plain_index :: "string \<Rightarrow> string \<Rightarrow> string list \<Rightarrow> ddl" where
  "plain_index n t ks = CreateIndex \<lparr>ix_name = n, ix_table = t, ix_columns = ks, ix_where = None, ix_gist = False\<rparr>"

definition partial_index :: "string \<Rightarrow> string \<Rightarrow> string list \<Rightarrow> row_predicate \<Rightarrow> ddl" where
  "partial_index n t ks p =
     CreateIndex \<lparr>ix_name = n, ix_table = t, ix_columns = ks, ix_where = Some p, ix_gist = False\<rparr>"

definition sa_table :: "string \<Rightarrow> column list \<Rightarrow> (string \<times> string list) list \<Rightarrow> table" where
  "sa_table n cs us = \<lparr>tb_name = n, tb_columns = cs, tb_uniques = us, tb_exclusions = []\<rparr>"

subsection \<open>Revision 0001\<close>

definition users_table :: table where
  "users_table = sa_table ''users''
        [sa_id, sa_public_id, sa_column ''external_id'' (Varchar 128) False,
         sa_column ''provider'' (Varchar 32) False, sa_column ''display_name'' (Varchar 128) False,
         sa_column ''email'' (Varchar 255) True,
         with_default (DLiteral ''user'') (sa_column ''role'' (Varchar 16) False),
         with_default (DExpr ''true'') (sa_column ''is_active'' Boolean False),
         sa_now ''created_at'', sa_now ''updated_at'']
        [(''uq_users_provider_external'', [''provider'', ''external_id''])]"

definition create_users :: "ddl list" where
  "create_users =
     [CreateTable users_table,
      partial_index ''ix_users_role_admin'' ''users'' [''role''] (ColumnIn ''role'' [''admin''])]"

definition hosts_table :: table where
  "hosts_table = sa_table ''hosts''
        [sa_id, sa_public_id, (sa_column ''hostname'' (Varchar 64) False)\<lparr>col_unique := True\<rparr>,
         sa_column ''display_name'' (Varchar 128) False, sa_column ''location'' (Varchar 128) True,
         sa_column ''ip_address'' INET True,
         with_default (DLiteral ''47984'') (sa_column ''sunshine_port'' Integer False),
         sa_column ''gpu_model'' (Varchar 128) True,
         with_default (DLiteral ''OFFLINE'') (sa_column ''status'' (Varchar 16) False),
         sa_column ''last_heartbeat_at'' DateTimeTz True, sa_json ''metadata'',
         sa_now ''created_at'', sa_now ''updated_at''] []"

definition create_hosts :: "ddl list" where
  "create_hosts =
     [CreateTable hosts_table,
      plain_index ''ix_hosts_status'' ''hosts'' [''status''],
      plain_index ''ix_hosts_last_heartbeat'' ''hosts'' [''last_heartbeat_at'']]"

definition no_overlap_constraint :: exclusion where
  "no_overlap_constraint = \<lparr>ex_name = ''reservations_no_overlap'',
     ex_elements = [(''host_id'', OpEqual), (''time_range'', OpOverlap)],
     ex_where = ColumnIn ''status'' [''CONFIRMED'', ''COMPLETED'']\<rparr>"

definition reservations_table :: table where
  "reservations_table = sa_table ''reservations''
        [sa_id, sa_public_id,
         with_reference ''users'' Restrict (sa_column ''user_id'' BigInteger False),
         with_reference ''hosts'' Restrict (sa_column ''host_id'' BigInteger False),
         sa_column ''time_range'' TSTZRANGE False,
         with_default (DLiteral ''CONFIRMED'') (sa_column ''status'' (Varchar 16) False),
         sa_column ''canceled_at'' DateTimeTz True, sa_now ''created_at'', sa_now ''updated_at''] []"

definition create_reservations :: "ddl list" where
  "create_reservations =
     [CreateTable reservations_table,
      AddExclusion ''reservations'' no_overlap_constraint,
      plain_index ''ix_reservations_user_time'' ''reservations'' [''user_id'', ''time_range''],
      CreateIndex \<lparr>ix_name = ''ix_reservations_time_range_gist'', ix_table = ''reservations'',
        ix_columns = [''time_range''], ix_where = None, ix_gist = True\<rparr>]"

definition sessions_table :: table where
  "sessions_table = sa_table ''sessions''
        [sa_id, sa_public_id,
         with_reference ''reservations'' Restrict (sa_column ''reservation_id'' BigInteger False),
         with_reference ''users'' NoAction (sa_column ''user_id'' BigInteger False),
         with_reference ''hosts'' NoAction (sa_column ''host_id'' BigInteger False),
         with_default (DLiteral ''PENDING'') (sa_column ''state'' (Varchar 16) False),
         sa_column ''started_at'' DateTimeTz True, sa_column ''ended_at'' DateTimeTz True,
         sa_column ''end_reason'' (Varchar 32) True, sa_json ''client_info'',
         sa_now ''created_at'', sa_now ''updated_at''] []"

definition create_sessions :: "ddl list" where
  "create_sessions =
     [CreateTable sessions_table,
      plain_index ''ix_sessions_reservation'' ''sessions'' [''reservation_id''],
      partial_index ''ix_sessions_active'' ''sessions'' [''state'']
        (ColumnIn ''state'' [''PENDING'', ''PAIRING'', ''ACTIVE'']),
      plain_index ''ix_sessions_host_state'' ''sessions'' [''host_id'', ''state'']]"

definition tokens_table :: table where
  "tokens_table = sa_table ''tokens''
        [sa_id, sa_public_id, (sa_column ''jti'' (Varchar 64) False)\<lparr>col_unique := True\<rparr>,
         with_reference ''users'' NoAction (sa_column ''user_id'' BigInteger False),
         with_reference ''hosts'' NoAction (sa_column ''host_id'' BigInteger False),
         with_reference ''reservations'' NoAction (sa_column ''reservation_id'' BigInteger True),
         sa_column ''purpose'' (Varchar 32) False, sa_now ''issued_at'',
         sa_column ''expires_at'' DateTimeTz False, sa_column ''consumed_at'' DateTimeTz True,
         sa_column ''revoked_at'' DateTimeTz True, sa_now ''created_at'', sa_now ''updated_at''] []"

definition create_tokens :: "ddl list" where
  "create_tokens =
     [CreateTable tokens_table,
      plain_index ''ix_tokens_user_expires'' ''tokens'' [''user_id'', ''expires_at''],
      partial_index ''ix_tokens_active_expires'' ''tokens'' [''expires_at'']
        (ColumnsNull [''consumed_at'', ''revoked_at''])]"

definition audit_logs_table :: table where
  "audit_logs_table = sa_table ''audit_logs''
        [sa_id, sa_now ''occurred_at'',
         with_reference ''users'' SetNull (sa_column ''actor_user_id'' BigInteger True),
         sa_column ''actor_kind'' (Varchar 16) False, sa_column ''action'' (Varchar 64) False,
         sa_column ''target_kind'' (Varchar 32) True, sa_column ''target_id'' BigInteger True,
         sa_column ''request_id'' (Varchar 64) True, sa_column ''auth_provider'' (Varchar 32) True,
         sa_column ''ip_address'' INET True, sa_column ''result'' (Varchar 16) False, sa_json ''detail''] []"

definition create_audit_logs :: "ddl list" where
  "create_audit_logs =
     [CreateTable audit_logs_table,
      plain_index ''ix_audit_logs_occurred_at'' ''audit_logs'' [''occurred_at''],
      plain_index ''ix_audit_logs_actor_occurred'' ''audit_logs'' [''actor_user_id'', ''occurred_at''],
      plain_index ''ix_audit_logs_target_occurred'' ''audit_logs'' [''target_kind'', ''target_id'', ''occurred_at''],
      plain_index ''ix_audit_logs_action_occurred'' ''audit_logs'' [''action'', ''occurred_at'']]"

definition upgrade_0001 :: "schema \<Rightarrow> ddl_error + schema" where
  "upgrade_0001 = exec_all ([CreateExtension ''btree_gist'', CreateExtension ''pgcrypto'']
     @ create_users @ create_hosts @ create_reservations @ create_sessions @ create_tokens @ create_audit_logs)"

definition downgrade_0001 :: "schema \<Rightarrow> ddl_error + schema" where
  "downgrade_0001 = exec_all [DropTable ''audit_logs'', DropTable ''tokens'', DropTable ''sessions'',
     DropTable ''reservations'', DropTable ''hosts'', DropTable ''users'', DropExtension ''btree_gist'']"

subsection \<open>Revisions 0002 and 0003\<close>

definition upgrade_0002 :: "schema \<Rightarrow> ddl_error + schema" where
  "upgrade_0002 = exec_all [AlterNullable ''tokens'' ''host_id'' True]"

definition downgrade_0002 :: "schema \<Rightarrow> ddl_error + schema" where
  "downgrade_0002 s = Inl MigrationError"

definition upgrade_0003 :: "schema \<Rightarrow> ddl_error + schema" where
  "upgrade_0003 = exec_all [AddColumn ''hosts'' (sa_column ''sunshine_broker_token'' (Varchar 128) True)]"

definition downgrade_0003 :: "schema \<Rightarrow> ddl_error + schema" where
  "downgrade_0003 = exec_all [DropColumn ''hosts'' ''sunshine_broker_token'']"

record migration =
  mg_revision :: string
  mg_down_revision :: "string option"
  mg_upgrade :: "schema \<Rightarrow> ddl_error + schema"
  mg_downgrade :: "schema \<Rightarrow> ddl_error + schema"

definition migration_0001 :: migration where
  "migration_0001 = \<lparr>mg_revision = ''0001_initial'', mg_down_revision = None,
     mg_upgrade = upgrade_0001, mg_downgrade = downgrade_0001\<rparr>"

definition migration_0002 :: migration where
  "migration_0002 = \<lparr>mg_revision = ''0002_token_host_nullable'', mg_down_revision = Some ''0001_initial'',
     mg_upgrade = upgrade_0002, mg_downgrade = downgrade_0002\<rparr>"

definition migration_0003 :: migration where
  "migration_0003 = \<lparr>mg_revision = ''0003_host_sunshine_broker_token'',
     mg_down_revision = Some ''0002_token_host_nullable'',
     mg_upgrade = upgrade_0003, mg_downgrade = downgrade_0003\<rparr>"

definition versions :: "migration list" where
  "versions = [migration_0001, migration_0002, migration_0003]"

subsection \<open>Running revisions\<close>

text \<open>\<open>do_run_migrations\<close> opens one transaction around all the steps Alembic runs, so when one of them
  raises, none has an effect; \<open>run_env\<close> is the end of \<open>env.py\<close>.  Which steps there are is Alembic's
  choice: an argument.\<close>

fun run_steps :: "(schema \<Rightarrow> ddl_error + schema) list \<Rightarrow> schema \<Rightarrow> ddl_error + schema" where
  "run_steps [] s = Inr s"
| "run_steps (f # fs) s = (case f s of Inl e \<Rightarrow> Inl e | Inr s' \<Rightarrow> run_steps fs s')"

definition do_run_migrations ::
  "(schema \<Rightarrow> ddl_error + schema) list \<Rightarrow> schema \<Rightarrow> (ddl_error + unit) \<times> schema" where
  "do_run_migrations steps s = (case run_steps steps s of Inl e \<Rightarrow> (Inl e, s) | Inr s' \<Rightarrow> (Inr (), s'))"

definition run_env ::
  "bool \<Rightarrow> (schema \<Rightarrow> ddl_error + schema) list \<Rightarrow> schema \<Rightarrow> (ddl_error + unit) \<times> schema" where
  "run_env offline steps s = (if offline then (Inl MigrationError, s) else do_run_migrations steps s)"

text \<open>\<open>alembic upgrade head\<close> and \<open>alembic downgrade base\<close>: the revisions in the order of their
  \<open>down_revision\<close> links, or against it.\<close>

definition upgrade_steps :: "(schema \<Rightarrow> ddl_error + schema) list" where
  "upgrade_steps = map mg_upgrade versions"

definition downgrade_steps :: "(schema \<Rightarrow> ddl_error + schema) list" where
  "downgrade_steps = map mg_downgrade (rev versions)"

definition head_schema :: schema where
  "head_schema = snd (run_env False upgrade_steps empty_schema)"

lemma versions_linear:
  "map mg_down_revision versions = None # map (Some \<circ> mg_revision) (butlast versions)"
  "distinct (map mg_revision versions)"
  by (simp_all add: versions_def migration_0001_def migration_0002_def migration_0003_def)

subsection \<open>Backwards\<close>

text \<open>The statements after \<open>CREATE TABLE\<close> only concern the new table; dropping it undoes them all.\<close>

fun local_to :: "string \<Rightarrow> ddl \<Rightarrow> bool" where
  "local_to n (CreateIndex i) \<longleftrightarrow> ix_table i = n"
| "local_to n (AddExclusion m x) \<longleftrightarrow> m = n"
| "local_to n _ \<longleftrightarrow> False"

fun table_block :: "ddl list \<Rightarrow> bool" where
  "table_block (CreateTable t # sts) \<longleftrightarrow> (\<forall>st \<in> set sts. local_to (tb_name t) st)"
| "table_block _ \<longleftrightarrow> False"

fun block_name :: "ddl list \<Rightarrow> string" where
  "block_name (CreateTable t # sts) = tb_name t"
| "block_name _ = ''''"

definition grown :: "string \<Rightarrow> schema \<Rightarrow> schema \<Rightarrow> bool" where
  "grown n s s' \<longleftrightarrow> n \<notin> tb_name ` set (sc_tables s)
     \<and> (\<exists>t is. tb_name t = n \<and> (\<forall>i \<in> set is. ix_table i = n)
          \<and> s' = s\<lparr>sc_tables := sc_tables s @ [t], sc_indexes := sc_indexes s @ is\<rparr>)"

lemma grown_local: assumes "grown n s s'" "local_to n st" "exec_ddl st s' = Inr s''" shows "grown n s s''"
proof -
  obtain t "is" where n: "n \<notin> tb_name ` set (sc_tables s)" "tb_name t = n" "\<forall>i \<in> set is. ix_table i = n"
    and s': "s' = s\<lparr>sc_tables := sc_tables s @ [t], sc_indexes := sc_indexes s @ is\<rparr>"
    using assms(1) unfolding grown_def by blast
  show ?thesis
  proof (cases st)
    case (CreateIndex i)
    then have "s'' = s\<lparr>sc_tables := sc_tables s @ [t], sc_indexes := sc_indexes s @ is @ [i]\<rparr>"
      using assms(3) s' by (auto simp: exec_ddl_def split: option.splits if_splits)
    then show ?thesis using n assms(2) CreateIndex unfolding grown_def by (intro conjI exI [of _ t] exI [of _ "is @ [i]"]) auto
  next
    case (AddExclusion m x)
    then have m: "m = n" using assms(2) by simp
    let ?t = "t\<lparr>tb_exclusions := tb_exclusions t @ [x]\<rparr>"
    have "update_where (\<lambda>t. tb_name t = n) f (sc_tables s) = sc_tables s" for f
      using n(1) by (auto simp: update_where_def intro!: map_idI)
    then have "s'' = s\<lparr>sc_tables := sc_tables s @ [?t], sc_indexes := sc_indexes s @ is\<rparr>"
      using assms(3) s' AddExclusion m n(2) by (auto simp: exec_ddl_def map_table_def update_where_def split: option.splits if_splits)
    then show ?thesis using n unfolding grown_def by (intro conjI exI [of _ ?t] exI [of _ "is"]) auto
  qed (use assms(2) in simp_all)
qed

lemma grown_all: "grown n s s' \<Longrightarrow> \<forall>st \<in> set sts. local_to n st \<Longrightarrow> exec_all sts s' = Inr s'' \<Longrightarrow> grown n s s''"
  by (induction sts arbitrary: s') (auto split: sum.splits dest: grown_local)

lemma drop_grown:
  assumes "schema_wf s" "grown n s s'" shows "exec_ddl (DropTable n) s' = Inr s"
proof -
  obtain t "is" where n: "n \<notin> tb_name ` set (sc_tables s)" "tb_name t = n" "\<forall>i \<in> set is. ix_table i = n"
    and s': "s' = s\<lparr>sc_tables := sc_tables s @ [t], sc_indexes := sc_indexes s @ is\<rparr>"
    using assms(2) unfolding grown_def by blast
  have absent: "find_table n s = None" using n(1) by (simp add: find_table_None_iff)
  then have "\<not> refers_to n q" if "q \<in> set (sc_tables s)" for q
    using assms(1) that by (fastforce simp: schema_wf_def refers_to_def reference_defined_def)
  moreover have "ix_table i \<noteq> n" if "i \<in> set (sc_indexes s)" for i
    using assms(1) that absent by (fastforce simp: schema_wf_def)
  moreover have "tb_name q \<noteq> n" if "q \<in> set (sc_tables s)" for q using n(1) that by auto
  ultimately show ?thesis using n(2,3)
    by (auto simp: exec_ddl_def s' find_table_def find_append filter_empty_conv cong: filter_cong split: option.split)
qed

lemma block_undone:
  assumes "schema_wf s" "table_block sts" "exec_all sts s = Inr s'"
  shows "exec_ddl (DropTable (block_name sts)) s' = Inr s"
proof -
  obtain t rest where r: "sts = CreateTable t # rest" "\<forall>st \<in> set rest. local_to (tb_name t) st"
    using assms(2) by (cases sts rule: table_block.cases) auto
  from assms(3) r obtain s1 where s1: "exec_ddl (CreateTable t) s = Inr s1" "exec_all rest s1 = Inr s'"
    by (auto split: sum.splits)
  have "grown (tb_name t) s s1" using s1(1)
    by (auto simp: grown_def exec_ddl_def find_table_None_iff split: if_splits intro!: exI [of _ t] exI [of _ "[]"])
  from drop_grown [OF assms(1) grown_all [OF this r(2) s1(2)]] show ?thesis by (simp add: r(1))
qed

lemma exec_all_append_InrE:
  assumes "exec_all (xs @ ys) s = Inr s'"
  obtains s1 where "exec_all xs s = Inr s1" "exec_all ys s1 = Inr s'"
  using assms by (auto simp: exec_all_append split: sum.splits)

lemma blocks:
  "table_block create_users" "table_block create_hosts" "table_block create_reservations"
  "table_block create_sessions" "table_block create_tokens" "table_block create_audit_logs"
  "block_name create_users = ''users''" "block_name create_hosts = ''hosts''"
  "block_name create_reservations = ''reservations''" "block_name create_sessions = ''sessions''"
  "block_name create_tokens = ''tokens''" "block_name create_audit_logs = ''audit_logs''"
  by (simp_all add: create_users_def create_hosts_def create_reservations_def create_sessions_def
      create_tokens_def create_audit_logs_def plain_index_def partial_index_def sa_table_def users_table_def
      hosts_table_def reservations_table_def sessions_table_def tokens_table_def audit_logs_table_def)

lemmas block_drops =
  block_undone [OF _ blocks(1), unfolded blocks(7)]
  block_undone [OF _ blocks(2), unfolded blocks(8)]
  block_undone [OF _ blocks(3), unfolded blocks(9)]
  block_undone [OF _ blocks(4), unfolded blocks(10)]
  block_undone [OF _ blocks(5), unfolded blocks(11)]
  block_undone [OF _ blocks(6), unfolded blocks(12)]

definition with_extension :: "string \<Rightarrow> schema \<Rightarrow> schema" where
  "with_extension e s = (if e \<in> set (sc_extensions s) then s else s\<lparr>sc_extensions := sc_extensions s @ [e]\<rparr>)"

lemma schema_wf_with_extension: "schema_wf s \<Longrightarrow> schema_wf (with_extension e s)"
  by (rule schema_wf_exec [of s "CreateExtension e"]) (simp_all add: exec_ddl_def with_extension_def)

lemma downgrade_undoes_0001:
  assumes wf: "schema_wf s" and new: "''btree_gist'' \<notin> set (sc_extensions s)" and up: "upgrade_0001 s = Inr s'"
  shows "downgrade_0001 s' = Inr (with_extension ''pgcrypto'' s)"
proof -
  let ?s = "with_extension ''pgcrypto'' (with_extension ''btree_gist'' s)"
  have wf0: "schema_wf ?s" by (intro schema_wf_with_extension wf)
  have "exec_all (create_users @ create_hosts @ create_reservations @ create_sessions @ create_tokens @ create_audit_logs) ?s
      = Inr s'"
    using up by (simp add: upgrade_0001_def exec_ddl_def with_extension_def)
  then obtain a b c d e where st: "exec_all create_users ?s = Inr a" "exec_all create_hosts a = Inr b"
    "exec_all create_reservations b = Inr c" "exec_all create_sessions c = Inr d" "exec_all create_tokens d = Inr e"
    "exec_all create_audit_logs e = Inr s'"
    by (elim exec_all_append_InrE) (rule that)
  note w = schema_wf_exec_all [OF wf0 st(1)]
  note w = w schema_wf_exec_all [OF w st(2)]
  note w = w schema_wf_exec_all [OF w(2) st(3)]
  note w = w schema_wf_exec_all [OF w(3) st(4)]
  note w = w schema_wf_exec_all [OF w(4) st(5)]
  note drops = block_drops(1) [OF wf0 st(1)] block_drops(2) [OF w(1) st(2)] block_drops(3) [OF w(2) st(3)]
    block_drops(4) [OF w(3) st(4)] block_drops(5) [OF w(4) st(5)] block_drops(6) [OF w(5) st(6)]
  have "\<not> extension_needed ''btree_gist'' ?s"
    using wf new by (auto simp: schema_wf_def extension_needed_def with_extension_def)
  then have "exec_ddl (DropExtension ''btree_gist'') ?s = Inr (with_extension ''pgcrypto'' s)"
    using new by (auto simp: exec_ddl_def with_extension_def)
  with drops show ?thesis by (simp add: downgrade_0001_def)
qed

lemma unreferenced_column:
  assumes wf: "schema_wf s" and t: "find_table n s = Some t" "k \<notin> set (column_names t)" and q: "q \<in> set (sc_tables s)"
  shows "\<not> refers_to_column n k q"
proof
  assume "refers_to_column n k q"
  then obtain c f where c: "c \<in> set (tb_columns q)" "col_reference c = Some f" "fk_table f = n" "fk_column f = k"
    by (auto simp: refers_to_column_def)
  have "reference_defined s c" using wf q c(1) by (auto simp: schema_wf_def)
  with c t show False by (auto simp: reference_defined_def column_names_def) force+
qed

lemma drop_added_column:
  assumes wf: "schema_wf s" and plain: "col_reference c = None" and add: "exec_ddl (AddColumn n c) s = Inr s'"
  shows "exec_ddl (DropColumn n (col_name c)) s' = Inr s"
proof -
  let ?f = "\<lambda>t. t\<lparr>tb_columns := tb_columns t @ [c]\<rparr>"
  obtain t where t: "find_table n s = Some t" "col_name c \<notin> set (column_names t)" and s': "s' = map_table n ?f s"
    using add by (auto simp: exec_ddl_def split: option.splits if_splits)
  have free: "\<not> refers_to_column n (col_name c) q" if "q \<in> set (sc_tables s')" for q
    using that unreferenced_column [OF wf t] plain by (auto simp: s' set_map_table refers_to_column_def)
  have u: "distinct (map tb_name (sc_tables s))" using wf by (simp add: schema_wf_def)
  have ok: "table_ok t" using wf find_table_SomeD [OF t(1)] by (auto simp: schema_wf_def)
  have "filter (\<lambda>u. col_name c \<notin> set (snd u)) (tb_uniques t) = tb_uniques t"
    using ok t(2) unfolding table_ok_def filter_id_conv by blast
  moreover have "filter (\<lambda>x. col_name c \<notin> fst ` set (ex_elements x)) (tb_exclusions t) = tb_exclusions t"
    using ok t(2) unfolding table_ok_def filter_id_conv by blast
  moreover have "filter (\<lambda>k. col_name k \<noteq> col_name c) (tb_columns t) = tb_columns t"
    using t(2) unfolding filter_id_conv column_names_def by (metis image_eqI list.set_map)
  ultimately have "tb_uniques (without_column (col_name c) (?f t)) = tb_uniques t"
    "tb_exclusions (without_column (col_name c) (?f t)) = tb_exclusions t"
    "tb_columns (without_column (col_name c) (?f t)) = tb_columns t"
    "tb_name (without_column (col_name c) (?f t)) = tb_name t"
    by (simp_all add: without_column_def)
  then have restored: "without_column (col_name c) (?f t) = t" by simp
  have "map_table n (without_column (col_name c)) (map_table n ?f s) = s"
  proof -
    have "without_column (col_name c) (?f q) = q" if "q \<in> set (sc_tables s)" "tb_name q = n" for q
      using that restored find_table_unique [OF u, of n q] t(1) by auto
    then have "update_where (\<lambda>t. tb_name t = n) (without_column (col_name c))
        (update_where (\<lambda>t. tb_name t = n) ?f (sc_tables s)) = sc_tables s"
      unfolding update_where_def by (auto simp: o_def intro!: map_idI)
    then show ?thesis by (simp add: map_table_def)
  qed
  moreover have "filter (\<lambda>i. \<not> (ix_table i = n \<and> col_name c \<in> set (ix_columns i))) (sc_indexes s) = sc_indexes s"
    using wf t by (fastforce simp: schema_wf_def filter_id_conv)
  moreover have "find_table n s' = Some (?f t)" "col_name c \<in> set (column_names (?f t))"
    using t(1) find_table_SomeD [OF t(1)] by (simp_all add: s' find_table_map_table column_names_def)
  ultimately show ?thesis using free by (simp add: exec_ddl_def s')
qed

lemma downgrade_undoes_0003: "schema_wf s \<Longrightarrow> upgrade_0003 s = Inr s' \<Longrightarrow> downgrade_0003 s' = Inr s"
  using drop_added_column [of s "sa_column ''sunshine_broker_token'' (Varchar 128) True" "''hosts''" s']
  by (simp add: upgrade_0003_def downgrade_0003_def sa_column_def split: sum.splits)

lemma refusing_step: "downgrade_0002 \<in> set steps \<Longrightarrow> \<exists>e. run_steps steps s = Inl e"
  by (induction steps arbitrary: s) (auto simp: downgrade_0002_def split: sum.split)

lemma run_env_refused:
  "downgrade_0002 \<in> set steps \<Longrightarrow> \<not> is_ok (fst (run_env offline steps s)) \<and> snd (run_env offline steps s) = s"
  using refusing_step [of steps s] by (auto simp: run_env_def do_run_migrations_def)

text \<open>Whatever revisions run, in whatever order, a consistent schema stays consistent.\<close>

lemma schema_wf_run_env:
  assumes "set steps \<subseteq> mg_upgrade ` set versions \<union> mg_downgrade ` set versions" "schema_wf s"
  shows "schema_wf (snd (run_env offline steps s))"
proof -
  have step: "schema_wf s'" if "f \<in> mg_upgrade ` set versions \<union> mg_downgrade ` set versions" "f s = Inr s'" "schema_wf s"
    for f s s'
    using that by (auto simp: versions_def migration_0001_def migration_0002_def migration_0003_def upgrade_0001_def
        downgrade_0001_def upgrade_0002_def downgrade_0002_def upgrade_0003_def downgrade_0003_def
        simp del: exec_all.simps dest: schema_wf_exec_all)
  have "run_steps steps s = Inr s' \<Longrightarrow> schema_wf s'" for s'
    using assms
  proof (induction steps arbitrary: s)
    case (Cons f fs)
    then obtain s1 where s1: "f s = Inr s1" "run_steps fs s1 = Inr s'" by (auto split: sum.splits)
    have "schema_wf s1" by (rule step [of f]) (use Cons.prems s1(1) in simp_all)
    with Cons s1(2) show ?case by simp
  qed simp
  then show ?thesis using assms(2) by (auto simp: run_env_def do_run_migrations_def split: sum.split)
qed

text \<open>C28: The revisions can be taken back as far as they promise: on a consistent schema the downgrade of
  0001 restores what its upgrade found, but for the extension pgcrypto that it keeps on purpose, and the
  downgrade of 0003 undoes its upgrade exactly; any run that would go back beyond 0002 is refused and,
  because all steps share one transaction, leaves the schema as it was.\<close>
theorem revisions_reversible:
  assumes "schema_wf s"
  shows "(\<forall>s'. ''btree_gist'' \<notin> set (sc_extensions s) \<longrightarrow> upgrade_0001 s = Inr s' \<longrightarrow>
        downgrade_0001 s' = Inr (with_extension ''pgcrypto'' s))
    \<and> (\<forall>s'. upgrade_0003 s = Inr s' \<longrightarrow> downgrade_0003 s' = Inr s)
    \<and> (\<forall>steps. downgrade_0002 \<in> set steps \<longrightarrow>
        \<not> is_ok (fst (run_env offline steps s)) \<and> snd (run_env offline steps s) = s)"
  using downgrade_undoes_0001 downgrade_undoes_0003 run_env_refused assms by blast

lemma head_reached: "fst (run_env False upgrade_steps empty_schema) = Inr ()"
  "is_ok (upgrade_0001 empty_schema)" "is_ok (run_steps [upgrade_0001, upgrade_0002] empty_schema)"
  by code_simp+

theorem revisions_reversible_witness:
  "\<exists>s1 s2 s3. upgrade_0001 empty_schema = Inr s1 \<and> downgrade_0001 s1 = Inr (with_extension ''pgcrypto'' empty_schema)
    \<and> upgrade_0002 s1 = Inr s2 \<and> upgrade_0003 s2 = Inr s3 \<and> downgrade_0003 s3 = Inr s2
    \<and> snd (run_env False downgrade_steps s3) = s3"
proof -
  obtain s1 s2 s3 where s: "upgrade_0001 empty_schema = Inr s1" "upgrade_0002 s1 = Inr s2" "upgrade_0003 s2 = Inr s3"
    using head_reached(1) by (auto simp: run_env_def do_run_migrations_def upgrade_steps_def versions_def
        migration_0001_def migration_0002_def migration_0003_def split: sum.splits)
  have w1: "schema_wf s1" using s(1) schema_wf_exec_all [OF schema_wf_empty] unfolding upgrade_0001_def by blast
  have w2: "schema_wf s2" using s(2) schema_wf_exec_all [OF w1] unfolding upgrade_0002_def by blast
  have w3: "schema_wf s3" using s(3) schema_wf_exec_all [OF w2] unfolding upgrade_0003_def by blast
  have "''btree_gist'' \<notin> set (sc_extensions empty_schema)" by (simp add: empty_schema_def)
  moreover have "downgrade_0002 \<in> set downgrade_steps" by (simp add: downgrade_steps_def versions_def migration_0002_def)
  ultimately show ?thesis
    using s revisions_reversible [OF schema_wf_empty] revisions_reversible [OF w2] revisions_reversible [OF w3, of False]
    by blast
qed

end
