(* ===== verification/Orm_Models.thy ===== *)
theory Orm_Models
  imports Migrations
begin

text \<open>
  The declarative models of \<open>domain/*.py\<close> as SQLAlchemy collects them in \<open>Base.metadata\<close>, which
  \<open>alembic/env.py\<close> hands to Alembic as the schema the migrations should have built, with types and
  server defaults compared.  \<open>drift\<close> lists where the two disagree.  Defaults of the Python side
  (\<open>default=...\<close>) are no part of the schema.
\<close>

subsection \<open>Models\<close>

text \<open>\<open>mapped_column\<close> is the same record as \<open>sa.Column\<close>.  The key of \<open>IdMixin\<close> has no type of its own:
  SQLAlchemy derives \<open>Integer\<close> from \<open>Mapped[int]\<close>.\<close>

definition id_mixin :: "column list" where
  "id_mixin = [(sa_column ''id'' Integer False)\<lparr>col_primary := True\<rparr>, sa_public_id]"

definition timestamp_mixin :: "column list" where
  "timestamp_mixin = [sa_now ''created_at'', sa_now ''updated_at'']"

definition orm_json :: "string \<Rightarrow> column" where
  "orm_json n = with_default (DLiteral ''{}'') (sa_column n JSONB False)"

record orm_model =
  om_table :: table
  om_indexes :: "index list"

definition orm_index :: "string \<Rightarrow> string \<Rightarrow> string list \<Rightarrow> row_predicate option \<Rightarrow> index" where
  "orm_index n t ks p = \<lparr>ix_name = n, ix_table = t, ix_columns = ks, ix_where = p, ix_gist = False\<rparr>"

definition User_model :: orm_model where
  "User_model = \<lparr>
     om_table = sa_table ''users'' (id_mixin @ timestamp_mixin @
       [sa_column ''external_id'' (Varchar 128) False, sa_column ''provider'' (Varchar 32) False,
        sa_column ''display_name'' (Varchar 128) False, sa_column ''email'' (Varchar 255) True,
        sa_column ''role'' (Varchar 16) False, sa_column ''is_active'' Boolean False])
       [(''uq_users_provider_external'', [''provider'', ''external_id''])],
     om_indexes = [orm_index ''ix_users_role_admin'' ''users'' [''role''] (Some (ColumnIn ''role'' [''admin'']))]\<rparr>"

definition Host_model :: orm_model where
  "Host_model = \<lparr>
     om_table = sa_table ''hosts'' (id_mixin @ timestamp_mixin @
       [(sa_column ''hostname'' (Varchar 64) False)\<lparr>col_unique := True\<rparr>,
        sa_column ''display_name'' (Varchar 128) False, sa_column ''location'' (Varchar 128) True,
        sa_column ''ip_address'' INET True, sa_column ''sunshine_port'' Integer False,
        sa_column ''sunshine_broker_token'' (Varchar 128) True, sa_column ''gpu_model'' (Varchar 128) True,
        sa_column ''status'' (Varchar 16) False, sa_column ''last_heartbeat_at'' DateTimeTz True,
        orm_json ''metadata'']) [],
     om_indexes = [orm_index ''ix_hosts_status'' ''hosts'' [''status''] None,
       orm_index ''ix_hosts_last_heartbeat'' ''hosts'' [''last_heartbeat_at''] None]\<rparr>"

definition Reservation_model :: orm_model where
  "Reservation_model = \<lparr>
     om_table = sa_table ''reservations'' (id_mixin @ timestamp_mixin @
       [with_reference ''users'' Restrict (sa_column ''user_id'' BigInteger False),
        with_reference ''hosts'' Restrict (sa_column ''host_id'' BigInteger False),
        sa_column ''time_range'' TSTZRANGE False, sa_column ''status'' (Varchar 16) False,
        sa_column ''canceled_at'' DateTimeTz True]) [],
     om_indexes = [orm_index ''ix_reservations_user_time'' ''reservations'' [''user_id'', ''time_range''] None,
       (orm_index ''ix_reservations_time_range_gist'' ''reservations'' [''time_range''] None)\<lparr>ix_gist := True\<rparr>]\<rparr>"

definition Session_model :: orm_model where
  "Session_model = \<lparr>
     om_table = sa_table ''sessions'' (id_mixin @ timestamp_mixin @
       [with_reference ''reservations'' Restrict (sa_column ''reservation_id'' BigInteger False),
        with_reference ''users'' NoAction (sa_column ''user_id'' BigInteger False),
        with_reference ''hosts'' NoAction (sa_column ''host_id'' BigInteger False),
        sa_column ''state'' (Varchar 16) False, sa_column ''started_at'' DateTimeTz True,
        sa_column ''ended_at'' DateTimeTz True, sa_column ''end_reason'' (Varchar 32) True,
        orm_json ''client_info'']) [],
     om_indexes = [orm_index ''ix_sessions_reservation'' ''sessions'' [''reservation_id''] None,
       orm_index ''ix_sessions_active'' ''sessions'' [''state'']
         (Some (ColumnIn ''state'' [''PENDING'', ''PAIRING'', ''ACTIVE''])),
       orm_index ''ix_sessions_host_state'' ''sessions'' [''host_id'', ''state''] None]\<rparr>"

definition Token_model :: orm_model where
  "Token_model = \<lparr>
     om_table = sa_table ''tokens'' (id_mixin @ timestamp_mixin @
       [(sa_column ''jti'' (Varchar 64) False)\<lparr>col_unique := True\<rparr>,
        with_reference ''users'' NoAction (sa_column ''user_id'' BigInteger False),
        with_reference ''hosts'' NoAction (sa_column ''host_id'' BigInteger False),
        with_reference ''reservations'' NoAction (sa_column ''reservation_id'' BigInteger True),
        sa_column ''purpose'' (Varchar 32) False, sa_now ''issued_at'',
        sa_column ''expires_at'' DateTimeTz False, sa_column ''consumed_at'' DateTimeTz True,
        sa_column ''revoked_at'' DateTimeTz True]) [],
     om_indexes = [orm_index ''ix_tokens_user_expires'' ''tokens'' [''user_id'', ''expires_at''] None,
       orm_index ''ix_tokens_active_expires'' ''tokens'' [''expires_at'']
         (Some (ColumnsNull [''consumed_at'', ''revoked_at'']))]\<rparr>"

definition AuditLog_model :: orm_model where
  "AuditLog_model = \<lparr>
     om_table = sa_table ''audit_logs''
       [sa_id, sa_now ''occurred_at'', with_reference ''users'' SetNull (sa_column ''actor_user_id'' BigInteger True),
        sa_column ''actor_kind'' (Varchar 16) False, sa_column ''action'' (Varchar 64) False,
        sa_column ''target_kind'' (Varchar 32) True, sa_column ''target_id'' BigInteger True,
        sa_column ''request_id'' (Varchar 64) True, sa_column ''auth_provider'' (Varchar 32) True,
        sa_column ''ip_address'' INET True, sa_column ''result'' (Varchar 16) False, orm_json ''detail''] [],
     om_indexes = [orm_index ''ix_audit_logs_occurred_at'' ''audit_logs'' [''occurred_at''] None,
       orm_index ''ix_audit_logs_actor_occurred'' ''audit_logs'' [''actor_user_id'', ''occurred_at''] None,
       orm_index ''ix_audit_logs_target_occurred'' ''audit_logs'' [''target_kind'', ''target_id'', ''occurred_at''] None,
       orm_index ''ix_audit_logs_action_occurred'' ''audit_logs'' [''action'', ''occurred_at''] None]\<rparr>"

definition target_metadata :: "orm_model list" where
  "target_metadata = [User_model, Host_model, Reservation_model, Session_model, Token_model, AuditLog_model]"

subsection \<open>Comparison\<close>

datatype drift =
  MissingTable string
| MissingColumn string string
| MissingInDatabase string string
| TypeDiffers string string sql_type sql_type
| NullableDiffers string string bool bool
| DefaultDiffers string string
| KeyDiffers string string
| ConstraintsDiffer string
| OnlyInDatabase string string
| IndexesDiffer string

definition find_column :: "string \<Rightarrow> table \<Rightarrow> column option" where
  "find_column k t = find (\<lambda>c. col_name c = k) (tb_columns t)"

text \<open>Defaults are compared by their presence; how the server prints them back is its affair.\<close>

definition column_drift :: "string \<Rightarrow> column \<Rightarrow> column \<Rightarrow> drift list" where
  "column_drift t m c =
     (if col_type m = col_type c then [] else [TypeDiffers t (col_name m) (col_type m) (col_type c)])
   @ (if col_nullable m = col_nullable c then [] else [NullableDiffers t (col_name m) (col_nullable m) (col_nullable c)])
   @ (if (col_default m = None) = (col_default c = None) then [] else [DefaultDiffers t (col_name m)])
   @ (if col_primary m = col_primary c \<and> col_unique m = col_unique c \<and> col_reference m = col_reference c
      then [] else [KeyDiffers t (col_name m)])"

definition table_drift :: "table \<Rightarrow> table \<Rightarrow> drift list" where
  "table_drift m t =
     concat (map (\<lambda>c. case find_column (col_name c) t of
         None \<Rightarrow> [MissingInDatabase (tb_name m) (col_name c)]
       | Some d \<Rightarrow> column_drift (tb_name m) c d) (tb_columns m))
   @ concat (map (\<lambda>d. if col_name d \<in> set (column_names m) then [] else [MissingColumn (tb_name m) (col_name d)])
       (tb_columns t))
   @ (if set (tb_uniques m) = set (tb_uniques t) then [] else [ConstraintsDiffer (tb_name m)])
   @ map (\<lambda>x. OnlyInDatabase (tb_name m) (ex_name x)) (filter (\<lambda>x. x \<notin> set (tb_exclusions m)) (tb_exclusions t))"

definition schema_drift :: "orm_model list \<Rightarrow> schema \<Rightarrow> drift list" where
  "schema_drift ms s =
     concat (map (\<lambda>m. case find_table (tb_name (om_table m)) s of
         None \<Rightarrow> [MissingTable (tb_name (om_table m))]
       | Some t \<Rightarrow> table_drift (om_table m) t
           @ (if set (om_indexes m) = set (filter (\<lambda>i. ix_table i = tb_name t) (sc_indexes s))
              then [] else [IndexesDiffer (tb_name t)])) ms)
   @ map (\<lambda>t. OnlyInDatabase (tb_name t) '''')
       (filter (\<lambda>t. tb_name t \<notin> (tb_name \<circ> om_table) ` set ms) (sc_tables s))"


end
