(* ===== verification/Conformance.thy ===== *)
theory Conformance
  imports Migrations System_Facts
begin

text \<open>
  The tables of the model against the schema of the migrations.  The rows of \<open>db\<close> are read as rows of
  SQL values, the constraints of a table are read off its columns as the migrations declare them, and
  \<open>conforms\<close> says that the rows obey them: types and lengths, \<open>NOT NULL\<close>, keys, references and
  the exclusion.  A column that a row does not give is filled by its server default or, a primary key,
  by its sequence.
\<close>

subsection \<open>Rows of SQL values\<close>

datatype sql_value =
  VNull | VInt int | VStr string | VBool bool | VTime instant | VRange time_range | VJson json

type_synonym sql_row = "(string \<times> sql_value) list"

definition nullable :: "('a \<Rightarrow> sql_value) \<Rightarrow> 'a option \<Rightarrow> sql_value" where
  "nullable f x = (case x of None \<Rightarrow> VNull | Some a \<Rightarrow> f a)"

lemma nullable_simps [simp]: "nullable f None = VNull" "nullable f (Some a) = f a"
  by (simp_all add: nullable_def)

definition status_name :: "reservation_status \<Rightarrow> string" where
  "status_name s = (case s of CONFIRMED \<Rightarrow> ''CONFIRMED'' | CANCELED \<Rightarrow> ''CANCELED'' | COMPLETED \<Rightarrow> ''COMPLETED'')"

definition purpose_name :: "token_purpose \<Rightarrow> string" where
  "purpose_name p = (case p of Connect \<Rightarrow> ''connect'' | Agent \<Rightarrow> ''agent'' | Session \<Rightarrow> ''session'')"

definition user_row :: "user \<Rightarrow> sql_row" where
  "user_row u = [(''id'', VInt (u_id u)), (''external_id'', VStr (u_external_id u)),
     (''provider'', VStr (u_provider u)), (''display_name'', VStr (u_display_name u)),
     (''email'', nullable VStr (u_email u)), (''role'', VStr (u_role u)), (''is_active'', VBool (u_is_active u))]"

definition host_row :: "host \<Rightarrow> sql_row" where
  "host_row h = [(''id'', VInt (h_id h)), (''hostname'', VStr (h_hostname h)),
     (''display_name'', VStr (h_display_name h)), (''location'', nullable VStr (h_location h)),
     (''ip_address'', nullable VStr (h_ip_address h)), (''sunshine_port'', VInt (h_sunshine_port h)),
     (''sunshine_broker_token'', nullable VStr (h_sunshine_broker_token h)),
     (''gpu_model'', nullable VStr (h_gpu_model h)), (''status'', VStr (host_status_name (h_status h))),
     (''last_heartbeat_at'', nullable VTime (h_last_heartbeat_at h)), (''metadata'', VJson (JObj (h_metadata h)))]"

definition reservation_row :: "reservation \<Rightarrow> sql_row" where
  "reservation_row r = [(''id'', VInt (r_id r)), (''user_id'', VInt (r_user_id r)),
     (''host_id'', VInt (r_host_id r)), (''time_range'', VRange (r_time_range r)),
     (''status'', VStr (status_name (r_status r))), (''canceled_at'', nullable VTime (r_canceled_at r)),
     (''created_at'', VTime (r_created_at r))]"

definition token_row :: "token \<Rightarrow> sql_row" where
  "token_row t = [(''id'', VInt (t_id t)), (''jti'', VStr (t_jti t)), (''user_id'', VInt (t_user_id t)),
     (''host_id'', nullable VInt (t_host_id t)), (''reservation_id'', nullable VInt (t_reservation_id t)),
     (''purpose'', VStr (purpose_name (t_purpose t))), (''issued_at'', VTime (t_issued_at t)),
     (''expires_at'', VTime (t_expires_at t)), (''consumed_at'', nullable VTime (t_consumed_at t)),
     (''revoked_at'', nullable VTime (t_revoked_at t))]"

definition actor_kind_name :: "actor_kind \<Rightarrow> string" where
  "actor_kind_name k = (case k of ActorUser \<Rightarrow> ''user'' | ActorSystem \<Rightarrow> ''system'' | ActorAgent \<Rightarrow> ''agent'')"

definition audit_result_name :: "audit_result \<Rightarrow> string" where
  "audit_result_name r = (case r of AuditSuccess \<Rightarrow> ''success'' | AuditFailure \<Rightarrow> ''failure'' | AuditDenied \<Rightarrow> ''denied'')"

definition audit_row :: "audit_log \<Rightarrow> sql_row" where
  "audit_row a = [(''actor_user_id'', nullable VInt (a_actor_user_id a)),
     (''actor_kind'', VStr (actor_kind_name (a_actor_kind a))), (''action'', VStr (a_action a)),
     (''target_kind'', nullable VStr (a_target_kind a)), (''target_id'', nullable VInt (a_target_id a)),
     (''auth_provider'', nullable VStr (a_auth_provider a)), (''ip_address'', nullable VStr (a_ip_address a)),
     (''result'', VStr (audit_result_name (a_result a))), (''detail'', VJson (JObj (a_detail a)))]"

definition contents :: "db \<Rightarrow> string \<Rightarrow> sql_row list" where
  "contents d n =
     (if n = ''users'' then map user_row (db_users d)
      else if n = ''hosts'' then map host_row (db_hosts d)
      else if n = ''reservations'' then map reservation_row (db_reservations d)
      else if n = ''tokens'' then map token_row (db_tokens d)
      else if n = ''audit_logs'' then map audit_row (db_audits d)
      else [])"

subsection \<open>Constraints\<close>

datatype row_constraint =
  IsTyped string sql_type
| IsGiven string bool
| IsUnique "string list"
| RefersTo string string string
| Excludes exclusion

definition column_constraints :: "column \<Rightarrow> row_constraint list" where
  "column_constraints c =
     IsTyped (col_name c) (col_type c)
     # (if col_nullable c then [] else [IsGiven (col_name c) (col_default c \<noteq> None \<or> col_primary c)])
     @ (if col_primary c \<or> col_unique c then [IsUnique [col_name c]] else [])
     @ (case col_reference c of None \<Rightarrow> [] | Some f \<Rightarrow> [RefersTo (col_name c) (fk_table f) (fk_column f)])"

definition table_constraints :: "table \<Rightarrow> row_constraint list" where
  "table_constraints t =
     concat (map column_constraints (tb_columns t)) @ map (\<lambda>u. IsUnique (snd u)) (tb_uniques t)
     @ map Excludes (tb_exclusions t)"

fun has_type :: "sql_value \<Rightarrow> sql_type \<Rightarrow> bool" where
  "has_type VNull ty \<longleftrightarrow> True"
| "has_type (VInt i) BigInteger \<longleftrightarrow> in_bits 64 i"
| "has_type (VInt i) Integer \<longleftrightarrow> in_bits 32 i"
| "has_type (VStr s) (Varchar n) \<longleftrightarrow> length s \<le> n"
| "has_type (VStr s) INET \<longleftrightarrow> True"
| "has_type (VBool b) Boolean \<longleftrightarrow> True"
| "has_type (VTime t) DateTimeTz \<longleftrightarrow> True"
| "has_type (VRange r) TSTZRANGE \<longleftrightarrow> range_ok r"
| "has_type (VJson j) JSONB \<longleftrightarrow> True"
| "has_type v ty \<longleftrightarrow> False"

text \<open>Values of a key; a row with a null in it, or one that leaves the value to the server, is equal to none.\<close>

definition row_key :: "string list \<Rightarrow> sql_row \<Rightarrow> sql_value list option" where
  "row_key ks row =
     (let vs = map (map_of row) ks in if None \<in> set vs \<or> Some VNull \<in> set vs then None else Some (map the vs))"

fun predicate_holds :: "row_predicate \<Rightarrow> sql_row \<Rightarrow> bool" where
  "predicate_holds (ColumnIn k vs) row \<longleftrightarrow> map_of row k \<in> (Some \<circ> VStr) ` set vs"
| "predicate_holds (ColumnsNull ks) row \<longleftrightarrow> (\<forall>k \<in> set ks. map_of row k = Some VNull)"

fun op_holds :: "exclude_op \<Rightarrow> sql_value option \<Rightarrow> sql_value option \<Rightarrow> bool" where
  "op_holds OpEqual (Some v) (Some v') \<longleftrightarrow> v \<noteq> VNull \<and> v = v'"
| "op_holds OpOverlap (Some (VRange a)) (Some (VRange b)) \<longleftrightarrow> range_overlaps a b"
| "op_holds _ _ _ \<longleftrightarrow> False"

definition excluded_pair :: "exclusion \<Rightarrow> sql_row \<Rightarrow> sql_row \<Rightarrow> bool" where
  "excluded_pair x r q \<longleftrightarrow> predicate_holds (ex_where x) r \<and> predicate_holds (ex_where x) q
     \<and> (\<forall>(k, f) \<in> set (ex_elements x). op_holds f (map_of r k) (map_of q k))"

fun holds :: "(string \<Rightarrow> sql_row list) \<Rightarrow> string \<Rightarrow> row_constraint \<Rightarrow> bool" where
  "holds C n (IsTyped k ty) \<longleftrightarrow>
     (\<forall>row \<in> set (C n). case map_of row k of None \<Rightarrow> True | Some v \<Rightarrow> has_type v ty)"
| "holds C n (IsGiven k dflt) \<longleftrightarrow>
     (\<forall>row \<in> set (C n). case map_of row k of None \<Rightarrow> dflt | Some v \<Rightarrow> v \<noteq> VNull)"
| "holds C n (IsUnique ks) \<longleftrightarrow> distinct (List.map_filter (row_key ks) (C n))"
| "holds C n (RefersTo k t k') \<longleftrightarrow>
     (\<forall>row \<in> set (C n). case map_of row k of None \<Rightarrow> True
        | Some v \<Rightarrow> v = VNull \<or> (\<exists>row' \<in> set (C t). map_of row' k' = Some v))"
| "holds C n (Excludes x) \<longleftrightarrow> sorted_wrt (\<lambda>r q. \<not> excluded_pair x r q) (C n)"

definition conforms :: "schema \<Rightarrow> (string \<Rightarrow> sql_row list) \<Rightarrow> string \<Rightarrow> bool" where
  "conforms s C n \<longleftrightarrow>
     (case find_table n s of
        None \<Rightarrow> C n = []
      | Some t \<Rightarrow> (\<forall>row \<in> set (C n). fst ` set row \<subseteq> set (column_names t))
          \<and> (\<forall>c \<in> set (table_constraints t). holds C n c))"

subsection \<open>The tables of the migrated database\<close>

lemma head_tables:
  "sc_tables head_schema =
     [users_table,
      hosts_table\<lparr>tb_columns := tb_columns hosts_table @ [sa_column ''sunshine_broker_token'' (Varchar 128) True]\<rparr>,
      reservations_table\<lparr>tb_exclusions := [no_overlap_constraint]\<rparr>,
      sessions_table,
      tokens_table\<lparr>tb_columns := map (\<lambda>c. if col_name c = ''host_id'' then c\<lparr>col_nullable := True\<rparr> else c)
        (tb_columns tokens_table)\<rparr>,
      audit_logs_table]"
  by code_simp

lemma find_table_head:
  "find_table ''users'' head_schema = Some users_table"
  "find_table ''hosts'' head_schema = Some (hosts_table\<lparr>tb_columns := tb_columns hosts_table
     @ [sa_column ''sunshine_broker_token'' (Varchar 128) True]\<rparr>)"
  "find_table ''reservations'' head_schema = Some (reservations_table\<lparr>tb_exclusions := [no_overlap_constraint]\<rparr>)"
  "find_table ''sessions'' head_schema = Some sessions_table"
  "find_table ''tokens'' head_schema = Some (tokens_table\<lparr>tb_columns :=
     map (\<lambda>c. if col_name c = ''host_id'' then c\<lparr>col_nullable := True\<rparr> else c) (tb_columns tokens_table)\<rparr>)"
  "find_table ''audit_logs'' head_schema = Some audit_logs_table"
  by (simp_all add: find_table_def head_tables users_table_def hosts_table_def reservations_table_def
      sessions_table_def tokens_table_def audit_logs_table_def sa_table_def)

lemmas table_defs = users_table_def hosts_table_def reservations_table_def sessions_table_def tokens_table_def
  audit_logs_table_def sa_table_def sa_column_def sa_id_def sa_public_id_def sa_now_def sa_json_def with_default_def with_reference_def

text \<open>The unique constraints over rows that all give the key.\<close>


lemma unique_given:
  assumes "\<And>x. row_key ks (f x) = Some (g x)" and "\<And>x y. g x = g y \<longleftrightarrow> key x = key y"
  shows "distinct (List.map_filter (row_key ks) (map f xs)) \<longleftrightarrow> distinct (map key xs)"
proof -
  have "List.map_filter (row_key ks) (map f xs) = map g xs"
    by (induction xs) (simp_all add: assms(1) List.map_filter_simps)
  then show ?thesis by (auto simp: distinct_map inj_on_def assms(2))
qed

lemma unique_server_side:
  assumes "\<And>x. row_key ks (f x) = None"
  shows "distinct (List.map_filter (row_key ks) (map f xs))"
proof -
  have "List.map_filter (row_key ks) (map f xs) = []"
    by (induction xs) (simp_all add: assms List.map_filter_simps)
  then show ?thesis by simp
qed

lemma has_type_nullable [simp]: "has_type (nullable f x) ty \<longleftrightarrow> (\<forall>a \<in> set_option x. has_type (f a) ty)"
  by (cases x) simp_all

lemma nullable_null [simp]: "nullable VStr x = VNull \<longleftrightarrow> x = None" "nullable VInt y = VNull \<longleftrightarrow> y = None"
  "nullable VTime z = VNull \<longleftrightarrow> z = None"
  by (cases x; cases y; cases z; simp)+

lemma contents_simps [simp]:
  "contents d ''users'' = map user_row (db_users d)" "contents d ''hosts'' = map host_row (db_hosts d)"
  "contents d ''reservations'' = map reservation_row (db_reservations d)"
  "contents d ''tokens'' = map token_row (db_tokens d)" "contents d ''sessions'' = []"
  "contents d ''audit_logs'' = map audit_row (db_audits d)"
  by (simp_all add: contents_def)

subsection \<open>What the schema means for the tables of the model\<close>

definition user_text :: "user \<Rightarrow> bool" where
  "user_text u \<longleftrightarrow> length (u_external_id u) \<le> 128 \<and> length (u_provider u) \<le> 32 \<and> length (u_display_name u) \<le> 128
     \<and> (\<forall>e \<in> set_option (u_email u). length e \<le> 255) \<and> length (u_role u) \<le> 16"

definition host_text :: "host \<Rightarrow> bool" where
  "host_text h \<longleftrightarrow> length (h_hostname h) \<le> 64 \<and> length (h_display_name h) \<le> 128
     \<and> (\<forall>l \<in> set_option (h_location h). length l \<le> 128) \<and> in_bits 32 (h_sunshine_port h)
     \<and> (\<forall>s \<in> set_option (h_sunshine_broker_token h). length s \<le> 128)
     \<and> (\<forall>g \<in> set_option (h_gpu_model h). length g \<le> 128)"

definition user_fits :: "user \<Rightarrow> bool" where
  "user_fits u \<longleftrightarrow> in_bits 64 (u_id u) \<and> user_text u"

definition host_fits :: "host \<Rightarrow> bool" where
  "host_fits h \<longleftrightarrow> in_bits 64 (h_id h) \<and> host_text h"

definition token_fits :: "token \<Rightarrow> bool" where
  "token_fits t \<longleftrightarrow> in_bits 64 (t_id t) \<and> length (t_jti t) \<le> 64"

definition audit_text :: "audit_log \<Rightarrow> bool" where
  "audit_text a \<longleftrightarrow> length (a_action a) \<le> 64 \<and> (\<forall>k \<in> set_option (a_target_kind a). length k \<le> 32)
     \<and> (\<forall>p \<in> set_option (a_auth_provider a). length p \<le> 32)"

definition rows_fit :: "db \<Rightarrow> bool" where
  "rows_fit d \<longleftrightarrow> (\<forall>u \<in> set (db_users d). user_fits u) \<and> (\<forall>h \<in> set (db_hosts d). host_fits h)
     \<and> (\<forall>r \<in> set (db_reservations d). in_bits 64 (r_id r)) \<and> (\<forall>t \<in> set (db_tokens d). token_fits t)"

lemma conforms_users: "conforms head_schema (contents d) ''users''
    \<longleftrightarrow> users_wf (db_users d) \<and> (\<forall>u \<in> set (db_users d). user_fits u)"
proof -
  have "distinct (List.map_filter (row_key [''id'']) (map user_row us)) \<longleftrightarrow> distinct (map u_id us)"
    "distinct (List.map_filter (row_key [''provider'', ''external_id'']) (map user_row us))
      \<longleftrightarrow> distinct (map (\<lambda>u. (u_provider u, u_external_id u)) us)"
    "distinct (List.map_filter (row_key [''public_id'']) (map user_row us))" for us
    by (rule unique_given, simp add: row_key_def user_row_def, simp)
      (rule unique_given, simp add: row_key_def user_row_def, simp,
       rule unique_server_side, simp add: row_key_def user_row_def)
  then show ?thesis
    by (simp add: conforms_def find_table_head table_constraints_def column_constraints_def table_defs
        users_wf_def user_fits_def user_text_def column_names_def)
      (auto simp: user_row_def)
qed

lemma name_lengths [simp]:
  "length (host_status_name s) \<le> 16" "length (status_name st) \<le> 16" "length (purpose_name p) \<le> 32"
  by (cases s; cases st; cases p; simp add: host_status_name_def status_name_def purpose_name_def)+

lemma conforms_hosts: "conforms head_schema (contents d) ''hosts''
    \<longleftrightarrow> hosts_wf (db_hosts d) \<and> (\<forall>h \<in> set (db_hosts d). host_fits h)"
proof -
  have "distinct (List.map_filter (row_key [''id'']) (map host_row hs)) \<longleftrightarrow> distinct (map h_id hs)"
    "distinct (List.map_filter (row_key [''hostname'']) (map host_row hs)) \<longleftrightarrow> distinct (map h_hostname hs)"
    "distinct (List.map_filter (row_key [''public_id'']) (map host_row hs))" for hs
    by (rule unique_given, simp add: row_key_def host_row_def, simp)+
      (rule unique_server_side, simp add: row_key_def host_row_def)
  then show ?thesis
    by (simp add: conforms_def find_table_head table_constraints_def column_constraints_def table_defs
        hosts_wf_def host_fits_def host_text_def column_names_def)
      (auto simp: host_row_def)
qed

lemma conforms_sessions: "conforms head_schema (contents d) ''sessions''"
  by (simp add: conforms_def find_table_head table_constraints_def column_constraints_def table_defs
      List.map_filter_simps)

definition references_to :: "int set \<Rightarrow> int \<Rightarrow> bool" where
  "references_to ids i \<longleftrightarrow> in_bits 64 i \<and> i \<in> ids"

lemma referenced: "(\<exists>x \<in> set xs. key x = i) \<longleftrightarrow> i \<in> key ` set xs" by auto

lemma conforms_tokens: "conforms head_schema (contents d) ''tokens''
    \<longleftrightarrow> tokens_wf (db_tokens d) \<and> (\<forall>t \<in> set (db_tokens d). token_fits t
      \<and> references_to (u_id ` set (db_users d)) (t_user_id t)
      \<and> (\<forall>i \<in> set_option (t_host_id t). references_to (h_id ` set (db_hosts d)) i)
      \<and> (\<forall>i \<in> set_option (t_reservation_id t). references_to (r_id ` set (db_reservations d)) i))"
proof -
  have u: "distinct (List.map_filter (row_key [''id'']) (map token_row ts)) \<longleftrightarrow> distinct (map t_id ts)"
    "distinct (List.map_filter (row_key [''jti'']) (map token_row ts)) \<longleftrightarrow> distinct (map t_jti ts)"
    "distinct (List.map_filter (row_key [''public_id'']) (map token_row ts))" for ts
    by (rule unique_given, simp add: row_key_def token_row_def, simp)+
      (rule unique_server_side, simp add: row_key_def token_row_def)
  have ids: "map_of (user_row v) ''id'' = Some (VInt (u_id v))" "map_of (host_row h) ''id'' = Some (VInt (h_id h))"
    "map_of (reservation_row r) ''id'' = Some (VInt (r_id r))" for v h r
    by (simp_all add: user_row_def host_row_def reservation_row_def)
  have n: "x = None \<or> nullable VInt x \<in> (\<lambda>y. VInt (key y)) ` Y \<longleftrightarrow> (\<forall>i \<in> set_option x. i \<in> key ` Y)" for x Y
    and key :: "'y \<Rightarrow> int"
    by (cases x) auto
  show ?thesis
    by (simp add: conforms_def find_table_head table_constraints_def column_constraints_def table_defs
        tokens_wf_def token_fits_def column_names_def u token_row_def ids n referenced references_to_def
        ball_conj_distrib) blast
qed


lemma kind_lengths [simp]: "length (actor_kind_name k) \<le> 16" "length (audit_result_name r) \<le> 16"
  by (cases k; cases r; simp add: actor_kind_name_def audit_result_name_def)+

lemma conforms_audit_logs: "conforms head_schema (contents d) ''audit_logs''
    \<longleftrightarrow> (\<forall>a \<in> set (db_audits d). audit_text a \<and> (\<forall>i \<in> set_option (a_target_id a). in_bits 64 i)
      \<and> (\<forall>i \<in> set_option (a_actor_user_id a). references_to (u_id ` set (db_users d)) i))"
proof -
  have u: "distinct (List.map_filter (row_key [''id'']) (map audit_row as))" for as
    by (rule unique_server_side) (simp add: row_key_def audit_row_def)
  have ids: "map_of (user_row v) ''id'' = Some (VInt (u_id v))" for v by (simp add: user_row_def)
  have n: "x = None \<or> nullable VInt x \<in> (\<lambda>y. VInt (key y)) ` Y \<longleftrightarrow> (\<forall>i \<in> set_option x. i \<in> key ` Y)" for x Y
    and key :: "'y \<Rightarrow> int"
    by (cases x) auto
  show ?thesis
    by (simp add: conforms_def find_table_head table_constraints_def column_constraints_def table_defs
        audit_text_def column_names_def u audit_row_def ids n referenced references_to_def ball_conj_distrib) blast
qed

lemma conforms_reservations:
  assumes "distinct (map r_id (db_reservations d))"
  shows "conforms head_schema (contents d) ''reservations''
    \<longleftrightarrow> reservations_wf (db_reservations d) \<and> (\<forall>r \<in> set (db_reservations d). in_bits 64 (r_id r)
      \<and> references_to (u_id ` set (db_users d)) (r_user_id r) \<and> references_to (h_id ` set (db_hosts d)) (r_host_id r))"
proof -
  have u: "distinct (List.map_filter (row_key [''id'']) (map reservation_row rs)) \<longleftrightarrow> distinct (map r_id rs)"
    "distinct (List.map_filter (row_key [''public_id'']) (map reservation_row rs))" for rs
    by (rule unique_given, simp add: row_key_def reservation_row_def, simp)
      (rule unique_server_side, simp add: row_key_def reservation_row_def)
  have ids: "map_of (user_row v) ''id'' = Some (VInt (u_id v))" "map_of (host_row h) ''id'' = Some (VInt (h_id h))" for v h
    by (simp_all add: user_row_def host_row_def)
  have p: "excluded_pair no_overlap_constraint (reservation_row r) (reservation_row q)
      \<longleftrightarrow> reservation_active (r_status r) \<and> reservation_active (r_status q) \<and> r_host_id r = r_host_id q
        \<and> range_overlaps (r_time_range r) (r_time_range q)" for r q
    by (cases "r_status r"; cases "r_status q")
      (simp_all add: excluded_pair_def no_overlap_constraint_def reservation_row_def status_name_def)
  have "sorted_wrt (\<lambda>r q. \<not> excluded_pair no_overlap_constraint (reservation_row r) (reservation_row q)) rs
      \<longleftrightarrow> exclusive rs" if "distinct (map r_id rs)" for rs
    using that
  proof (induction rs)
    case (Cons r rs)
    then have "r_id q \<noteq> r_id r" if "q \<in> set rs" for q using that by (metis distinct.simps(2) image_eqI list.set_map list.simps(9))
    then have "exclusive (r # rs) \<longleftrightarrow> exclusive rs
        \<and> (\<forall>q \<in> set rs. \<not> excluded_pair no_overlap_constraint (reservation_row r) (reservation_row q))"
      by (auto simp: exclusive_def p range_overlaps_sym)
    with Cons show ?case by auto
  qed (simp add: exclusive_def)
  then show ?thesis using assms
    by (simp add: conforms_def find_table_head table_constraints_def column_constraints_def table_defs
        reservations_wf_def column_names_def u sorted_wrt_map reservation_row_def ids referenced references_to_def
        ball_conj_distrib) blast
qed

lemma conforms_reservations_distinct:
  assumes "conforms head_schema (contents d) ''reservations''" shows "distinct (map r_id (db_reservations d))"
proof -
  have "holds (contents d) ''reservations'' (IsUnique [''id''])"
    using assms by (simp add: conforms_def find_table_head table_constraints_def column_constraints_def table_defs)
  moreover have "distinct (List.map_filter (row_key [''id'']) (map reservation_row rs)) \<longleftrightarrow> distinct (map r_id rs)" for rs
    by (rule unique_given, simp add: row_key_def reservation_row_def, simp)
  ultimately show ?thesis by simp
qed

lemma schema_conforms_iff:
  "(\<forall>n \<in> {''users'', ''hosts'', ''reservations'', ''sessions'', ''tokens''}. conforms head_schema (contents d) n)
     \<longleftrightarrow> wf_db d \<and> rows_fit d"
proof -
  have d: "reservations_wf (db_reservations d) \<Longrightarrow> distinct (map r_id (db_reservations d))"
    by (simp add: reservations_wf_def)
  have "conforms head_schema (contents d) ''reservations'' \<longleftrightarrow> reservations_wf (db_reservations d)
      \<and> (\<forall>r \<in> set (db_reservations d). in_bits 64 (r_id r)
        \<and> references_to (u_id ` set (db_users d)) (r_user_id r) \<and> references_to (h_id ` set (db_hosts d)) (r_host_id r))"
    using conforms_reservations [of d] conforms_reservations_distinct [of d] d by blast
  moreover have "(\<forall>u \<in> set (db_users d). user_fits u) \<Longrightarrow>
      references_to (u_id ` set (db_users d)) i \<longleftrightarrow> i \<in> u_id ` set (db_users d)" for i
    by (auto simp: references_to_def user_fits_def)
  moreover have "(\<forall>h \<in> set (db_hosts d). host_fits h) \<Longrightarrow>
      references_to (h_id ` set (db_hosts d)) i \<longleftrightarrow> i \<in> h_id ` set (db_hosts d)" for i
    by (auto simp: references_to_def host_fits_def)
  moreover have "(\<forall>r \<in> set (db_reservations d). in_bits 64 (r_id r)) \<Longrightarrow>
      references_to (r_id ` set (db_reservations d)) i \<longleftrightarrow> i \<in> r_id ` set (db_reservations d)" for i
    by (auto simp: references_to_def)
  ultimately show ?thesis
    by (simp add: conforms_users conforms_hosts conforms_sessions conforms_tokens wf_db_def refs_wf_def rows_fit_def
        subset_iff) blast
qed

text \<open>What \<open>wf_db\<close> does not say of the audit log: its texts, and that actors are users.\<close>

definition audit_entry_fits :: "db \<Rightarrow> audit_log \<Rightarrow> bool" where
  "audit_entry_fits d a \<longleftrightarrow> audit_text a \<and> set_option (a_actor_user_id a) \<subseteq> u_id ` set (db_users d)
     \<and> (\<forall>i \<in> set_option (a_target_id a). in_bits 64 i)"

lemma schema_conforms_all:
  "list_all (conforms head_schema (contents d))
       [''users'', ''hosts'', ''reservations'', ''sessions'', ''tokens'', ''audit_logs'']
     \<longleftrightarrow> wf_db d \<and> rows_fit d \<and> list_all (audit_entry_fits d) (db_audits d)"
proof -
  have "rows_fit d \<Longrightarrow> references_to (u_id ` set (db_users d)) i \<longleftrightarrow> i \<in> u_id ` set (db_users d)" for i
    by (auto simp: references_to_def rows_fit_def user_fits_def)
  then have "rows_fit d \<Longrightarrow>
      conforms head_schema (contents d) ''audit_logs'' \<longleftrightarrow> list_all (audit_entry_fits d) (db_audits d)"
    unfolding conforms_audit_logs list_all_iff audit_entry_fits_def by blast
  then show ?thesis using schema_conforms_iff [of d] by auto
qed


subsection \<open>Texts in the reachable states\<close>

text \<open>Every text the broker stores has been measured before: by the schema of the request, by the column or
  by the length of a digest.\<close>

definition texts_fit :: "db \<Rightarrow> bool" where
  "texts_fit d \<longleftrightarrow> (\<forall>u \<in> set (db_users d). user_text u) \<and> (\<forall>h \<in> set (db_hosts d). host_text h)
     \<and> (\<forall>t \<in> set (db_tokens d). length (t_jti t) \<le> 64)"

definition keys_fit :: "db \<Rightarrow> bool" where
  "keys_fit d \<longleftrightarrow> (\<forall>i \<in> u_id ` set (db_users d) \<union> h_id ` set (db_hosts d) \<union> r_id ` set (db_reservations d)
     \<union> t_id ` set (db_tokens d). in_bits 64 i)"

lemma rows_fit_iff: "rows_fit d \<longleftrightarrow> keys_fit d \<and> texts_fit d"
  by (auto simp: rows_fit_def keys_fit_def texts_fit_def user_fits_def host_fits_def token_fits_def)

named_theorems text_intros \<open>statements keep the texts within their columns\<close>

lemma texts_write_audit [simp]: "texts_fit (write_audit a ac k tk ti r de p ip d) \<longleftrightarrow> texts_fit d"
  by (simp add: texts_fit_def)

lemma texts_insert_reservation: "insert_reservation nid uid hid s e created d = Inr d' \<Longrightarrow> texts_fit d \<Longrightarrow> texts_fit d'"
  by (erule insert_reservation_Inr) (simp add: texts_fit_def)

lemma texts_book_row [text_intros]:
  assumes "book_row nid created usr hid s e extra d = Inr (r, d')" "texts_fit d"
  shows "texts_fit d'"
proof -
  obtain d1 where ins: "insert_reservation nid (u_id usr) hid (instant_of s) (instant_of e) created d = Inr d1"
    and d': "d' = write_audit ''reservation_create'' (Some (u_id usr)) ActorUser (Some ''reservation'')
      (Some (r_id r)) AuditSuccess
      ([(''host_id'', JInt hid), (''starts_at'', JTime s), (''ends_at'', JTime e)] @ extra)
      (Some (u_provider usr)) None d1"
    using assms(1) by (auto simp: book_row_def split: sum.splits app_error.splits if_splits option.splits)
  show ?thesis unfolding d' using texts_insert_reservation [OF ins assms(2)] by simp
qed

lemma texts_cancel_row [text_intros]: "texts_fit d \<Longrightarrow> texts_fit (cancel_row i now d)"
  by (simp add: texts_fit_def)

lemma texts_revoke [text_intros]: "texts_fit d \<Longrightarrow> texts_fit (snd (revoke_where P now d))"
  by (auto simp: texts_fit_def token_simps elim!: in_update_whereE)

lemma texts_mark [text_intros]: "texts_fit d \<Longrightarrow> texts_fit (snd (mark_consumed now tok d))"
  by (auto simp: texts_fit_def mark_consumed_def Let_def elim!: in_update_whereE)

lemma texts_insert_token: "insert_token t d = Inr d' \<Longrightarrow> length (t_jti t) \<le> 64 \<Longrightarrow> texts_fit d \<Longrightarrow> texts_fit d'"
  by (auto simp: texts_fit_def dest!: insert_token_Inr(1))

lemma texts_issue_connect [text_intros]:
  assumes "issue_connect_token sha cfg now rnow raw nid usr r d = Inr (res, d')" "\<forall>x. length (sha x) = 64" "texts_fit d"
  shows "texts_fit d'"
proof -
  obtain raw' tok n where res: "res = (raw', tok, n)" by (cases res)
  note I = issue_connect_token_Inr [OF assms(1) [unfolded res]]
  have "length (t_jti tok) \<le> 64" using I(1) assms(2) by (auto simp: connect_row_def)
  then show ?thesis using texts_insert_token [OF I(4)] texts_revoke [OF assms(3)]
    by (simp add: revoke_active_tokens_for_reservation_def)
qed

lemma texts_issue_agent [text_intros]:
  assumes "issue_agent_token sha cfg rnow now raw nid hid usr d = Inr (res, d')" "\<forall>x. length (sha x) = 64" "texts_fit d"
  shows "texts_fit d'"
proof -
  obtain raw' tok n where res: "res = (raw', tok, n)" by (cases res)
  note I = issue_agent_token_Inr [OF assms(1) [unfolded res]]
  show ?thesis using texts_insert_token [OF I(7)] texts_revoke [OF assms(3)] I(2) assms(2)
    by (simp add: revoke_active_agent_tokens_def)
qed

lemma texts_issue_session [text_intros]:
  assumes "issue_session sha ttl now raw nid usr d = Inr (res, d')" "\<forall>x. length (sha x) = 64" "texts_fit d"
  shows "texts_fit d'"
  using issue_session_Inr(2,4) [of sha ttl now raw nid usr d "fst res" "snd res" d'] assms
  by (auto intro: texts_insert_token)

lemma texts_insert_host [text_intros]:
  assumes "insert_host (new_host hid p) d = Inr d'" "host_create_valid p" "texts_fit d"
  shows "texts_fit d'"
proof -
  have "short_option n s \<longleftrightarrow> (\<forall>x \<in> set_option s. length x \<le> n)" for n s
    by (simp add: short_option_def split: option.split)
  with assms(2) have "host_text (new_host hid p)"
    by (simp add: host_text_def new_host_def host_create_valid_def in_bits_def)
  with insert_host_Inr(1) [OF assms(1)] assms(3) show ?thesis by (simp add: texts_fit_def)
qed

lemma texts_save_host [text_intros]: "texts_fit d \<Longrightarrow> host_text h \<Longrightarrow> texts_fit (save_host h d)"
  by (auto simp: texts_fit_def save_host_def elim!: in_update_whereE)

lemma stored_host_text: "texts_fit d \<Longrightarrow> get_host d i = Some h \<Longrightarrow> host_text h"
  by (auto simp: texts_fit_def dest: get_hostD)

lemma texts_transition [text_intros]:
  "texts_fit d \<Longrightarrow> host_text h \<Longrightarrow> texts_fit (fst (snd (transition_host h st reason b now d)))"
  by (auto simp: transition_host_def host_text_def intro!: texts_save_host)

lemma texts_tick_hosts:
  "tick_hosts now hs n d b = (n', d', b') \<Longrightarrow> \<forall>h \<in> set hs. host_text h \<Longrightarrow> texts_fit d \<Longrightarrow> texts_fit d'"
proof (induction hs arbitrary: n d b)
  case (Cons h hs)
  obtain c d1 b1 where t: "transition_host h OFFLINE ''heartbeat_stale'' b now d = (c, d1, b1)"
    by (cases "transition_host h OFFLINE ''heartbeat_stale'' b now d") auto
  have "texts_fit d1" using texts_transition [of d h OFFLINE "''heartbeat_stale''" b now] Cons.prems by (simp add: t)
  with Cons t show ?case by simp
qed simp

lemma texts_upsert [text_intros]: "upsert_user nid ident d = Inr (u, d') \<Longrightarrow> texts_fit d \<Longrightarrow> texts_fit d'"
  by (auto simp: upsert_user_def Let_def texts_fit_def identity_fits_def user_text_def elim!: in_update_whereE
      split: option.splits if_splits)

lemma texts_connect_response:
  assumes "\<forall>x. length (sha x) = 64" "texts_fit (w_db w)"
  shows "texts_fit (w_db (snd (issue_connect_token_response sha cfg now rnow raw tid usr r client w)))"
  using assms by (auto simp: issue_connect_token_response_def Let_def intro: texts_issue_connect
      split: option.split sum.split prod.split)

lemma texts_create: "texts_fit (w_db w) \<Longrightarrow>
    texts_fit (w_db (snd (create_reservation_endpoint cfg n1 n2 nid created usr p w)))"
  by (auto simp: create_reservation_endpoint_def dest!: create_reservation_InrD(1) intro: texts_book_row split: sum.split)

lemma texts_instant:
  assumes "\<forall>x. length (sha x) = 64" "texts_fit (w_db w)"
  shows "texts_fit (w_db (snd (instant_reservation_endpoint sha cfg clk nid created raw tid usr hid w)))"
proof (cases "create_instant_reservation cfg (ic_now clk) (ic_quota clk) nid created usr hid (w_db w)")
  case (Inr x)
  obtain r d1 where x: "x = (r, d1)" by (cases x)
  have d1: "texts_fit (w_db (w\<lparr>w_db := d1\<rparr>))"
    using Inr [unfolded x] by (rule create_instant_InrD) (use assms(2) texts_book_row in simp)
  let ?iss = "issue_connect_token_response sha cfg (ic_issue clk) (ic_revoke clk) raw tid usr r
    (Some ''instant_use'') (w\<lparr>w_db := d1\<rparr>)"
  have d2: "texts_fit (w_db (snd ?iss))" by (rule texts_connect_response [OF assms(1) d1])
  obtain res w2 where i: "?iss = (res, w2)" by (cases ?iss)
  have "texts_fit (fst (snd (transition_host h IN_USE ''instant_use'' None (ic_transition clk) (w_db w2))))"
    if "get_host (w_db w2) (r_host_id r) = Some h" for h
    using d2 that by (intro texts_transition stored_host_text [OF _ that]) (simp_all add: i)
  with d2 assms(2) show ?thesis
    by (simp add: instant_reservation_endpoint_def Inr x i split_beta split: sum.split option.split)
qed (simp add: instant_reservation_endpoint_def assms(2))

lemma texts_cancel:
  assumes "texts_fit (w_db w)" shows "texts_fit (w_db (snd (cancel_reservation_endpoint cn now rid usr w)))"
proof (cases "cancel_reservation cn usr rid (w_db w)")
  case (Inr x)
  obtain r d1 where x: "x = (r, d1)" by (cases x)
  have d1: "texts_fit d1" using Inr assms
    by (auto simp: x cancel_reservation_def Let_def split: sum.splits if_splits option.splits intro: texts_cancel_row)
  then show ?thesis
    by (auto simp: cancel_reservation_endpoint_def Inr x split: option.split
        intro: texts_transition stored_host_text)
qed (simp add: cancel_reservation_endpoint_def assms)

lemma texts_connect: "\<forall>x. length (sha x) = 64 \<Longrightarrow> texts_fit (w_db w) \<Longrightarrow>
    texts_fit (w_db (snd (connect_token_endpoint sha cfg now rnow raw tid rid client usr w)))"
  by (auto simp: connect_token_endpoint_def intro: texts_connect_response split: sum.split)

lemma texts_verify: "texts_fit (w_db w) \<Longrightarrow> texts_fit (w_db (snd (verify_token_endpoint sha cfg now cn rq p w)))"
  by (auto simp: verify_token_endpoint_def finish_verify_def audit_verify_def split_beta
      split: sum.split option.split intro!: texts_mark)

lemma texts_pair: "texts_fit (w_db w) \<Longrightarrow> texts_fit (w_db (snd (pairing_endpoint sha cfg now answers p w)))"
  by (auto simp: pairing_endpoint_def split: option.split sum.split pairing_error.split)

lemma texts_enrol: "\<forall>x. length (sha x) = 64 \<Longrightarrow> texts_fit (w_db w) \<Longrightarrow>
    texts_fit (w_db (snd (create_host_endpoint sha cfg rnow now raw hid tid usr p w)))"
  by (auto simp: create_host_endpoint_def split: sum.split option.split app_error.split prod.split
      intro: texts_issue_agent texts_insert_host)

lemma texts_rotate: "\<forall>x. length (sha x) = 64 \<Longrightarrow> texts_fit (w_db w) \<Longrightarrow>
    texts_fit (w_db (snd (rotate_agent_token_endpoint sha cfg rnow now raw tid hid usr w)))"
  by (auto simp: rotate_agent_token_endpoint_def split: sum.split option.split prod.split intro: texts_issue_agent)

lemma texts_sunshine: "texts_fit (w_db w) \<Longrightarrow> texts_fit (w_db (snd (set_sunshine_token_endpoint hid secret w)))"
  by (auto simp: set_sunshine_token_endpoint_def Let_def sunshine_token_valid_def host_text_def split: option.split sum.split
      dest: stored_host_text intro!: texts_save_host)

lemma texts_heartbeat:
  assumes "texts_fit (w_db w)" shows "texts_fit (w_db (snd (heartbeat_endpoint sha cfg an now rq p w)))"
proof (rule heartbeat_cases [of sha cfg an now rq p w])
  fix h tok d2 b
  assume h: "get_agent_host sha an rq (w_db w) = Inr (h, tok)"
    and t: "transition_host (heartbeat_host now p h)
       (heartbeat_status cfg now p (h_id h) (save_host (heartbeat_host now p h) (w_db w)))
       ''heartbeat'' (Some (w_broker w)) now (save_host (heartbeat_host now p h) (w_db w)) = b"
    and d2: "fst (snd b) = d2" and w: "w_db (snd (heartbeat_endpoint sha cfg an now rq p w)) = d2"
  have "host_text (heartbeat_host now p h)"
    using stored_host_text [OF assms get_agent_host_Inr(2) [OF h]] by (simp add: host_text_def heartbeat_host_def)
  then show ?thesis unfolding w d2 [symmetric] t [symmetric] by (intro texts_transition texts_save_host assms)
qed (simp add: assms)

lemma texts_login: "\<forall>x. length (sha x) = 64 \<Longrightarrow> texts_fit (w_db w) \<Longrightarrow>
    texts_fit (w_db (snd (mock_callback sha cfg now nid raw tid rq body w)))"
  by (auto simp: mock_callback_def Let_def split: sum.split prod.split intro: texts_issue_session texts_upsert)

lemma texts_logout: "texts_fit (w_db w) \<Longrightarrow> texts_fit (w_db (snd (logout sha cfg now rq su w)))"
  by (auto simp: logout_def revoke_session_def split_beta split: option.split intro!: texts_revoke)

lemma texts_monitor: "texts_fit (w_db w) \<Longrightarrow> texts_fit (w_db (monitor_step cfg now w))"
  by (auto simp: monitor_step_def run_one_tick_def tick_rows_def Let_def texts_fit_def [of "w_db w"] dest!: texts_tick_hosts
      split: prod.split)

definition text_state :: "system \<Rightarrow> bool" where
  "text_state s \<longleftrightarrow> texts_fit (w_db (snd s))"

lemma text_state_step:
  "\<forall>x. length (sha x) = 64 \<Longrightarrow> text_state s \<Longrightarrow> system_step sha cfg s s' \<Longrightarrow> text_state s'"
  by (cases s, cases s', simp, erule system_stepE)
    (auto simp: text_state_def texts_create texts_instant texts_cancel texts_connect texts_verify texts_pair texts_enrol
      texts_rotate texts_sunshine texts_heartbeat texts_login texts_logout texts_monitor with_broker_def)

interpretation text_system: invariant_system system_start "system_step sha cfg"
  "\<lambda>s. (\<forall>x. length (sha x) = 64) \<longrightarrow> text_state s"
  for sha cfg
  by unfold_locales
    (simp add: system_start_def text_state_def texts_fit_def empty_db_def, use text_state_step in blast)

end
