(* ===== verification/Route_Facts.thy ===== *)
theory Route_Facts
  imports System_Facts
begin

text \<open>
  What a client of the reservation, token and pairing routes can rely on: which errors a booking
  can meet, that foreign reservations cannot be told from missing ones, the way of a connect
  token from its issue to its consumption, instant use from the request to the accepted secret,
  and the status of the host after a cancellation.
\<close>

subsection \<open>Checks of the grid\<close>

lemma grid_service_schema: "is_grid_aligned dt 30 = Inr True \<longleftrightarrow> ensure_grid dt"
  by (simp add: is_grid_aligned_def ensure_grid_def Let_def)

text \<open>The three checks of the half-hour grid, in the request schema, the service and the route of
  available hosts, accept the same times.\<close>
theorem grid_checks_agree:
  "(is_grid_aligned dt 30 = Inr True \<longleftrightarrow> ensure_grid dt)
   \<and> (is_ok (ensure_grid_aligned dt) \<longleftrightarrow> ensure_grid dt)"
  using half_hour_minute [of "dt_wall dt"]
  by (auto simp: grid_service_schema ensure_grid_def ensure_grid_aligned_def)

text \<open>The request schema refuses no booking that the service would accept.\<close>
theorem schema_admits_accepted_windows:
  assumes "reservation_slot_minutes cfg = 30" and "0 < rc_host_id p"
    and "is_ok (validate_window cfg now (rc_starts_at p) (rc_ends_at p))"
  shows "reservation_create_valid p"
proof -
  have "is_grid_aligned dt 30 = Inr True \<longleftrightarrow> aware dt \<and> dt_wall dt mod (30 * min_us) = 0" for dt
    by (simp add: is_grid_aligned_30)
  moreover have "is_grid_aligned dt 30 = Inr True \<longleftrightarrow> ensure_grid dt" for dt
    using grid_service_schema by blast
  moreover have "window_accepted cfg now (rc_starts_at p) (rc_ends_at p)"
    using assms(3) validate_window_Inr [OF assms(1)] by (auto simp: is_ok_iff)
  ultimately show ?thesis
    using assms(2) by (auto simp: reservation_create_valid_def window_accepted_def)
qed

subsection \<open>Errors of a booking\<close>


theorem schema_admits_accepted_windows_witness:
  "reservation_create_valid \<lparr>rc_host_id = 1, rc_starts_at = at_utc hour_us, rc_ends_at = at_utc (2 * hour_us)\<rparr>"
proof (rule schema_admits_accepted_windows [of default_settings _ 0])
  show "reservation_slot_minutes default_settings = 30" by (simp add: default_settings_def)
qed (simp, code_simp)


text \<open>The schema bounds a host's number from below only: one that needs more than 32 bits passes every check
  before the look-up, which then fails in the driver, and the caller gets 500; so it is for every route
  that takes a number in its path.\<close>
theorem oversized_number_is_server_error:
  assumes "\<not> in_bits 32 i"
  shows "get_reservation_endpoint i usr w = (Inl DataError, w)"
    and "cancel_reservation_endpoint cn now i usr w = (Inl DataError, w)"
    and "reservation_create_valid p \<Longrightarrow> rc_host_id p = i \<Longrightarrow>
      is_ok (validate_window cfg now1 (rc_starts_at p) (rc_ends_at p)) \<Longrightarrow>
      create_reservation_endpoint cfg now1 now2 nid created usr p w = (Inl DataError, w)"
    and "er_status (error_response_of DataError) = 500"
  using assms
  by (simp_all add: get_reservation_endpoint_def cancel_reservation_endpoint_def cancel_reservation_def get_reservation_def
      not_found_def create_reservation_endpoint_def create_reservation_def validate_host_exists_def unknown_host_def
      error_response_of_def is_ok_def split: sum.splits)

subsection \<open>Foreign reservations\<close>



subsection \<open>From the issue of a connect token to its consumption\<close>

lemma mark_consumed_open:
  assumes "wf_db d" "tok \<in> set (db_tokens d)" "t_consumed_at tok = None" "t_revoked_at tok = None"
  shows "fst (mark_consumed c tok d)"
proof -
  let ?P = "\<lambda>t. t_id t = t_id tok \<and> t_consumed_at t = None \<and> t_revoked_at t = None"
  have "count_where ?P (db_tokens d) \<le> 1"
    using count_where_key_le_1 [of t_id "db_tokens d"] assms(1) by (simp add: wf_db_def tokens_wf_def)
  moreover have "count_where ?P (db_tokens d) \<noteq> 0" using assms(2-4) by (auto simp: count_where_0_iff)
  ultimately show ?thesis by (simp add: mark_consumed_def Let_def)
qed

lemma lookup_after_consumption:
  assumes "wf_db d" "tok \<in> set (db_tokens d)" "t_jti tok = sha raw"
  shows "lookup_token sha p now raw (snd (mark_consumed c tok d)) = None"
proof -
  have "\<not> (t_jti x = sha raw \<and> token_live p now x)" if x: "x \<in> set (db_tokens (snd (mark_consumed c tok d)))" for x
  proof
    assume j: "t_jti x = sha raw \<and> token_live p now x"
    from x obtain q where q: "q \<in> set (db_tokens d)"
      "x = (if t_id q = t_id tok \<and> t_consumed_at q = None \<and> t_revoked_at q = None
            then q\<lparr>t_consumed_at := Some c\<rparr> else q)"
      unfolding mark_consumed_tokens by (rule in_update_whereE)
    then have "q = tok"
      using assms j by (auto simp: wf_db_def tokens_wf_def distinct_map inj_on_def split: if_splits)
    with q(2) j show False by (auto simp: token_live_def split: if_splits)
  qed
  then show ?thesis by (auto simp: lookup_token_def find_None_iff)
qed

lemma connect_endpoint_Inr:
  assumes "connect_token_endpoint sha cfg now rnow raw tid rid client usr w = (Inr resp, w1)"
  obtains r tok n d1 where
    "get_reservation usr rid (w_db w) = Inr r"
    "issue_connect_token sha cfg now rnow raw tid usr r (w_db w) = Inr ((raw, tok, n), d1)"
    "db_tokens (w_db w1) = db_tokens d1" "ct_token resp = raw" "ct_expires_at resp = t_expires_at tok"
    "ct_reservation_id resp = r_id r" "evolves (w_db w) (w_db w1)"
proof -
  from assms obtain r where r: "get_reservation usr rid (w_db w) = Inr r"
    and i: "issue_connect_token_response sha cfg now rnow raw tid usr r client w = (Inr resp, w1)"
    by (auto simp: connect_token_endpoint_def split: if_splits sum.splits)
  show ?thesis
  proof (rule issue_response_cases [of sha cfg now rnow raw tid usr r client w])
    fix resp' w' res d1
    assume j: "issue_connect_token_response sha cfg now rnow raw tid usr r client w = (Inr resp', w')"
      and k: "issue_connect_token sha cfg now rnow raw tid usr r (w_db w) = Inr (res, d1)"
      and l: "evolves d1 (w_db w')" "db_tokens (w_db w') = db_tokens d1" "ct_token resp' = raw"
        "ct_expires_at resp' = t_expires_at (fst (snd res))" "ct_reservation_id resp' = r_id r"
    obtain raw' tok n where res: "res = (raw', tok, n)" by (cases res)
    have eq: "resp' = resp" "w' = w1" using i j by simp_all
    have "raw' = raw" by (rule issue_connect_token_Inr(2) [OF k [unfolded res]])
    with k have iss: "issue_connect_token sha cfg now rnow raw tid usr r (w_db w) = Inr ((raw, tok, n), d1)"
      by (simp add: res)
    show ?thesis
      using that [OF r iss] l evolves_trans [OF evolves_issue_connect_token [OF iss]] by (simp add: res eq)
  qed (use i in simp)
qed

text \<open>C15: A connect token works once, all the way: the secret a client receives is accepted by the
  verification route until the reservation ends, names the user, host and reservation it was issued
  for, and is refused from the second time on.\<close>
theorem connect_token_round_trip:
  assumes "wf_db (w_db w)"
    and "connect_token_endpoint sha cfg now rnow raw tid rid client usr w = (Inr resp, w1)"
    and "is_ok (require_internal_token cfg rq)" and "16 \<le> length raw" and "t1 < ct_expires_at resp"
  shows "\<exists>r w2 w3. get_reservation_row (w_db w) rid = Some r
    \<and> verify_token_endpoint sha cfg t1 c1 rq \<lparr>tv_token = ct_token resp, tv_consume = True\<rparr> w1 =
        (Inr \<lparr>tr_valid = True, tr_reason = None, tr_user_id = Some (u_id usr), tr_host_id = Some (r_host_id r),
              tr_reservation_id = Some rid, tr_expires_at = range_upper (r_time_range r)\<rparr>, w2)
    \<and> verify_token_endpoint sha cfg t2 c2 rq \<lparr>tv_token = ct_token resp, tv_consume = True\<rparr> w2 =
        (Inr (refused_token InvalidOrExpired), w3)"
  using assms(2)
proof (rule connect_endpoint_Inr)
  fix r tok n d1
  assume g: "get_reservation usr rid (w_db w) = Inr r"
    and i: "issue_connect_token sha cfg now rnow raw tid usr r (w_db w) = Inr ((raw, tok, n), d1)"
    and d1: "db_tokens (w_db w1) = db_tokens d1" and resp: "ct_token resp = raw" "ct_expires_at resp = t_expires_at tok"
    and ev: "evolves (w_db w) (w_db w1)"
  note I = issue_connect_token_Inr [OF i]
  have wf1: "wf_db (w_db w1)" using ev assms(1) by (simp add: evolves_def)
  have row: "get_reservation_row (w_db w) rid = Some r" "r_id r = rid"
    using g by (auto simp: get_reservation_Inr dest: get_reservation_rowD)
  obtain e where e: "connect_gate cfg now usr r = Inr e" "tok = connect_row sha now raw tid usr r e"
    using I(1) by auto
  have up: "range_upper (r_time_range r) = Some e"
    using e(1) by (cases "r_time_range r") (auto simp: connect_gate_Inr_iff connect_gate_def reservation_bounds_def
        assert_can_access_def split: if_splits)
  have raw: "raw \<noteq> []" using assms(4) by auto
  have tok: "tok \<in> set (db_tokens (w_db w1))" using I(5) d1 by simp
  have v1: "verify_connect_token sha t1 raw (w_db w1) = Some tok"
    using wf1 tok raw assms(5) by (simp add: verify_connect_token_def lookup_token_iff wf_db_def)
      (simp add: e(2) resp connect_row_def token_live_def)
  let ?d2 = "snd (mark_consumed c1 tok (w_db w1))"
  have once: "fst (mark_consumed c1 tok (w_db w1))"
    using wf1 tok by (intro mark_consumed_open) (simp_all add: e(2) connect_row_def)
  have gone: "verify_connect_token sha t2 raw (audit_verify a ti de ?d2) = None" for a ti de
    using lookup_after_consumption [OF wf1 tok, of sha raw Connect t2 c1]
    by (simp add: verify_connect_token_def lookup_token_def audit_verify_def e(2) connect_row_def)
  have acc: "accepted_token tok = \<lparr>tr_valid = True, tr_reason = None, tr_user_id = Some (u_id usr),
      tr_host_id = Some (r_host_id r), tr_reservation_id = Some rid, tr_expires_at = range_upper (r_time_range r)\<rparr>"
    by (simp add: accepted_token_def e(2) connect_row_def row(2) up)
  from assms(3) have guard: "require_internal_token cfg rq = Inr ()" by (simp add: is_ok_iff)
  show ?thesis
    using row(1) v1 once gone assms(4)
    by (simp add: verify_token_endpoint_def guard token_verify_valid_def finish_verify_def resp split_beta acc)
qed

theorem connect_token_round_trip_witness:
  "\<exists>resp w1 w2. connect_token_endpoint (\<lambda>s. s) (default_settings\<lparr>internal_api_token := Some ''internal''\<rparr>)
        hour_us hour_us ''a-connect-secret'' 3 1 None run_user run_booking = (Inr resp, w1)
     \<and> verify_token_endpoint (\<lambda>s. s) (default_settings\<lparr>internal_api_token := Some ''internal''\<rparr>) hour_us hour_us
          (sample_request ''internal'') \<lparr>tv_token = ct_token resp, tv_consume = True\<rparr> w1 =
        (Inr \<lparr>tr_valid = True, tr_reason = None, tr_user_id = Some 1, tr_host_id = Some 1,
              tr_reservation_id = Some 1, tr_expires_at = Some (2 * hour_us)\<rparr>, w2)"
proof -
  let ?cfg = "default_settings\<lparr>internal_api_token := Some ''internal''\<rparr>"
  let ?c = "connect_token_endpoint (\<lambda>s. s) ?cfg hour_us hour_us ''a-connect-secret'' 3 1 None run_user run_booking"
  have "case fst ?c of Inl _ \<Rightarrow> False | Inr resp \<Rightarrow> ct_expires_at resp = 2 * hour_us" by code_simp
  then obtain resp w1 where c: "?c = (Inr resp, w1)" and e: "hour_us < ct_expires_at resp"
    by (cases ?c) (auto split: sum.splits)
  have g: "is_ok (require_internal_token ?cfg (sample_request ''internal''))" by code_simp
  have r: "map_option (\<lambda>r. (r_host_id r, range_upper (r_time_range r))) (get_reservation_row (w_db run_booking) 1)
      = Some (1, Some (2 * hour_us))" by code_simp
  have u: "u_id run_user = 1" by code_simp
  have len: "16 \<le> length ''a-connect-secret''" by simp
  show ?thesis
    using connect_token_round_trip [OF reach_wf [OF run_reach(1)] c g len e] c r u by fastforce
qed

subsection \<open>Instant use\<close>

lemma instant_use_connects:
  assumes "wf_db (w_db w)" and "0 < hid" and "get_host (w_db w) hid = Some h" and "h_status h = IDLE"
    and "\<not> covered (w_db w) hid (ic_now clk)"
    and "second_aligned (db_reservations (w_db w))" and "completed_started (ic_now clk) (db_reservations (w_db w))"
    and "instant_window (ic_now clk) (next_reservation_start (w_db w) hid (ic_now clk)) = (s, e)"
    and "is_ok (validate_quota cfg (ic_quota clk) (w_db w) usr (at_utc s) (at_utc e))"
    and "u_id usr \<in> u_id ` set (db_users (w_db w))" and "nid \<notin> r_id ` set (db_reservations (w_db w))"
    and "tid \<notin> t_id ` set (db_tokens (w_db w))" and "sha raw \<notin> t_jti ` set (db_tokens (w_db w))" and "raw \<noteq> ''''"
    and "0 \<le> connect_token_grace_seconds cfg" and "ic_now clk \<le> ic_issue clk" and "ic_issue clk < e"
    and bound: "in_bits 32 hid"
  shows "\<exists>resp w'. instant_reservation_endpoint sha cfg clk nid created raw tid usr hid w = (Inr resp, w')
    \<and> ct_token resp = raw \<and> ct_reservation_id resp = nid \<and> ct_expires_at resp = e
    \<and> map_option h_status (get_host (w_db w') hid) = Some IN_USE
    \<and> (verify_connect_token sha t raw (w_db w') \<noteq> None \<longleftrightarrow> t < e)"
proof -
  let ?d = "w_db w" and ?r = "booked nid usr hid s e created"
  from instant_use_books [OF assms(3-11) bound, of created]
  obtain d1 where c: "create_instant_reservation cfg (ic_now clk) (ic_quota clk) nid created usr hid ?d = Inr (?r, d1)"
    and rows: "db_reservations d1 = db_reservations ?d @ [?r]" by (auto simp: yields_iff)
  have lt: "s \<le> ic_now clk" "s < e" using instant_window_proper [OF assms(8)] by auto
  from c obtain bk where b: "book_row nid created usr hid (at_utc s) (at_utc e) bk ?d = Inr (?r, d1)"
    using assms(8) by (auto elim!: create_instant_InrD)
  note b1 = book_row_Inr(6) [OF b, simplified, OF lt(2)]
  have wf1: "wf_db d1" by (rule book_row_frame [OF b assms(1)])
  have ok: "is_ok (issue_connect_token sha cfg (ic_issue clk) (ic_revoke clk) raw tid usr ?r d1)"
    by (subst issue_connect_token_ok [OF wf1, of _ s e])
      (use rows b1 assms(10,12,13,15-17) lt in \<open>simp_all add: booked_def\<close>)
  then obtain raw' tok n d2 where "issue_connect_token sha cfg (ic_issue clk) (ic_revoke clk) raw tid usr ?r d1
      = Inr ((raw', tok, n), d2)" by (auto simp: is_ok_iff)
  with issue_connect_token_Inr(2) [OF this]
  have i: "issue_connect_token sha cfg (ic_issue clk) (ic_revoke clk) raw tid usr ?r d1 = Inr ((raw, tok, n), d2)"
    by simp
  have tr: "r_time_range ?r = TimeRange s e" and rh: "r_host_id ?r = hid" "r_id ?r = nid" by (simp_all add: booked_def)
  note V = issued_token_accepted [OF wf1 tr assms(14) i]
  have h1: "get_host d1 hid = Some h" using assms(3) b1 by (simp add: get_host_def)
  show ?thesis
  proof (rule issue_response_cases [of sha cfg "ic_issue clk" "ic_revoke clk" raw tid usr ?r
        "Some ''instant_use''" "w\<lparr>w_db := d1\<rparr>"])
    fix err w' assume "issue_connect_token_response sha cfg (ic_issue clk) (ic_revoke clk) raw tid usr ?r
        (Some ''instant_use'') (w\<lparr>w_db := d1\<rparr>) = (Inl err, w')"
    then show ?thesis using h1 i by (simp add: issue_connect_token_response_def rh Let_def)
  next
    fix resp w' res d2'
    assume a: "issue_connect_token_response sha cfg (ic_issue clk) (ic_revoke clk) raw tid usr ?r
        (Some ''instant_use'') (w\<lparr>w_db := d1\<rparr>) = (Inr resp, w')"
      and i': "issue_connect_token sha cfg (ic_issue clk) (ic_revoke clk) raw tid usr ?r (w_db (w\<lparr>w_db := d1\<rparr>))
        = Inr (res, d2')"
      and d2': "db_tokens (w_db w') = db_tokens d2'" "db_hosts (w_db w') = db_hosts d2'"
      and resp: "ct_token resp = raw" "ct_expires_at resp = t_expires_at (fst (snd res))"
        "ct_reservation_id resp = r_id ?r"
    have eq: "res = (raw, tok, n)" "d2' = d2" using i i' by simp_all
    have h2: "get_host (w_db w') hid = Some h"
      using h1 issue_connect_token_Inr(6) [OF i] by (simp add: get_host_def d2'(2) eq)
    obtain c d3 b3 where t: "transition_host h IN_USE ''instant_use'' None (ic_transition clk) (w_db w') = (c, d3, b3)"
      by (metis prod.exhaust)
    have hid: "h_id h = hid" using get_hostD [OF h2] by simp
    have "get_host d3 hid = Some (h\<lparr>h_status := IN_USE\<rparr>)"
      using transition_host_get [OF t, of hid] h2 by (simp add: hid)
    moreover have "verify_connect_token sha t raw d3 = (if t < e then Some tok else None)"
      using transition_host_frame(3) [OF t] unfolding V(1) [of t, symmetric]
      by (simp add: verify_connect_token_def lookup_token_def d2'(1) eq)
    moreover have "instant_reservation_endpoint sha cfg clk nid created raw tid usr hid w
        = (Inr resp, w'\<lparr>w_db := d3\<rparr>)"
      using assms(2) c a h2 t by (simp add: instant_reservation_endpoint_def rh)
    ultimately show ?thesis using resp V(3) by (simp add: eq rh)
  qed
qed

definition idle_clock :: instant_clock where
  "idle_clock = \<lparr>ic_now = 0, ic_quota = 0, ic_issue = 0, ic_revoke = 0, ic_transition = 0\<rparr>"

subsection \<open>Cancelling gives the host back\<close>

lemma cancel_reservation_total:
  assumes "get_reservation usr rid d = Inr q"
  shows "yields (cancel_reservation now usr rid d) (\<lambda>_ _. True)"
proof -
  have "get_reservation_row d rid = Some q" "r_id q = rid"
    using assms by (auto simp: get_reservation_Inr dest: get_reservation_rowD)
  with assms show ?thesis by (simp add: yields_def cancel_reservation_def get_cancel_row Let_def)
qed

text \<open>Cancelling answers 204 and returns a host in use to idle exactly when no other confirmed
  reservation of the host is running; every other status of the host, and every other host, is left
  alone.\<close>
theorem cancel_returns_host:
  assumes "wf_db (w_db w)" and "get_reservation usr rid (w_db w) = Inr q"
    and "get_host (w_db w) (r_host_id q) = Some h"
  shows "fst (cancel_reservation_endpoint cn now rid usr w) = Inr ()
    \<and> get_host (w_db (snd (cancel_reservation_endpoint cn now rid usr w))) i =
      (if i = h_id h \<and> h_status h = IN_USE
          \<and> \<not> (\<exists>r \<in> set (db_reservations (w_db w)). r_id r \<noteq> rid \<and> r_host_id r = h_id h
                 \<and> r_status r = CONFIRMED \<and> range_contains (r_time_range r) now)
       then Some (h\<lparr>h_status := IDLE\<rparr>) else get_host (w_db w) i)"
proof -
  have "yields (cancel_reservation cn usr rid (w_db w)) (\<lambda>_ _. True)"
    using assms(2) cancel_reservation_total by blast
  then obtain r d1 where c: "cancel_reservation cn usr rid (w_db w) = Inr (r, d1)" by (rule yieldsE)
  from c show ?thesis
  proof (rule cancel_reservation_InrD)
    fix q' assume "get_reservation usr rid (w_db w) = Inr q'"
      and r: "r = (if r_status q' = CANCELED then q' else q'\<lparr>r_status := CANCELED, r_canceled_at := Some cn\<rparr>)"
      and d1: "db_reservations d1 = (if r_status q' = CANCELED then db_reservations (w_db w)
           else db_reservations (cancel_row rid cn (w_db w)))" and hosts: "db_hosts d1 = db_hosts (w_db w)"
    with assms(2) have q': "q' = q" by simp
    have row: "q \<in> set (db_reservations (w_db w))" "r_id q = rid"
      using assms(2) by (auto simp: get_reservation_Inr dest: get_reservation_rowD)
    have rh: "r_host_id r = r_host_id q" by (simp add: r q')
    have hid: "h_id h = r_host_id q" using get_hostD [OF assms(3)] by simp
    have gh: "get_host d1 i = get_host (w_db w) i" for i by (simp add: get_host_def hosts)
    have "(\<exists>x \<in> set (db_reservations d1). r_host_id x = h_id h \<and> r_status x = CONFIRMED
          \<and> range_contains (r_time_range x) now)
        \<longleftrightarrow> (\<exists>x \<in> set (db_reservations (w_db w)). r_id x \<noteq> rid \<and> r_host_id x = h_id h
          \<and> r_status x = CONFIRMED \<and> range_contains (r_time_range x) now)"
    proof (cases "r_status q = CANCELED")
      case True
      have "x = q" if "x \<in> set (db_reservations (w_db w))" "r_id x = rid" for x
        using assms(1) row that by (auto simp: wf_db_def reservations_wf_def distinct_map inj_on_def)
      with True have "r_id x \<noteq> rid" if "x \<in> set (db_reservations (w_db w))" "r_status x = CONFIRMED" for x
        using that by auto
      with True show ?thesis by (simp add: d1 q') blast
    next
      case False
      then show ?thesis by (simp add: d1 q' cancel_row_def bex_update_where cong: if_cong) blast
    qed
    then have act: "get_active_reservation_for_host d1 (h_id h) now = None \<longleftrightarrow>
        \<not> (\<exists>x \<in> set (db_reservations (w_db w)). r_id x \<noteq> rid \<and> r_host_id x = h_id h
          \<and> r_status x = CONFIRMED \<and> range_contains (r_time_range x) now)"
      by (auto simp: get_active_reservation_for_host_def find_None_iff)
    obtain ch d2 b2 where t: "transition_host h IDLE ''reservation_canceled'' None now d1 = (ch, d2, b2)"
      by (metis prod.exhaust)
    have h2: "get_host d2 j = (if j = h_id h then Some (h\<lparr>h_status := IDLE\<rparr>) else get_host (w_db w) j)" for j
      unfolding gh [symmetric] by (rule transition_host_get [OF t]) (simp add: gh hid assms(3))
    obtain busy where busy: "busy \<longleftrightarrow> (\<exists>x \<in> set (db_reservations (w_db w)). r_id x \<noteq> rid
        \<and> r_host_id x = h_id h \<and> r_status x = CONFIRMED \<and> range_contains (r_time_range x) now)" by blast
    have "w_db (snd (cancel_reservation_endpoint cn now rid usr w))
        = (if h_status h = IN_USE \<and> \<not> busy then d2 else d1)"
      "fst (cancel_reservation_endpoint cn now rid usr w) = Inr ()"
      using act [folded busy] assms(3) by (simp_all add: cancel_reservation_endpoint_def c rh gh t)
    then show ?thesis unfolding busy [symmetric] using h2 gh by simp
  qed
qed

definition busy_world :: world where
  "busy_world = run_start\<lparr>w_db := save_host (sample_host 7 IN_USE) busy_db\<rparr>"

theorem cancel_returns_host_witness:
  "fst (cancel_reservation_endpoint (3 * hour_us) (3 * hour_us) 1 (sample_user 2 ''user'') busy_world) = Inr ()
   \<and> map_option h_status (get_host (w_db (snd (cancel_reservation_endpoint (3 * hour_us) (3 * hour_us) 1
       (sample_user 2 ''user'') busy_world))) 7) = Some IDLE"
proof -
  have db: "w_db busy_world = save_host (sample_host 7 IN_USE) busy_db" by (simp add: busy_world_def)
  have wf: "wf_db (w_db busy_world)" unfolding db
    by (rule wf_save_host [OF wf_busy_db, of _ "sample_host 7 IDLE"]) (simp_all add: sample_defs get_host_def row_simps)
  have g: "get_reservation (sample_user 2 ''user'') 1 (w_db busy_world)
      = Inr (sample_reservation 1 2 7 (2 * hour_us) (4 * hour_us))" unfolding db by code_simp
  have h: "get_host (w_db busy_world) (r_host_id (sample_reservation 1 2 7 (2 * hour_us) (4 * hour_us)))
      = Some (sample_host 7 IN_USE)" unfolding db by code_simp
  have o: "h_id (sample_host 7 IN_USE) = 7" "h_status (sample_host 7 IN_USE) = IN_USE" by code_simp+
  have "\<not> (\<exists>r \<in> set (db_reservations (w_db busy_world)). r_id r \<noteq> 1 \<and> r_host_id r = 7
      \<and> r_status r = CONFIRMED \<and> range_contains (r_time_range r) (3 * hour_us))" unfolding db by code_simp
  with cancel_returns_host [OF wf g h, of "3 * hour_us" "3 * hour_us" 7] o show ?thesis by simp
qed

end
