(* ===== verification/Instant_Facts.thy ===== *)
theory Instant_Facts
  imports Route_Facts Status_Facts
begin

text \<open>
  Immediate use in the reachable states: the bounds of every reservation are whole seconds, because
  the grid is checked on the wall clock and offsets are whole minutes, and an instant use starts and
  ends on whole seconds.  With this invariant every host that is offered for immediate use can be had.
\<close>

subsection \<open>Whole seconds\<close>

lemma grid_aligned_second:
  assumes "require_aligned field dt slot = Inr u"
  shows "instant_of dt mod sec_us = 0"
proof -
  have "second (dt_wall dt) = 0 \<and> microsecond (dt_wall dt) = 0"
    using assms by (auto simp: require_aligned_def is_grid_aligned_def Let_def split: sum.splits bool.splits if_splits)
  then have "min_us dvd dt_wall dt" by (simp add: second_microsecond_zero_iff mod_eq_0_iff_dvd)
  then have "min_us dvd instant_of dt" by (auto simp: instant_of_def split: option.split)
  then have "sec_us dvd instant_of dt" by (rule dvd_trans [rotated]) simp
  then show ?thesis by (simp add: mod_eq_0_iff_dvd)
qed

lemma window_aligned_second:
  "validate_window cfg now s e = Inr u \<Longrightarrow> instant_of s mod sec_us = 0 \<and> instant_of e mod sec_us = 0"
  by (auto simp: validate_window_def Let_def dest: grid_aligned_second split: sum.splits if_splits)

lemma instant_aligned_second:
  assumes "second_aligned (db_reservations d)" and "instant_window now (next_reservation_start d hid now) = (s, e)"
  shows "s mod sec_us = 0 \<and> e mod sec_us = 0"
proof -
  have b: "s mod sec_us = 0" "next_reservation_start d hid now = Some e \<or> e mod (30 * min_us) = 0"
    using instant_window_bounds [of now d hid] assms(2) by (auto split: if_splits)
  have "e mod sec_us = 0" if n: "next_reservation_start d hid now = Some e"
  proof -
    from next_reservation_start_Some(2) [OF n] obtain r
      where r: "r \<in> set (db_reservations d)" "range_lower (r_time_range r) = Some e" by blast
    then obtain u where "r_time_range r = TimeRange e u" by (cases "r_time_range r") auto
    with r(1) assms(1) show ?thesis unfolding second_aligned_def by blast
  qed
  moreover have "e mod sec_us = 0" if "e mod (30 * min_us) = 0"
    using that mod_mod_cancel [of sec_us "30 * min_us" e] by simp
  ultimately show ?thesis using b by blast
qed

lemma second_aligned_book:
  assumes "book_row nid created usr hid s e extra d = Inr (r, d')" "instant_of s < instant_of e"
    and "second_aligned (db_reservations d)" and "instant_of s mod sec_us = 0 \<and> instant_of e mod sec_us = 0"
  shows "second_aligned (db_reservations d')"
  using assms(3,4) book_row_Inr(1,2) [OF assms(1,2)] by (auto simp: second_aligned_def booked_def)

lemma create_aligned:
  assumes "second_aligned (db_reservations (w_db w))"
  shows "second_aligned (db_reservations (w_db (snd (create_reservation_endpoint cfg now1 now2 nid created usr p w))))"
proof (cases "create_reservation cfg now1 now2 nid created usr (rc_host_id p) (rc_starts_at p) (rc_ends_at p) (w_db w)")
  case (Inr x)
  obtain r d where x: "x = (r, d)" by (cases x)
  note c = create_reservation_InrD [OF Inr [unfolded x]]
  show ?thesis using Inr x second_aligned_book [OF c(1,4) assms window_aligned_second [OF c(2)]] assms
    by (simp add: create_reservation_endpoint_def)
qed (simp add: create_reservation_endpoint_def assms)

lemma instant_route_aligned:
  assumes "second_aligned (db_reservations (w_db w))"
  shows "second_aligned (db_reservations (w_db
    (snd (instant_reservation_endpoint sha cfg clk nid created raw tid usr hid w))))"
proof (cases "create_instant_reservation cfg (ic_now clk) (ic_quota clk) nid created usr hid (w_db w)")
  case (Inr x)
  obtain r d1 where x: "x = (r, d1)" by (cases x)
  from Inr [unfolded x] have "second_aligned (db_reservations d1)"
  proof (rule create_instant_InrD)
    fix s e
    assume b: "book_row nid created usr hid (at_utc s) (at_utc e) [(''instant'', JBool True)] (w_db w) = Inr (r, d1)"
      and win: "instant_window (ic_now clk) (next_reservation_start (w_db w) hid (ic_now clk)) = (s, e)"
    show ?thesis
      by (rule second_aligned_book [OF b _ assms])
        (use instant_window_proper(3) [OF win] instant_aligned_second [OF assms win] in simp_all)
  qed
  with assms Inr x show ?thesis
    by (auto simp: instant_reservation_endpoint_def dest!: transition_host_frame(2) issue_response_rows
        split: prod.split sum.split option.split)
qed (simp add: instant_reservation_endpoint_def assms)

lemma cancel_aligned:
  assumes "second_aligned (db_reservations (w_db w))"
  shows "second_aligned (db_reservations (w_db (snd (cancel_reservation_endpoint cn now rid usr w))))"
proof (cases "cancel_reservation cn usr rid (w_db w)")
  case (Inr x)
  obtain r d1 where x: "x = (r, d1)" by (cases x)
  have "second_aligned (db_reservations (cancel_row rid cn (w_db w)))"
    using assms by (auto simp: second_aligned_def cancel_row_def elim!: in_update_whereE split: if_splits)
  then have "second_aligned (db_reservations d1)"
    using cancel_reservation_rows [OF Inr [unfolded x]] assms by auto
  then show ?thesis by (auto simp: cancel_reservation_endpoint_def Inr x split: option.split)
qed (simp add: cancel_reservation_endpoint_def assms)

definition aligned_state :: "system \<Rightarrow> bool" where
  "aligned_state s \<longleftrightarrow> second_aligned (db_reservations (w_db (snd s)))"

lemma aligned_state_step: "aligned_state s \<Longrightarrow> system_step sha cfg s s' \<Longrightarrow> aligned_state s'"
  by (cases s, cases s', simp, erule system_stepE)
    (auto simp: aligned_state_def create_aligned instant_route_aligned cancel_aligned route_frames with_broker_def)

interpretation aligned_system: invariant_system system_start "system_step sha cfg" aligned_state
  for sha cfg
  by unfold_locales (simp add: system_start_def aligned_state_def second_aligned_def empty_db_def, rule aligned_state_step)

lemma reach_regular:
  assumes "reach system_start (system_step sha cfg) (t, w)"
  shows "second_aligned (db_reservations (w_db w))" "completed_started now (db_reservations (w_db w))"
  using aligned_system.inv_reach [OF assms] reach_open_statuses [OF assms]
  by (auto simp: aligned_state_def completed_started_def open_or_cancelled_def) force

subsection \<open>Immediate use\<close>

text \<open>C32: In every reachable state the list of hosts for immediate use keeps its promise: every host it
  offers can be booked at that moment by any user with quota left, and the reservation ends exactly at
  the advertised time.\<close>
theorem advertised_host_is_bookable:
  assumes "reach system_start (system_step sha cfg) (t, w)"
    and "(h, until) \<in> set (list_instant_available_hosts now (w_db w))"
    and "is_ok (validate_quota cfg now2 (w_db w) usr (at_utc (now - now mod sec_us)) (at_utc until))"
    and "u_id usr \<in> u_id ` set (db_users (w_db w))" and "nid \<notin> r_id ` set (db_reservations (w_db w))"
    and "in_bits 32 (h_id h)"
  shows "yields (create_instant_reservation cfg now now2 nid created usr (h_id h) (w_db w)) (\<lambda>r d'.
           r_time_range r = TimeRange (now - now mod sec_us) until)"
  by (rule advertised_host_books [OF reach_wf [OF assms(1)] assms(2) reach_regular [OF assms(1)] assms(3-6)])

text \<open>C17: One request turns an idle host into a running session: in every reachable state, if the host is
  idle and unreserved now and the quotas allow it, the instant route answers with a secret, the host
  is in use at once, and the secret is accepted until the reservation ends.\<close>
theorem instant_use_end_to_end:
  assumes "reach system_start (system_step sha cfg) (t0, w)"
    and "0 < hid" and "get_host (w_db w) hid = Some h" and "h_status h = IDLE" and "\<not> covered (w_db w) hid (ic_now clk)"
    and "instant_window (ic_now clk) (next_reservation_start (w_db w) hid (ic_now clk)) = (s, e)"
    and "is_ok (validate_quota cfg (ic_quota clk) (w_db w) usr (at_utc s) (at_utc e))"
    and "u_id usr \<in> u_id ` set (db_users (w_db w))" and "nid \<notin> r_id ` set (db_reservations (w_db w))"
    and "tid \<notin> t_id ` set (db_tokens (w_db w))" and "sha raw \<notin> t_jti ` set (db_tokens (w_db w))" and "raw \<noteq> ''''"
    and "0 \<le> connect_token_grace_seconds cfg" and "ic_now clk \<le> ic_issue clk" and "ic_issue clk < e"
    and "in_bits 32 hid"
  shows "\<exists>resp w'. instant_reservation_endpoint sha cfg clk nid created raw tid usr hid w = (Inr resp, w')
    \<and> ct_token resp = raw \<and> ct_reservation_id resp = nid \<and> ct_expires_at resp = e
    \<and> map_option h_status (get_host (w_db w') hid) = Some IN_USE
    \<and> (verify_connect_token sha t raw (w_db w') \<noteq> None \<longleftrightarrow> t < e)"
  by (rule instant_use_connects) (rule assms(2-) reach_wf [OF assms(1)] reach_regular [OF assms(1)])+

lemma run_alive_reach: "reach system_start (system_step (\<lambda>s. s) default_settings) (0, run_alive)"
  unfolding run_alive_def by (rule reach_step [OF run_reach(1) Heartbeat]) (simp add: clocked_def)

lemma run_alive_facts:
  "is_ok (validate_quota default_settings 0 (w_db run_alive) run_user (at_utc 0) (at_utc hour_us))"
  "u_id run_user \<in> u_id ` set (db_users (w_db run_alive))" "2 \<notin> r_id ` set (db_reservations (w_db run_alive))"
  "9 \<notin> t_id ` set (db_tokens (w_db run_alive))" "(\<lambda>s. s) ''secret'' \<notin> t_jti ` set (db_tokens (w_db run_alive))"
  by code_simp+

theorem advertised_host_is_bookable_witness:
  "yields (create_instant_reservation default_settings 0 0 2 0 run_user 1 (w_db run_alive))
     (\<lambda>r d'. r_time_range r = TimeRange 0 hour_us)"
proof -
  have "map (\<lambda>(h, u). (h_id h, u)) (list_instant_available_hosts 0 (w_db run_alive)) = [(1, hour_us)]" by code_simp
  then obtain h where h: "h_id h = 1" "list_instant_available_hosts 0 (w_db run_alive) = [(h, hour_us)]"
    by (auto simp: map_eq_Cons_conv)
  have "(h, hour_us) \<in> set (list_instant_available_hosts 0 (w_db run_alive))" by (simp add: h(2))
  from advertised_host_is_bookable [OF run_alive_reach this, of 0 run_user 2 0] run_alive_facts(1-3) show ?thesis
    by (simp add: h(1))
qed

theorem instant_use_end_to_end_witness:
  "\<exists>resp w'. instant_reservation_endpoint (\<lambda>s. s) default_settings idle_clock 2 0 ''secret'' 9 run_user 1 run_alive
      = (Inr resp, w') \<and> ct_expires_at resp = hour_us
    \<and> map_option h_status (get_host (w_db w') 1) = Some IN_USE
    \<and> verify_connect_token (\<lambda>s. s) min_us ''secret'' (w_db w') \<noteq> None"
proof -
  have "map_option h_status (get_host (w_db run_alive) 1) = Some IDLE" by code_simp
  then obtain h where h: "get_host (w_db run_alive) 1 = Some h" "h_status h = IDLE" by auto
  have "map r_time_range (db_reservations (w_db run_alive)) = [TimeRange hour_us (2 * hour_us)]" by code_simp
  then have cov: "\<not> covered (w_db run_alive) 1 (ic_now idle_clock)"
    by (auto simp: covered_def map_eq_Cons_conv idle_clock_def)
  have win: "instant_window (ic_now idle_clock) (next_reservation_start (w_db run_alive) 1 (ic_now idle_clock)) = (0, hour_us)"
    by code_simp
  have q: "is_ok (validate_quota default_settings (ic_quota idle_clock) (w_db run_alive) run_user (at_utc 0) (at_utc hour_us))"
    using run_alive_facts(1) by (simp add: idle_clock_def)
  have g: "0 \<le> connect_token_grace_seconds default_settings" by (simp add: default_settings_def)
  have c: "ic_now idle_clock \<le> ic_issue idle_clock" "ic_issue idle_clock < hour_us" "0 < (1 :: int)" "''secret'' \<noteq> ''''"
    by (simp_all add: idle_clock_def)
  from instant_use_end_to_end [OF run_alive_reach c(3) h cov win q run_alive_facts(2-5) c(4) g c(1,2) in_bits_numeral(1), of 0 min_us]
  obtain resp w' where r: "instant_reservation_endpoint (\<lambda>s. s) default_settings idle_clock 2 0 ''secret'' 9 run_user 1
        run_alive = (Inr resp, w')" "ct_expires_at resp = hour_us" "map_option h_status (get_host (w_db w') 1) = Some IN_USE"
    "verify_connect_token (\<lambda>s. s) min_us ''secret'' (w_db w') \<noteq> None \<longleftrightarrow> min_us < hour_us" by blast
  have "min_us < hour_us" by simp
  with r(4) have "verify_connect_token (\<lambda>s. s) min_us ''secret'' (w_db w') \<noteq> None" by (rule iffD2)
  with r(1-3) show ?thesis by blast
qed

end
