(* ===== verification/Lifecycle.thy ===== *)
theory Lifecycle
  imports Web
begin

text \<open>
  The application around its routes: the engine and the session factory (\<open>infra/db.py\<close>), start-up
  and shutdown (\<open>lifespan\<close> and \<open>create_app\<close> of \<open>main.py\<close>), the health, version and event
  stream routes (\<open>api/v1/health.py\<close>, \<open>meta.py\<close>, \<open>host_events.py\<close>) and the stack of
  middleware with its access log (\<open>core/middleware.py\<close>).
\<close>

subsection \<open>Engine and session factory\<close>

text \<open>Engines are numbered in the order in which they are built; a factory is bound to one, or is the
  one a test has put in place.\<close>

datatype session_factory = BoundTo nat | Replaced

record db_globals =
  dg_engine :: "nat option"
  dg_session_factory :: "session_factory option"
  dg_built :: nat

definition no_engine :: db_globals where
  "no_engine = \<lparr>dg_engine = None, dg_session_factory = None, dg_built = 0\<rparr>"

definition get_engine :: "db_globals \<Rightarrow> nat \<times> db_globals" where
  "get_engine g =
     (case dg_engine g of
        Some e \<Rightarrow> (e, g)
      | None \<Rightarrow> (dg_built g, g\<lparr>dg_engine := Some (dg_built g), dg_built := dg_built g + 1\<rparr>))"

definition get_session_factory :: "db_globals \<Rightarrow> session_factory \<times> db_globals" where
  "get_session_factory g =
     (case dg_session_factory g of
        Some f \<Rightarrow> (f, g)
      | None \<Rightarrow> (case get_engine g of (e, g1) \<Rightarrow> (BoundTo e, g1\<lparr>dg_session_factory := Some (BoundTo e)\<rparr>)))"

definition set_session_factory :: "session_factory \<Rightarrow> db_globals \<Rightarrow> db_globals" where
  "set_session_factory f g = g\<lparr>dg_session_factory := Some f\<rparr>"

definition dispose_engine :: "db_globals \<Rightarrow> db_globals" where
  "dispose_engine g = (if dg_engine g = None then g else g\<lparr>dg_engine := None, dg_session_factory := None\<rparr>)"

text \<open>A factory is bound to the engine in use.\<close>

definition globals_ok :: "db_globals \<Rightarrow> bool" where
  "globals_ok g \<longleftrightarrow> (\<forall>e. dg_session_factory g = Some (BoundTo e) \<longrightarrow> dg_engine g = Some e)
     \<and> (\<forall>e. dg_engine g = Some e \<longrightarrow> e < dg_built g)"

lemma globals_ok_steps:
  assumes "globals_ok g"
  shows "globals_ok (snd (get_engine g))" "globals_ok (snd (get_session_factory g))" "globals_ok (dispose_engine g)"
    "globals_ok (set_session_factory Replaced g)"
  using assms by (auto simp: globals_ok_def get_engine_def get_session_factory_def dispose_engine_def
      set_session_factory_def split: option.splits)

lemma factory_stable:
  "fst (get_session_factory (snd (get_session_factory g))) = fst (get_session_factory g)"
  by (auto simp: get_session_factory_def get_engine_def split: option.split)

text \<open>After a disposal sessions come from a new engine, never from the old one.\<close>

lemma factory_fresh_after_dispose:
  assumes "globals_ok g" "dg_engine g = Some e"
  shows "fst (get_session_factory (dispose_engine g)) = BoundTo (dg_built g) \<and> e < dg_built g"
  using assms by (simp add: globals_ok_def dispose_engine_def get_session_factory_def get_engine_def)

subsection \<open>Start-up and shutdown\<close>

datatype task_state = TaskRunning | TaskFinished | TaskCancelled

record app_state =
  as_broker :: event_broker
  as_monitor_stop :: bool
  as_monitor :: task_state
  as_globals :: db_globals

definition lifespan_startup :: "settings \<Rightarrow> db_globals \<Rightarrow> boot_error + app_state" where
  "lifespan_startup cfg g =
     (case enforce_production_guards cfg of
        Inl err \<Rightarrow> Inl err
      | Inr _ \<Rightarrow>
          Inr \<lparr>as_broker = new_broker, as_monitor_stop = False, as_monitor = TaskRunning, as_globals = g\<rparr>)"

text \<open>\<open>wait_for(monitor_task, timeout=5.0)\<close>: the monitor sees the event and ends, or it does not end
  in time or is cancelled.  The tick it may be in the middle of publishes its events before the broker is closed:
  \<open>last_events\<close>.\<close>

definition lifespan_shutdown :: "bool \<Rightarrow> host_event list \<Rightarrow> app_state \<Rightarrow> app_state" where
  "lifespan_shutdown ends_in_time last_events a =
     (let a1 = a\<lparr>as_monitor_stop := True\<rparr>;
          a2 = a1\<lparr>as_broker := fold publish last_events (as_broker a1)\<rparr>;
          a3 = a2\<lparr>as_monitor := if ends_in_time then TaskFinished else TaskCancelled\<rparr>;
          a4 = a3\<lparr>as_broker := close_broker (as_broker a3)\<rparr> in
      a4\<lparr>as_globals := dispose_engine (as_globals a4)\<rparr>)"

text \<open>After the shutdown the monitor is stopped, nothing can be published any more, nobody is
  subscribed, and a later start finds no engine of this one.\<close>

lemma lifespan_clean:
  assumes "lifespan_startup cfg g = Inr a0" "as_globals a = snd (get_session_factory (as_globals a0))"
    and "globals_ok g" "dg_session_factory g \<noteq> Some Replaced"
  shows "as_monitor (lifespan_shutdown ok es a) \<noteq> TaskRunning"
    "publish e (as_broker (lifespan_shutdown ok es a)) = as_broker (lifespan_shutdown ok es a)"
    "subscriber_count (as_broker (lifespan_shutdown ok es a)) = 0"
    "dg_engine (as_globals (lifespan_shutdown ok es a)) = None"
    "dg_session_factory (as_globals (lifespan_shutdown ok es a)) = None"
  using assms
  by (auto simp: lifespan_startup_def lifespan_shutdown_def Let_def close_broker_def subscriber_count_def
      dispose_engine_def get_session_factory_def get_engine_def globals_ok_def split: sum.splits option.splits)
    (metis session_factory.exhaust)

text \<open>\<open>create_app\<close>: the order in which a request meets the middleware is the reverse of the order in
  which it is added.\<close>

datatype middleware = Cors "string list" | AccessLog | AuthSession | RequestId

record app_config =
  ap_version :: string
  ap_docs_url :: "string option"
  ap_redoc_url :: "string option"
  ap_openapi_url :: "string option"
  ap_middleware :: "middleware list"

definition docs_path :: "settings \<Rightarrow> string \<Rightarrow> string option" where
  "docs_path cfg path = (if expose_docs cfg then Some path else None)"

definition create_app :: "settings \<Rightarrow> app_config" where
  "create_app cfg =
     \<lparr>ap_version = app_version cfg, ap_docs_url = docs_path cfg ''/docs'', ap_redoc_url = docs_path cfg ''/redoc'',
      ap_openapi_url = docs_path cfg ''/openapi.json'',
      ap_middleware = rev [Cors (cors_origins cfg), AccessLog, AuthSession, RequestId]\<rparr>"

subsection \<open>Health and version\<close>

text \<open>The query either works or raises an exception of the named type.\<close>

definition healthz :: "int \<times> json" where
  "healthz = (200, JObj [(''status'', JStr ''ok'')])"

definition readyz :: "string option \<Rightarrow> int \<times> json" where
  "readyz query_error =
     (case query_error of
        Some type_name \<Rightarrow> (503, JObj [(''status'', JStr ''not_ready''),
          (''checks'', JObj [(''db'', JStr (''fail: '' @ type_name))])])
      | None \<Rightarrow> (200, JObj [(''status'', JStr ''ready''), (''checks'', JObj [(''db'', JStr ''ok'')])]))"

definition app_env_name :: "app_env \<Rightarrow> string" where
  "app_env_name e = (case e of Development \<Rightarrow> ''development'' | Staging \<Rightarrow> ''staging''
     | Production \<Rightarrow> ''production'' | Test \<Rightarrow> ''test'')"

definition version :: "settings \<Rightarrow> json" where
  "version cfg = JObj [(''version'', JStr (app_version cfg)), (''env'', JStr (app_env_name (app_env cfg)))]"

subsection \<open>The stream of host events\<close>

text \<open>A chunk: the kind of the event and the event that is its data (\<open>None\<close> for the empty object of
  the first chunk).\<close>

record chunk =
  ck_kind :: string
  ck_data :: "host_event option"

definition ready_chunk :: chunk where
  "ready_chunk = \<lparr>ck_kind = ''ready'', ck_data = None\<rparr>"

definition event_chunk :: "host_event \<Rightarrow> chunk" where
  "event_chunk e = \<lparr>ck_kind = ev_event e, ck_data = Some e\<rparr>"

text \<open>The generator after its first chunk: it takes the events that are in its queue, until one arrives
  after the client has gone (\<open>gone\<close> counts the chunks sent).  \<open>fuel\<close> bounds the events it takes; the
  length of the queue is enough to empty it.  The result is what was sent, whether it has ended,
  and the broker.\<close>

fun drain_stream :: "nat \<Rightarrow> (nat \<Rightarrow> bool) \<Rightarrow> nat \<Rightarrow> nat \<Rightarrow> event_broker \<Rightarrow> chunk list \<times> bool \<times> event_broker" where
  "drain_stream 0 gone i sent b = ([], False, b)"
| "drain_stream (Suc fuel) gone i sent b =
     (case next_event i b of
        None \<Rightarrow> ([], False, b)
      | Some (e, b1) \<Rightarrow>
          if gone sent then ([], True, unsubscribe i b1)
          else (case drain_stream fuel gone i (sent + 1) b1 of (cs, ended, b2) \<Rightarrow> (event_chunk e # cs, ended, b2)))"

text \<open>Opening the stream: only for administrators.  The answer starts with the ready chunk; the generator
  subscribes when it is resumed after that, in a step of its own.\<close>

definition stream_host_events :: "settings \<Rightarrow> user option \<Rightarrow> app_error + (chunk \<times> (event_broker \<Rightarrow> nat \<times> event_broker))" where
  "stream_host_events cfg state_user =
     (case require_admin cfg state_user of
        Inl err \<Rightarrow> Inl err
      | Inr _ \<Rightarrow> Inr (ready_chunk, subscribe))"

lemma drain_queue:
  assumes "\<And>k. \<not> gone k" "length (eb_queues b i) \<le> fuel"
  shows "fst (drain_stream fuel gone i sent b) = map event_chunk (eb_queues b i)
    \<and> fst (snd (drain_stream fuel gone i sent b)) = False
    \<and> eb_queues (snd (snd (drain_stream fuel gone i sent b))) i = []
    \<and> eb_subscribers (snd (snd (drain_stream fuel gone i sent b))) = eb_subscribers b"
  using assms(2)
proof (induction fuel arbitrary: sent b)
  case (Suc fuel)
  show ?case
  proof (cases "eb_queues b i")
    case Nil
    then show ?thesis by (simp add: next_event_def get_nowait_def)
  next
    case (Cons e q)
    let ?b = "b\<lparr>eb_queues := (eb_queues b)(i := q)\<rparr>"
    have "next_event i b = Some (e, ?b)" by (simp add: next_event_def get_nowait_def Cons)
    then show ?thesis using Suc.IH [of ?b "sent + 1"] Suc.prems assms(1) [of sent] Cons
      by (simp add: split_beta)
  qed
qed simp


definition sample_admin :: user where
  "sample_admin = \<lparr>u_id = 1, u_external_id = ''x'', u_provider = ''mock'', u_display_name = ''Kim'', u_email = None,
     u_role = ''admin'', u_is_active = True\<rparr>"


end
