(* ===== verification/Application.thy ===== *)
theory Application
  imports Instant_Facts Session_Facts Lifecycle
begin

text \<open>
  The routes assembled: the table of \<open>api/v1/router.py\<close> and of the decorators of the route modules,
  and what the application does with a request, from the session cookie over the dependencies of
  its route to the handler.  How a path template is matched is the framework's: an argument, of
  which the documented behaviour is assumed where it matters.
\<close>

subsection \<open>The table of routes\<close>

datatype http_method = GET | POST | PUT | DELETE

datatype endpoint =
  Version | Mock_login_form | Mock_callback | Logout_route | Me
| Create_reservation | Instant_reservation | List_reservations | Calendar_matrix | Get_reservation
| Cancel_reservation | Connect_token | Verify_token | Pairing_route | List_hosts | List_available_hosts
| Create_host | Rotate_agent_token | Set_sunshine_token | Heartbeat_route | Stream_host_events
| Healthz | Readyz

datatype path_part = Lit string | Param string

text \<open>A route with the status code of its answer; a template is the list of its parts.\<close>

record route =
  rt_method :: http_method
  rt_path :: "path_part list"
  rt_endpoint :: endpoint
  rt_status :: int

definition route :: "http_method \<Rightarrow> path_part list \<Rightarrow> endpoint \<Rightarrow> int \<Rightarrow> route" where
  "route m p e c = \<lparr>rt_method = m, rt_path = p, rt_endpoint = e, rt_status = c\<rparr>"

definition meta_router :: "route list" where
  "meta_router = [route GET [Lit ''version''] Version 200]"

definition auth_router :: "route list" where
  "auth_router =
     [route GET [Lit ''mock'', Lit ''login''] Mock_login_form 200,
      route POST [Lit ''mock'', Lit ''callback''] Mock_callback 200,
      route POST [Lit ''logout''] Logout_route 200,
      route GET [Lit ''me''] Me 200]"

definition reservations_router :: "route list" where
  "reservations_router =
     [route POST [] Create_reservation 201,
      route POST [Lit ''instant''] Instant_reservation 201,
      route GET [] List_reservations 200,
      route GET [Lit ''calendar''] Calendar_matrix 200,
      route GET [Param ''reservation_id''] Get_reservation 200,
      route DELETE [Param ''reservation_id''] Cancel_reservation 204,
      route POST [Param ''reservation_id'', Lit ''connect''] Connect_token 201]"

definition tokens_router :: "route list" where
  "tokens_router = [route POST [Lit ''verify''] Verify_token 200]"

definition pairing_router :: "route list" where
  "pairing_router = [route POST [] Pairing_route 200]"

definition hosts_router :: "route list" where
  "hosts_router =
     [route GET [] List_hosts 200,
      route GET [Lit ''available''] List_available_hosts 200,
      route POST [] Create_host 201,
      route POST [Param ''host_id'', Lit ''agent-token''] Rotate_agent_token 200,
      route PUT [Param ''host_id'', Lit ''sunshine-token''] Set_sunshine_token 200]"

definition agents_router :: "route list" where
  "agents_router = [route POST [Lit ''heartbeat''] Heartbeat_route 200]"

definition host_events_router :: "route list" where
  "host_events_router = [route GET [Lit ''hosts''] Stream_host_events 200]"

definition health_router :: "route list" where
  "health_router = [route GET [Lit ''healthz''] Healthz 200, route GET [Lit ''readyz''] Readyz 200]"

definition include_router :: "path_part list \<Rightarrow> route list \<Rightarrow> route list" where
  "include_router prefix rs = map (\<lambda>r. r\<lparr>rt_path := prefix @ rt_path r\<rparr>) rs"

definition api_router :: "route list" where
  "api_router =
     include_router [] meta_router
     @ include_router [Lit ''auth''] auth_router
     @ include_router [Lit ''reservations''] reservations_router
     @ include_router [Lit ''tokens''] tokens_router
     @ include_router [Lit ''pairing''] pairing_router
     @ include_router [Lit ''hosts''] hosts_router
     @ include_router [Lit ''agents''] agents_router
     @ include_router [Lit ''events''] host_events_router"

definition app_routes :: "route list" where
  "app_routes = include_router [Lit ''api'', Lit ''v1''] api_router @ include_router [] health_router"

text \<open>The first route that matches method and path answers.\<close>

definition resolve :: "(path_part list \<Rightarrow> string list \<Rightarrow> bool) \<Rightarrow> http_method \<Rightarrow> string list \<Rightarrow> route option" where
  "resolve matches m path = find (\<lambda>r. rt_method r = m \<and> matches (rt_path r) path) app_routes"

text \<open>The documented behaviour of the matching: part by part, a literal matches itself and a parameter any
  part that is not empty.\<close>

definition part_matches :: "path_part \<Rightarrow> string \<Rightarrow> bool" where
  "part_matches p s \<longleftrightarrow> (case p of Lit l \<Rightarrow> s = l | Param _ \<Rightarrow> s \<noteq> '''')"

definition matches_parts :: "(path_part list \<Rightarrow> string list \<Rightarrow> bool) \<Rightarrow> bool" where
  "matches_parts matches \<longleftrightarrow> (\<forall>tmpl path. matches tmpl path \<longleftrightarrow> list_all2 part_matches tmpl path)"

text \<open>The path of a route with numbers for its parameters.\<close>

definition numeric :: "string \<Rightarrow> bool" where
  "numeric s \<longleftrightarrow> s \<noteq> '''' \<and> (\<forall>c \<in> set s. is_digit c)"

definition path_of :: "string \<Rightarrow> path_part list \<Rightarrow> string list" where
  "path_of i tmpl = map (\<lambda>p. case p of Lit l \<Rightarrow> l | Param _ \<Rightarrow> i) tmpl"

text \<open>Whether a template also matches the paths of another one, when no literal is a number.\<close>

fun covers :: "path_part list \<Rightarrow> path_part list \<Rightarrow> bool" where
  "covers [] [] \<longleftrightarrow> True"
| "covers (Lit l # ps) (Lit k # qs) \<longleftrightarrow> l = k \<and> covers ps qs"
| "covers (Param _ # ps) (Lit k # qs) \<longleftrightarrow> k \<noteq> '''' \<and> covers ps qs"
| "covers (Param _ # ps) (Param _ # qs) \<longleftrightarrow> covers ps qs"
| "covers _ _ \<longleftrightarrow> False"

fun no_number :: "path_part \<Rightarrow> bool" where
  "no_number (Lit l) \<longleftrightarrow> \<not> numeric l"
| "no_number (Param _) \<longleftrightarrow> True"

lemma covers_iff:
  "list_all no_number tmpl \<Longrightarrow> numeric i \<Longrightarrow> list_all2 part_matches tmpl (path_of i tmpl') \<longleftrightarrow> covers tmpl tmpl'"
  by (induction tmpl tmpl' rule: covers.induct) (auto simp: path_of_def part_matches_def numeric_def)

lemma routes_distinct:
  "list_all (\<lambda>r. find (\<lambda>q. rt_method q = rt_method r \<and> covers (rt_path q) (rt_path r)) app_routes = Some r) app_routes"
  "list_all (\<lambda>r. list_all no_number (rt_path r)) app_routes"
  by code_simp+

text \<open>C27: Every route is reachable under its own path: whatever number stands for its parameter, the request is
  answered by it and by no route declared earlier.\<close>
theorem every_route_resolves:
  assumes "matches_parts matches" and "r \<in> set app_routes" and "numeric i"
  shows "resolve matches (rt_method r) (path_of i (rt_path r)) = Some r"
proof -
  have "matches (rt_path q) (path_of i (rt_path r)) \<longleftrightarrow> covers (rt_path q) (rt_path r)" if "q \<in> set app_routes" for q
    using assms(1) covers_iff [OF _ assms(3)] routes_distinct(2) that by (simp add: matches_parts_def list_all_iff)
  then have "resolve matches (rt_method r) (path_of i (rt_path r))
      = find (\<lambda>q. rt_method q = rt_method r \<and> covers (rt_path q) (rt_path r)) app_routes"
    unfolding resolve_def by (intro find_cong) auto
  with routes_distinct(1) assms(2) show ?thesis by (simp add: list_all_iff)
qed

lemma matching_exists: "matches_parts (list_all2 part_matches)"
  by (simp add: matches_parts_def)

theorem every_route_resolves_witness:
  "map_option rt_endpoint (resolve (list_all2 part_matches) GET [''api'', ''v1'', ''reservations'', ''7''])
     = Some Get_reservation"
proof -
  let ?r = "route GET [Lit ''api'', Lit ''v1'', Lit ''reservations'', Param ''reservation_id''] Get_reservation 200"
  have "?r \<in> set app_routes"
    by (simp add: app_routes_def api_router_def include_router_def reservations_router_def route_def)
  moreover have "numeric ''7''" by (simp add: numeric_def is_digit_def)
  ultimately have "resolve (list_all2 part_matches) (rt_method ?r) (path_of ''7'' (rt_path ?r)) = Some ?r"
    by (rule every_route_resolves [OF matching_exists])
  then show ?thesis by (simp add: route_def path_of_def)
qed

subsection \<open>Requests\<close>

text \<open>What the framework hands to a handler: the parsed parameters and body.\<close>

datatype call =
  CVersion | CHealthz | CReadyz "string option" | CLoginForm | CCallback callback_body | CLogout | CMe
| CCreate reservation_create | CInstant int
| CList "datetime option" "datetime option" "int option" "int option"
| CCalendar datetime datetime "int option" | CGet int | CCancel int | CConnect int "string option"
| CVerify token_verify_request | CPair pairing_request
| CHosts | CAvailable "datetime option" "datetime option" | CEnrol host_create | CRotate int
| CSunshine int string | CHeartbeat heartbeat | CStream

fun endpoint_of :: "call \<Rightarrow> endpoint" where
  "endpoint_of CVersion = Version" | "endpoint_of CHealthz = Healthz" | "endpoint_of (CReadyz _) = Readyz"
| "endpoint_of CLoginForm = Mock_login_form" | "endpoint_of (CCallback _) = Mock_callback"
| "endpoint_of CLogout = Logout_route" | "endpoint_of CMe = Me" | "endpoint_of (CCreate _) = Create_reservation"
| "endpoint_of (CInstant _) = Instant_reservation" | "endpoint_of (CList _ _ _ _) = List_reservations"
| "endpoint_of (CCalendar _ _ _) = Calendar_matrix" | "endpoint_of (CGet _) = Get_reservation"
| "endpoint_of (CCancel _) = Cancel_reservation" | "endpoint_of (CConnect _ _) = Connect_token"
| "endpoint_of (CVerify _) = Verify_token" | "endpoint_of (CPair _) = Pairing_route"
| "endpoint_of CHosts = List_hosts" | "endpoint_of (CAvailable _ _) = List_available_hosts"
| "endpoint_of (CEnrol _) = Create_host" | "endpoint_of (CRotate _) = Rotate_agent_token"
| "endpoint_of (CSunshine _ _) = Set_sunshine_token" | "endpoint_of (CHeartbeat _) = Heartbeat_route"
| "endpoint_of CStream = Stream_host_events"

definition route_of :: "endpoint \<Rightarrow> route option" where
  "route_of e = find (\<lambda>r. rt_endpoint r = e) app_routes"

definition status_of :: "endpoint \<Rightarrow> int" where
  "status_of e = (case route_of e of None \<Rightarrow> 404 | Some r \<Rightarrow> rt_status r)"

text \<open>What a request draws from its surroundings: readings of the clock, new keys, a random secret and
  the answers of the Sunshine server.\<close>

record draws =
  dw_auth :: instant
  dw_now :: instant
  dw_now2 :: instant
  dw_clock :: instant_clock
  dw_created :: instant
  dw_id :: int
  dw_token_id :: int
  dw_raw :: string
  dw_answer :: "int \<Rightarrow> http_answer"

definition draw_times :: "draws \<Rightarrow> instant list" where
  "draw_times dw = [dw_auth dw, dw_now dw, dw_now2 dw, ic_now (dw_clock dw), ic_quota (dw_clock dw),
     ic_issue (dw_clock dw), ic_revoke (dw_clock dw), ic_transition (dw_clock dw)]"

type_synonym response = "(app_error + int) \<times> world"

definition with_status :: "int \<Rightarrow> 'a answer \<Rightarrow> response" where
  "with_status code a = (map_sum id (\<lambda>_. code) (fst a), snd a)"

definition for_user :: "settings \<Rightarrow> user option \<Rightarrow> world \<Rightarrow> (user \<Rightarrow> response) \<Rightarrow> response" where
  "for_user cfg su w f = (case get_current_user cfg su of Inl err \<Rightarrow> (Inl err, w) | Inr usr \<Rightarrow> f usr)"

definition for_admin :: "settings \<Rightarrow> user option \<Rightarrow> world \<Rightarrow> (user \<Rightarrow> response) \<Rightarrow> response" where
  "for_admin cfg su w f = (case require_admin cfg su of Inl err \<Rightarrow> (Inl err, w) | Inr usr \<Rightarrow> f usr)"

definition redirects :: "login_response \<Rightarrow> bool" where
  "redirects r = (case lr_body r of LoginRedirect _ \<Rightarrow> True | LoginJson _ _ \<Rightarrow> False)"

text \<open>The event broker of the application, from its state; one is put there if start-up has not.\<close>

definition get_host_event_broker :: "event_broker option \<Rightarrow> event_broker \<times> event_broker option" where
  "get_host_event_broker attr =
     (case attr of Some b \<Rightarrow> (b, attr) | None \<Rightarrow> (new_broker, Some new_broker))"

text \<open>Every later request gets the one of the first, which after a start-up is the one of the monitor.\<close>

lemma get_host_event_broker_stable:
  "get_host_event_broker (snd (get_host_event_broker attr)) = (fst (get_host_event_broker attr), snd (get_host_event_broker attr))"
  "lifespan_startup cfg g = Inr a \<Longrightarrow> fst (get_host_event_broker (Some (as_broker a))) = as_broker a"
  by (simp_all add: get_host_event_broker_def split: option.split)

text \<open>One request: identification by the cookie, the dependencies of the route, then the handler.  \<open>None\<close>
  would be a request that is never answered; only the calendar loops.\<close>

definition handle ::
  "(string \<Rightarrow> string) \<Rightarrow> settings \<Rightarrow> draws \<Rightarrow> request \<Rightarrow> call \<Rightarrow> world \<Rightarrow> response option" where
  "handle sha cfg dw rq c w =
     (let su = session_user sha (dw_auth dw) rq (w_db w);
          ok = status_of (endpoint_of c);
          now = dw_now dw; now2 = dw_now2 dw; raw = dw_raw dw; tid = dw_token_id dw in
      case c of
        CVersion \<Rightarrow> Some (Inr ok, w)
      | CHealthz \<Rightarrow> Some (Inr ok, w)
      | CReadyz err \<Rightarrow> Some (Inr (fst (readyz err)), w)
      | CLoginForm \<Rightarrow> Some (with_status ok (mock_login_form cfg, w))
      | CCallback body \<Rightarrow>
          (case mock_callback sha cfg now (dw_id dw) raw tid rq body w of
             (Inl err, w') \<Rightarrow> Some (Inl err, w')
           | (Inr resp, w') \<Rightarrow> Some (Inr (if redirects resp then 302 else ok), w'))
      | CLogout \<Rightarrow> Some (with_status ok (logout sha cfg now rq su w))
      | CMe \<Rightarrow> Some (with_status ok (me cfg su, w))
      | CCreate p \<Rightarrow> Some (for_user cfg su w (\<lambda>usr. with_status ok
          (create_reservation_endpoint cfg now now2 (dw_id dw) (dw_created dw) usr p w)))
      | CInstant hid \<Rightarrow> Some (for_user cfg su w (\<lambda>usr. with_status ok
          (instant_reservation_endpoint sha cfg (dw_clock dw) (dw_id dw) (dw_created dw) raw tid usr hid w)))
      | CList f t hid uid \<Rightarrow> Some (for_user cfg su w (\<lambda>usr. with_status ok (list_reservations_endpoint f t hid uid usr w)))
      | CCalendar f t hid \<Rightarrow>
          (case get_current_user cfg su of
             Inl err \<Rightarrow> Some (Inl err, w)
           | Inr usr \<Rightarrow> map_option (with_status ok) (calendar_endpoint cfg f t hid usr w))
      | CGet rid \<Rightarrow> Some (for_user cfg su w (\<lambda>usr. with_status ok (get_reservation_endpoint rid usr w)))
      | CCancel rid \<Rightarrow> Some (for_user cfg su w (\<lambda>usr. with_status ok (cancel_reservation_endpoint now now2 rid usr w)))
      | CConnect rid client \<Rightarrow> Some (for_user cfg su w (\<lambda>usr. with_status ok
          (connect_token_endpoint sha cfg now now2 raw tid rid client usr w)))
      | CVerify p \<Rightarrow> Some (with_status ok (verify_token_endpoint sha cfg now now2 rq p w))
      | CPair p \<Rightarrow> Some (with_status ok (pairing_endpoint sha cfg now (dw_answer dw) p w))
      | CHosts \<Rightarrow> Some (for_user cfg su w (\<lambda>_. with_status ok (list_hosts_endpoint w)))
      | CAvailable f t \<Rightarrow> Some (for_user cfg su w (\<lambda>_. with_status ok (list_available_hosts_endpoint now f t w)))
      | CEnrol p \<Rightarrow> Some (for_admin cfg su w (\<lambda>adm. with_status ok
          (create_host_endpoint sha cfg now now2 raw (dw_id dw) tid adm p w)))
      | CRotate hid \<Rightarrow> Some (for_admin cfg su w (\<lambda>adm. with_status ok
          (rotate_agent_token_endpoint sha cfg now now2 raw tid hid adm w)))
      | CSunshine hid secret \<Rightarrow> Some (for_admin cfg su w (\<lambda>_. with_status ok (set_sunshine_token_endpoint hid secret w)))
      | CHeartbeat p \<Rightarrow> Some (with_status ok (heartbeat_endpoint sha cfg now now2 rq p w))
      | CStream \<Rightarrow> Some (with_status ok (stream_host_events cfg su, w)))"

text \<open>What goes over the wire: the status code, after the exception handlers.\<close>

definition http_status :: "request \<Rightarrow> app_error + int \<Rightarrow> int" where
  "http_status rq res =
     (case res of
        Inr code \<Rightarrow> code
      | Inl err \<Rightarrow> (case handle_error rq err of Redirect _ \<Rightarrow> 302 | JsonError r \<Rightarrow> er_status r))"

end
