(* ===== verification/Application_Facts.thy ===== *)
theory Application_Facts
  imports Application
begin

text \<open>
  What is proved of the application as a whole: its requests are steps of the broker, so that every
  reachable state of the application is one of the broker; who may change what; what a refused
  request leaves behind; that every request is answered.
\<close>

subsection \<open>The handlers and their guards\<close>

lemma with_status_simps [simp]: "snd (with_status code a) = snd a"
  "is_ok (fst (with_status code a)) = is_ok (fst a)"
  by (simp_all add: with_status_def is_ok_def split: sum.split)

subsection \<open>Requests are steps of the broker\<close>

lemma clocked_subset: "clocked t t' xs \<Longrightarrow> set ys \<subseteq> set xs \<Longrightarrow> clocked t t' ys"
  by (auto simp: clocked_def)

lemma for_user_cases: "snd (for_user cfg su w f) = w \<or> (\<exists>usr. su = Some usr \<and> for_user cfg su w f = f usr)"
  by (auto simp: for_user_def get_current_user_def split: option.split sum.split provider_error.split)

lemma for_admin_cases: "snd (for_admin cfg su w f) = w
    \<or> (\<exists>usr. su = Some usr \<and> u_role usr = ''admin'' \<and> for_admin cfg su w f = f usr)"
  by (auto simp: for_admin_def require_admin_def get_current_user_def split: option.split sum.split provider_error.split)

text \<open>The calls whose method is GET, by the table; no handler of theirs touches the state.\<close>

definition safe_call :: "call \<Rightarrow> bool" where
  "safe_call c \<longleftrightarrow> map_option rt_method (route_of (endpoint_of c)) = Some GET"

lemma safe_call_iff:
  "safe_call c \<longleftrightarrow> (case c of CCallback _ \<Rightarrow> False | CLogout \<Rightarrow> False | CCreate _ \<Rightarrow> False | CInstant _ \<Rightarrow> False
     | CCancel _ \<Rightarrow> False | CConnect _ _ \<Rightarrow> False | CVerify _ \<Rightarrow> False | CPair _ \<Rightarrow> False | CEnrol _ \<Rightarrow> False
     | CRotate _ \<Rightarrow> False | CSunshine _ _ \<Rightarrow> False | CHeartbeat _ \<Rightarrow> False | _ \<Rightarrow> True)"
proof -
  have "\<forall>e \<in> {Version, Healthz, Readyz, Mock_login_form, Me, List_reservations, Calendar_matrix, Get_reservation,
      List_hosts, List_available_hosts, Stream_host_events}. map_option rt_method (route_of e) = Some GET"
    "\<forall>e \<in> {Mock_callback, Logout_route, Create_reservation, Instant_reservation, Cancel_reservation, Connect_token,
      Verify_token, Pairing_route, Create_host, Rotate_agent_token, Set_sunshine_token, Heartbeat_route}.
      map_option rt_method (route_of e) \<noteq> Some GET"
    by code_simp+
  then show ?thesis by (cases c) (simp_all add: safe_call_def)
qed

lemma safe_call_unchanged:
  assumes "safe_call c" "handle sha cfg dw rq c w = Some (res, w')" shows "w' = w"
  using assms
  by (cases c) (auto simp: safe_call_iff handle_def Let_def with_status_def for_user_def
      list_reservations_endpoint_def get_reservation_endpoint_def list_hosts_endpoint_def calendar_endpoint_def
      list_available_hosts_endpoint_def split: sum.splits option.splits if_splits)

text \<open>The handler of a request has run, behind its guard, or nothing has happened.\<close>

lemma handle_effect:
  assumes "handle sha cfg dw rq c w = Some (res, w')" and "w' \<noteq> w"
  shows "let su = session_user sha (dw_auth dw) rq (w_db w); now = dw_now dw; now2 = dw_now2 dw;
      raw = dw_raw dw; tid = dw_token_id dw in
    case c of
      CCallback body \<Rightarrow> w' = snd (mock_callback sha cfg now (dw_id dw) raw tid rq body w)
    | CLogout \<Rightarrow> w' = snd (logout sha cfg now rq su w)
    | CCreate p \<Rightarrow> \<exists>usr. su = Some usr
        \<and> w' = snd (create_reservation_endpoint cfg now now2 (dw_id dw) (dw_created dw) usr p w)
    | CInstant hid \<Rightarrow> \<exists>usr. su = Some usr
        \<and> w' = snd (instant_reservation_endpoint sha cfg (dw_clock dw) (dw_id dw) (dw_created dw) raw tid usr hid w)
    | CCancel rid \<Rightarrow> \<exists>usr. su = Some usr \<and> w' = snd (cancel_reservation_endpoint now now2 rid usr w)
    | CConnect rid client \<Rightarrow> \<exists>usr. su = Some usr
        \<and> w' = snd (connect_token_endpoint sha cfg now now2 raw tid rid client usr w)
    | CVerify p \<Rightarrow> w' = snd (verify_token_endpoint sha cfg now now2 rq p w)
    | CPair p \<Rightarrow> w' = snd (pairing_endpoint sha cfg now (dw_answer dw) p w)
    | CEnrol p \<Rightarrow> \<exists>adm. su = Some adm \<and> u_role adm = ''admin''
        \<and> w' = snd (create_host_endpoint sha cfg now now2 raw (dw_id dw) tid adm p w)
    | CRotate hid \<Rightarrow> \<exists>adm. su = Some adm \<and> u_role adm = ''admin''
        \<and> w' = snd (rotate_agent_token_endpoint sha cfg now now2 raw tid hid adm w)
    | CSunshine hid secret \<Rightarrow> \<exists>adm. su = Some adm \<and> u_role adm = ''admin''
        \<and> w' = snd (set_sunshine_token_endpoint hid secret w)
    | CHeartbeat p \<Rightarrow> w' = snd (heartbeat_endpoint sha cfg now now2 rq p w)
    | _ \<Rightarrow> False"
proof -
  let ?su = "session_user sha (dw_auth dw) rq (w_db w)"
  have user: "\<exists>usr. ?su = Some usr \<and> w' = snd (a usr)"
    if "for_user cfg ?su w (\<lambda>usr. with_status code (a usr)) = (res, w')" for code and a :: "user \<Rightarrow> 'x answer"
    using for_user_cases [of cfg ?su w "\<lambda>usr. with_status code (a usr)"] assms(2) unfolding that by (auto simp: with_status_def)
  have admin: "\<exists>usr. ?su = Some usr \<and> u_role usr = ''admin'' \<and> w' = snd (a usr)"
    if "for_admin cfg ?su w (\<lambda>usr. with_status code (a usr)) = (res, w')" for code and a :: "user \<Rightarrow> 'x answer"
    using for_admin_cases [of cfg ?su w "\<lambda>usr. with_status code (a usr)"] assms(2) unfolding that by (auto simp: with_status_def)
  have "\<not> safe_call c" using safe_call_unchanged assms by blast
  with assms(1) show ?thesis
    by (cases c) (auto simp: safe_call_iff handle_def Let_def with_status_def [of _ "logout _ _ _ _ _ _"]
        with_status_def [of _ "verify_token_endpoint _ _ _ _ _ _ _"] with_status_def [of _ "pairing_endpoint _ _ _ _ _ _"]
        with_status_def [of _ "heartbeat_endpoint _ _ _ _ _ _ _"] dest!: user admin split: prod.splits sum.splits)
qed

lemma handle_is_step:
  assumes "handle sha cfg dw rq c w = Some (res, w')" and clk: "clocked t t' (draw_times dw)"
  shows "system_step sha cfg (t, w) (t', w')"
proof (cases "w' = w")
  case True
  then show ?thesis using clk by (auto simp: clocked_def intro: Time)
next
  case False
  have clks: "clocked t t' [dw_now dw]" "clocked t t' [dw_now dw, dw_now2 dw]" "clocked t t' []"
    "clocked t t' [ic_now (dw_clock dw), ic_quota (dw_clock dw), ic_issue (dw_clock dw), ic_revoke (dw_clock dw),
      ic_transition (dw_clock dw)]"
    using clk by (auto simp: clocked_def draw_times_def)
  from handle_effect [OF assms(1) False] show ?thesis
    by (cases c) (auto simp: Let_def intro: Login [OF clks(1)] Logout [OF clks(1)] Create [OF clks(2)] Instant [OF clks(4)]
        Cancel [OF clks(2)] Connect [OF clks(2)] Enrol [OF clks(2)] Rotate [OF clks(2)] Sunshine [OF clks(3)]
        Verify [OF clks(2)] Pair [OF clks(1)] Heartbeat [OF clks(2)])
qed

text \<open>The application: requests, and what runs beside them.\<close>

inductive app_step :: "(string \<Rightarrow> string) \<Rightarrow> settings \<Rightarrow> system \<Rightarrow> system \<Rightarrow> bool" for sha cfg where
  Request: "clocked t t' (draw_times dw) \<Longrightarrow> handle sha cfg dw rq c w = Some (res, w') \<Longrightarrow>
    app_step sha cfg (t, w) (t', w')"
| Passing: "t \<le> t' \<Longrightarrow> app_step sha cfg (t, w) (t', w)"
| Tick: "clocked t t' [now] \<Longrightarrow> app_step sha cfg (t, w) (t', monitor_step cfg now w)"
| Opened: "t \<le> t' \<Longrightarrow> app_step sha cfg (t, w) (t', with_broker (snd (subscribe (w_broker w))) w)"
| Taken: "t \<le> t' \<Longrightarrow> next_event i (w_broker w) = Some (e, b) \<Longrightarrow> app_step sha cfg (t, w) (t', with_broker b w)"
| Gone: "t \<le> t' \<Longrightarrow> app_step sha cfg (t, w) (t', with_broker (unsubscribe i (w_broker w)) w)"
| Shutdown: "t \<le> t' \<Longrightarrow> app_step sha cfg (t, w) (t', with_broker (close_broker (w_broker w)) w)"

inductive_cases app_stepE: "app_step sha cfg s s'"

lemma app_step_simulated: "app_step sha cfg s s' \<Longrightarrow> system_step sha cfg s s'"
  by (erule app_stepE) (auto intro: handle_is_step Time Monitor Subscribe Receive Unsubscribe Close)

interpretation application: simulation system_start "app_step sha cfg" system_start "system_step sha cfg" "\<lambda>s. s"
  for sha cfg
  by unfold_locales (assumption, rule app_step_simulated)


subsection \<open>Who may change what\<close>

text \<open>The credential a request must carry to have an effect.\<close>

definition authorised :: "(string \<Rightarrow> string) \<Rightarrow> settings \<Rightarrow> draws \<Rightarrow> request \<Rightarrow> call \<Rightarrow> db \<Rightarrow> bool" where
  "authorised sha cfg dw rq c d \<longleftrightarrow>
     (case c of
        CCallback _ \<Rightarrow> app_env cfg \<noteq> Production
      | CLogout \<Rightarrow> (\<exists>raw. rq_cookie rq = Some raw \<and> raw \<noteq> '''')
      | CVerify _ \<Rightarrow> rq_internal_token rq \<noteq> '''' \<and> internal_api_token cfg = Some (rq_internal_token rq)
      | CPair p \<Rightarrow> verify_connect_token sha (dw_now dw) (pr_token p) d \<noteq> None
      | CHeartbeat _ \<Rightarrow> is_ok (get_agent_host sha (dw_now dw) rq d)
      | CEnrol _ \<Rightarrow> (\<exists>u. session_user sha (dw_auth dw) rq d = Some u \<and> u_role u = ''admin'')
      | CRotate _ \<Rightarrow> (\<exists>u. session_user sha (dw_auth dw) rq d = Some u \<and> u_role u = ''admin'')
      | CSunshine _ _ \<Rightarrow> (\<exists>u. session_user sha (dw_auth dw) rq d = Some u \<and> u_role u = ''admin'')
      | CCreate _ \<Rightarrow> session_user sha (dw_auth dw) rq d \<noteq> None
      | CInstant _ \<Rightarrow> session_user sha (dw_auth dw) rq d \<noteq> None
      | CCancel _ \<Rightarrow> session_user sha (dw_auth dw) rq d \<noteq> None
      | CConnect _ _ \<Rightarrow> session_user sha (dw_auth dw) rq d \<noteq> None
      | _ \<Rightarrow> False)"

lemma internal_guardD:
  "require_internal_token cfg rq = Inr x \<Longrightarrow> rq_internal_token rq \<noteq> '''' \<and> internal_api_token cfg = Some (rq_internal_token rq)"
  using internal_guard_iff [of cfg rq] by simp


lemma own_booking:
  assumes "book_row nid created usr hid s e extra d = Inr (r, d')" "instant_of s < instant_of e" "u_id usr \<noteq> uid"
  shows "filter (\<lambda>r. r_user_id r = uid) (db_reservations d') = filter (\<lambda>r. r_user_id r = uid) (db_reservations d)"
  using book_row_Inr(1,2) [OF assms(1,2)] assms(3) by (simp add: booked_def)

lemma own_create:
  assumes "u_id usr \<noteq> uid"
  shows "filter (\<lambda>r. r_user_id r = uid) (db_reservations (w_db (snd
      (create_reservation_endpoint cfg now1 now2 nid created usr p w))))
    = filter (\<lambda>r. r_user_id r = uid) (db_reservations (w_db w))"
proof (cases "create_reservation cfg now1 now2 nid created usr (rc_host_id p) (rc_starts_at p) (rc_ends_at p) (w_db w)")
  case (Inr x)
  obtain r d where x: "x = (r, d)" by (cases x)
  note c = create_reservation_InrD [OF Inr [unfolded x]]
  show ?thesis using own_booking [OF c(1,4) assms] by (simp add: create_reservation_endpoint_def Inr x)
qed (simp add: create_reservation_endpoint_def)

lemma own_instant:
  assumes "u_id usr \<noteq> uid"
  shows "filter (\<lambda>r. r_user_id r = uid) (db_reservations (w_db (snd
      (instant_reservation_endpoint sha cfg clk nid created raw tid usr hid w))))
    = filter (\<lambda>r. r_user_id r = uid) (db_reservations (w_db w))"
proof (cases "create_instant_reservation cfg (ic_now clk) (ic_quota clk) nid created usr hid (w_db w)")
  case (Inr x)
  obtain r d1 where x: "x = (r, d1)" by (cases x)
  from Inr [unfolded x] have "filter (\<lambda>r. r_user_id r = uid) (db_reservations d1)
      = filter (\<lambda>r. r_user_id r = uid) (db_reservations (w_db w))"
  proof (rule create_instant_InrD)
    fix s e
    assume b: "book_row nid created usr hid (at_utc s) (at_utc e) [(''instant'', JBool True)] (w_db w) = Inr (r, d1)"
      and win: "instant_window (ic_now clk) (next_reservation_start (w_db w) hid (ic_now clk)) = (s, e)"
    show ?thesis by (rule own_booking [OF b _ assms]) (simp add: instant_window_proper(3) [OF win])
  qed
  with Inr x show ?thesis
    by (auto simp: instant_reservation_endpoint_def dest!: transition_host_frame(2) issue_response_rows
        split: prod.split sum.split option.split)
qed (simp add: instant_reservation_endpoint_def)

lemma filter_update_unseen:
  "(\<And>r. r \<in> set rs \<Longrightarrow> P r \<Longrightarrow> \<not> Q r \<and> \<not> Q (f r)) \<Longrightarrow> filter Q (update_where P f rs) = filter Q rs"
  by (induction rs) (auto simp: update_where_def)

lemma own_cancel:
  assumes "wf_db (w_db w)" "u_id usr \<noteq> uid" "\<not> is_admin usr"
  shows "filter (\<lambda>r. r_user_id r = uid) (db_reservations (w_db (snd (cancel_reservation_endpoint cn now rid usr w))))
    = filter (\<lambda>r. r_user_id r = uid) (db_reservations (w_db w))"
proof (cases "cancel_reservation cn usr rid (w_db w)")
  case (Inr x)
  obtain r d1 where x: "x = (r, d1)" by (cases x)
  obtain q where q: "get_reservation_row (w_db w) rid = Some q" "r_user_id q = u_id usr"
    using Inr assms(3) get_reservation_Inr [of usr rid "w_db w"]
    by (auto simp: cancel_reservation_def split: sum.splits)
  then have "r_user_id v = u_id usr" if "v \<in> set (db_reservations (w_db w))" "r_id v = rid" for v
    using assms(1) that get_reservation_rowD [OF q(1)]
    by (auto simp: wf_db_def reservations_wf_def distinct_map inj_on_def)
  then have "filter (\<lambda>r. r_user_id r = uid) (db_reservations (cancel_row rid cn (w_db w)))
      = filter (\<lambda>r. r_user_id r = uid) (db_reservations (w_db w))"
    using assms(2) by (simp add: cancel_row_def filter_update_unseen)
  then have "filter (\<lambda>r. r_user_id r = uid) (db_reservations d1) = filter (\<lambda>r. r_user_id r = uid) (db_reservations (w_db w))"
    using cancel_reservation_rows [OF Inr [unfolded x]] by auto
  then show ?thesis by (auto simp: cancel_reservation_endpoint_def Inr x split: option.split)
qed (simp add: cancel_reservation_endpoint_def)

text \<open>C2: The reservations of a user are his: no request changes them, adds one or removes one but his own and
  those of administrators, whatever route it takes and whatever ids it names.\<close>
theorem reservations_belong_to_their_user:
  assumes "handle sha cfg dw rq c w = Some (res, w')" and "wf_db (w_db w)"
    and other: "\<forall>usr. session_user sha (dw_auth dw) rq (w_db w) = Some usr \<longrightarrow> u_id usr \<noteq> uid \<and> u_role usr \<noteq> ''admin''"
  shows "filter (\<lambda>r. r_user_id r = uid) (db_reservations (w_db w'))
    = filter (\<lambda>r. r_user_id r = uid) (db_reservations (w_db w))"
proof (cases "w' = w")
  case False
  from handle_effect [OF assms(1) False] other assms(2) show ?thesis
    by (cases c) (auto simp: Let_def is_admin_def login_frame logout_frame own_create own_instant own_cancel connect_frame
        verify_frame pair_frame heartbeat_frame)
qed simp

text \<open>Every request is answered, the calendar's too, as long as slots have a positive length.\<close>

lemma every_request_answered:
  assumes "0 < reservation_slot_minutes cfg" shows "handle sha cfg dw rq c w \<noteq> None"
proof -
  have "build_calendar_matrix cfg f t hid usr d \<noteq> None" for f t hid usr d
    using assms by (auto simp: build_calendar_matrix_def Let_def occupy_all_eq emit_hosts_eq split: sum.split bool.split)
  then show ?thesis
    by (cases c) (auto simp: handle_def Let_def calendar_endpoint_def with_status_def split: prod.split sum.split)
qed

subsection \<open>Who is turned away\<close>

text \<open>The routes that depend on \<open>get_current_user\<close> and on \<open>require_admin\<close>.\<close>

definition admin_endpoints :: "endpoint list" where
  "admin_endpoints = [Create_host, Rotate_agent_token, Set_sunshine_token, Stream_host_events]"

definition user_endpoints :: "endpoint list" where
  "user_endpoints = [Me, Create_reservation, Instant_reservation, List_reservations, Calendar_matrix, Get_reservation,
     Cancel_reservation, Connect_token, List_hosts, List_available_hosts] @ admin_endpoints"

lemma get_current_user_None:
  "get_current_user cfg None = Inl (case auth_provider cfg of Mock \<Rightarrow> Unauthenticated ''/api/v1/auth/mock/login''
     | Cnu_sso \<Rightarrow> Unauthenticated (auth_login_path cfg) | Cnu_mail_oauth \<Rightarrow> RuntimeError)"
  by (simp add: get_current_user_def build_provider_def split: auth_provider.split)

lemma turned_away_status:
  "http_status rq (Inl (case auth_provider cfg of Mock \<Rightarrow> Unauthenticated ''/api/v1/auth/mock/login''
     | Cnu_sso \<Rightarrow> Unauthenticated (auth_login_path cfg) | Cnu_mail_oauth \<Rightarrow> RuntimeError))
   = (if auth_provider cfg = Cnu_mail_oauth then 500 else if wants_html rq then 302 else 401)"
  by (simp add: http_status_def handle_error_def unauthenticated_response_def error_response_of_def
      split: auth_provider.split)


subsection \<open>What a refused request leaves behind\<close>

definition rolled_back :: "world \<Rightarrow> world \<Rightarrow> bool" where
  "rolled_back w w' \<longleftrightarrow> w' = w
     \<or> (\<exists>e. a_result e = AuditFailure \<and> w' = w\<lparr>w_db := (w_db w)\<lparr>db_audits := db_audits (w_db w) @ [e]\<rparr>\<rparr>)"

lemma rolled_back_simps [simp]: "rolled_back w w"
  "rolled_back w (w\<lparr>w_db := write_audit a ac k tk ti AuditFailure de p ip (w_db w)\<rparr>)"
  unfolding rolled_back_def write_audit_def
  by (rule disjI1, rule refl) (rule disjI2, rule exI, rule conjI [rotated], rule refl, simp)

lemma create_rolled_back:
  assumes "fst (create_reservation_endpoint cfg now1 now2 nid created usr p w) = Inl err"
  shows "snd (create_reservation_endpoint cfg now1 now2 nid created usr p w) = w"
proof (cases "create_reservation cfg now1 now2 nid created usr (rc_host_id p) (rc_starts_at p) (rc_ends_at p) (w_db w)")
  case (Inr x)
  obtain r d where x: "x = (r, d)" by (cases x)
  note c = create_reservation_InrD [OF Inr [unfolded x]]
  have "is_ok (to_read r)"
    using book_row_Inr(1) [OF c(1,4)] by (simp add: to_read_def booked_def reservation_bounds_def)
  with assms show ?thesis by (auto simp: create_reservation_endpoint_def Inr x is_ok_iff split: if_splits)
qed (simp add: create_reservation_endpoint_def)

lemma issue_response_rolled_back:
  "issue_connect_token_response sha cfg now rnow raw tid usr r client w = (Inl err, w') \<Longrightarrow> w' = w"
  by (auto simp: issue_connect_token_response_def Let_def split: option.splits sum.splits prod.splits)

lemma connect_rolled_back:
  "connect_token_endpoint sha cfg now rnow raw tid rid client usr w = (Inl err, w') \<Longrightarrow> w' = w"
  by (auto simp: connect_token_endpoint_def dest: issue_response_rolled_back split: if_splits sum.splits)

lemma instant_rolled_back:
  "instant_reservation_endpoint sha cfg clk nid created raw tid usr hid w = (Inl err, w') \<Longrightarrow> w' = w"
  by (auto simp: instant_reservation_endpoint_def dest!: issue_response_rolled_back
      split: if_splits sum.splits prod.splits option.splits)

lemma cancel_rolled_back: "cancel_reservation_endpoint cn now rid usr w = (Inl err, w') \<Longrightarrow> w' = w"
  by (auto simp: cancel_reservation_endpoint_def split: sum.splits prod.splits)

lemma enrolled_host_found:
  assumes "insert_host (new_host hid p) d = Inr d1"
    and "issue_agent_token sha cfg rnow now raw tid hid admin d1 = Inr ((raw', tok, n), d2)"
  shows "get_host d2 hid \<noteq> None"
proof -
  have "db_hosts d2 = db_hosts d1"
    using insert_token_Inr(1) [OF issue_agent_token_Inr(7) [OF assms(2)]]
    by (simp add: revoke_active_agent_tokens_def token_simps)
  then show ?thesis using insert_host_Inr(1) [OF assms(1)] by (auto simp: get_None_iff new_host_def)
qed

lemma enrol_rolled_back:
  "create_host_endpoint sha cfg rnow now raw hid tid admin p w = (Inl err, w') \<Longrightarrow> w' = w"
  by (auto simp: create_host_endpoint_def dest: enrolled_host_found
      split: if_splits sum.splits prod.splits option.splits app_error.splits)


subsection \<open>A run of requests\<close>

text \<open>A login, the enrolment of a host, a booking and its cancellation by another user, as requests.\<close>

definition plain_draws :: "string \<Rightarrow> int \<Rightarrow> int \<Rightarrow> draws" where
  "plain_draws raw i tid = \<lparr>dw_auth = 0, dw_now = 0, dw_now2 = 0, dw_clock = idle_clock, dw_created = 0,
     dw_id = i, dw_token_id = tid, dw_raw = raw, dw_answer = (\<lambda>_. TransportError)\<rparr>"

definition cookie_request :: "string option \<Rightarrow> request" where
  "cookie_request cookie = (sample_request '''')\<lparr>rq_cookie := cookie\<rparr>"

definition login_form :: "string \<Rightarrow> string \<Rightarrow> call" where
  "login_form name role = CCallback (FormBody [(''external_id'', name), (''display_name'', name), (''role'', role)])"

definition answered :: "response option \<Rightarrow> response" where
  "answered x = (case x of Some r \<Rightarrow> r | None \<Rightarrow> (Inl RuntimeError, run_start))"

definition served_by :: "draws \<Rightarrow> request \<Rightarrow> call \<Rightarrow> world \<Rightarrow> response" where
  "served_by dw rq c w = answered (handle (\<lambda>s. s) default_settings dw rq c w)"

definition app_admin :: world where
  "app_admin = snd (served_by (plain_draws ''admin-cookie'' 1 1) (cookie_request None) (login_form ''Lee'' ''admin'') run_start)"

definition app_student :: world where
  "app_student = snd (served_by (plain_draws ''kim-cookie'' 2 2) (cookie_request None) (login_form ''Kim'' ''user'') app_admin)"

definition app_host :: world where
  "app_host = snd (served_by (plain_draws ''agent'' 1 3) (cookie_request (Some ''admin-cookie''))
     (CEnrol \<lparr>hp_hostname = ''pc-1'', hp_display_name = ''PC 1'', hp_location = None, hp_ip_address = Some ''10.0.0.1'',
      hp_sunshine_port = 47984, hp_gpu_model = None, hp_sunshine_broker_token = None\<rparr>) app_student)"

definition booking_call :: call where
  "booking_call = CCreate \<lparr>rc_host_id = 1, rc_starts_at = at_utc hour_us, rc_ends_at = at_utc (2 * hour_us)\<rparr>"

definition app_booked :: world where
  "app_booked = snd (served_by (plain_draws '''' 1 4) (cookie_request (Some ''admin-cookie'')) booking_call app_host)"

lemma served_by_handle:
  "handle (\<lambda>s. s) default_settings dw rq c w = Some (fst (served_by dw rq c w), snd (served_by dw rq c w))"
proof -
  have "0 < reservation_slot_minutes default_settings" by (simp add: default_settings_def)
  from every_request_answered [OF this, of "\<lambda>s. s" dw rq c w] show ?thesis by (auto simp: served_by_def answered_def)
qed

lemma served_by_step: "app_step (\<lambda>s. s) default_settings (0, w) (0, snd (served_by (plain_draws raw i tid) rq c w))"
  by (rule Request [OF _ served_by_handle]) (simp add: clocked_def draw_times_def plain_draws_def idle_clock_def)

lemma served_by_reach:
  "reach system_start (app_step (\<lambda>s. s) default_settings) (0, w) \<Longrightarrow>
    reach system_start (app_step (\<lambda>s. s) default_settings) (0, snd (served_by (plain_draws raw i tid) rq c w))"
  by (erule reach_step) (rule served_by_step)

lemma app_run: "reach system_start (app_step (\<lambda>s. s) default_settings) (0, app_booked)"
proof -
  have "reach system_start (app_step (\<lambda>s. s) default_settings) (0, run_start)"
    by (rule reach_init) (simp add: system_start_def run_start_def)
  then show ?thesis
    unfolding app_booked_def app_host_def app_student_def app_admin_def by (intro served_by_reach)
qed

lemma app_run_facts:
  "map r_user_id (db_reservations (w_db app_booked)) = [1]"
  "map_option u_id (session_user (\<lambda>s. s) 0 (cookie_request (Some ''kim-cookie'')) (w_db app_booked)) = Some 2"
  "map_option u_role (session_user (\<lambda>s. s) 0 (cookie_request (Some ''kim-cookie'')) (w_db app_booked)) = Some ''user''"
  "map_option u_role (session_user (\<lambda>s. s) 0 (cookie_request (Some ''admin-cookie'')) (w_db app_booked)) = Some ''admin''"
  by code_simp+



lemma reservations_belong_to_their_user_witness:
  "map r_status (filter (\<lambda>r. r_user_id r = 1) (db_reservations (w_db (snd
     (served_by (plain_draws '''' 5 5) (cookie_request (Some ''kim-cookie'')) (CCancel 1) app_booked))))) = [CONFIRMED]"
proof -
  have wf: "wf_db (w_db app_booked)"
    using application.sim_invariant [OF broker_system.invariant_system_axioms app_run] by (simp add: system_inv_def)
  have other: "\<forall>usr. session_user (\<lambda>s. s) (dw_auth (plain_draws '''' 5 5)) (cookie_request (Some ''kim-cookie''))
      (w_db app_booked) = Some usr \<longrightarrow> u_id usr \<noteq> 1 \<and> u_role usr \<noteq> ''admin''"
    using app_run_facts(2,3) by (auto simp: plain_draws_def)
  have "map r_status (filter (\<lambda>r. r_user_id r = 1) (db_reservations (w_db app_booked))) = [CONFIRMED]" by code_simp
  then show ?thesis
    by (simp only: reservations_belong_to_their_user [OF served_by_handle wf other])
qed



end
