(* ===== verification/Application_Rows.thy ===== *)
theory Application_Rows
  imports Conformance Application_Facts
begin

text \<open>
  The rows of the running application against the migrated schema.  That texts fit their columns is
  known of every run of the broker (\<open>Conformance\<close>); that the entries of the audit log name users and
  rows that exist holds because the application takes the acting user from a session.  \<open>grows\<close> is the
  relation that every statement and hence every request satisfies.
\<close>

subsection \<open>Entries of the audit log\<close>

definition user_ids :: "db \<Rightarrow> int set" where
  "user_ids d = u_id ` set (db_users d)"

definition target_ids :: "db \<Rightarrow> int set" where
  "target_ids d = h_id ` set (db_hosts d) \<union> r_id ` set (db_reservations d) \<union> t_id ` set (db_tokens d)"

definition entry_ok :: "db \<Rightarrow> audit_log \<Rightarrow> bool" where
  "entry_ok d a \<longleftrightarrow> audit_text a \<and> set_option (a_actor_user_id a) \<subseteq> user_ids d
     \<and> set_option (a_target_id a) \<subseteq> target_ids d"

definition audits_ok :: "db \<Rightarrow> bool" where
  "audits_ok d \<longleftrightarrow> (\<forall>a \<in> set (db_audits d). entry_ok d a)"

definition grows :: "db \<Rightarrow> db \<Rightarrow> bool" where
  "grows d d' \<longleftrightarrow> user_ids d \<subseteq> user_ids d' \<and> target_ids d \<subseteq> target_ids d' \<and> (audits_ok d \<longrightarrow> audits_ok d')"

named_theorems grow_intros \<open>statements that keep the audit log in order\<close>

lemma grows_refl [simp, grow_intros]: "grows d d"
  by (simp add: grows_def)

lemma grows_trans [trans]: "grows a b \<Longrightarrow> grows b c \<Longrightarrow> grows a c"
  by (auto simp: grows_def)

lemma growsD: "grows d d' \<Longrightarrow> i \<in> user_ids d \<Longrightarrow> i \<in> user_ids d'" "grows d d' \<Longrightarrow> i \<in> target_ids d \<Longrightarrow> i \<in> target_ids d'"
  by (auto simp: grows_def)

lemma grows_frame:
  assumes "db_audits d' = db_audits d" "user_ids d \<subseteq> user_ids d'" "target_ids d \<subseteq> target_ids d'"
  shows "grows d d'"
proof -
  have "entry_ok d a \<Longrightarrow> entry_ok d' a" for a using assms(2,3) by (meson entry_ok_def subset_trans)
  then show ?thesis using assms by (simp add: grows_def audits_ok_def)
qed

lemma ids_write_audit [simp]: "user_ids (write_audit a ac k tk ti r de p ip d) = user_ids d"
  "target_ids (write_audit a ac k tk ti r de p ip d) = target_ids d"
  by (simp_all add: user_ids_def target_ids_def)

lemma grows_write_audit:
  assumes "grows d0 d" "length a \<le> 64" "\<forall>x \<in> set_option tk. length x \<le> 32" "\<forall>x \<in> set_option p. length x \<le> 32"
    and "set_option ac \<subseteq> user_ids d" "set_option ti \<subseteq> target_ids d"
  shows "grows d0 (write_audit a ac k tk ti r de p ip d)"
proof (rule grows_trans [OF assms(1)])
  show "grows d (write_audit a ac k tk ti r de p ip d)"
    using assms(2-6) by (auto simp: grows_def audits_ok_def entry_ok_def) (auto simp: write_audit_def audit_text_def)
qed

subsection \<open>Statements\<close>

lemma grows_revoke [grow_intros]: "grows d (snd (revoke_where P now d))"
  by (rule grows_frame) (simp_all add: token_simps user_ids_def target_ids_def image_update_where)

lemma grows_mark [grow_intros]: "grows d (snd (mark_consumed now tok d))"
  by (rule grows_frame)
    (simp_all add: token_simps user_ids_def target_ids_def mark_consumed_def Let_def image_update_where)

lemma grows_cancel_row [grow_intros]: "grows d (cancel_row i now d)"
  by (rule grows_frame) (simp_all add: user_ids_def target_ids_def cancel_row_def image_update_where)

lemma grows_insert_token: "insert_token t d = Inr d' \<Longrightarrow> grows d d' \<and> t_id t \<in> target_ids d'"
  by (drule insert_token_Inr(1)) (auto intro!: grows_frame simp: user_ids_def target_ids_def)

lemma grows_insert_host: "insert_host h d = Inr d' \<Longrightarrow> grows d d'"
  by (drule insert_host_Inr(1)) (auto intro!: grows_frame simp: user_ids_def target_ids_def)

lemma grows_save_host [grow_intros]: "grows d (save_host h d)"
proof (rule grows_frame)
  have "h_id ` set (update_where (\<lambda>h'. h_id h' = h_id h) (\<lambda>_. h) hs) = h_id ` set hs" for hs
    by (induction hs) (auto simp: update_where_def)
  then show "target_ids d \<subseteq> target_ids (save_host h d)" by (simp add: target_ids_def save_host_def)
qed (simp_all add: user_ids_def save_host_def)

lemma grows_upsert: "upsert_user nid ident d = Inr (u, d') \<Longrightarrow> grows d d' \<and> u_id u \<in> user_ids d'"
proof -
  have find: "u_id x \<in> u_id ` set us" if "find P us = Some x" for P x and us :: "user list"
    using that by (auto simp: find_Some_iff)
  show "upsert_user nid ident d = Inr (u, d') \<Longrightarrow> ?thesis"
    by (auto simp: upsert_user_def Let_def user_ids_def target_ids_def image_update_where find intro!: grows_frame
        split: option.splits if_splits)
qed

lemma grows_transition:
  assumes "h_id h \<in> target_ids d" shows "grows d (fst (snd (transition_host h st reason b now d)))"
  using assms growsD(2) [OF grows_save_host]
  by (auto simp: transition_host_def intro!: grows_write_audit grows_save_host)

lemma grows_tick_hosts:
  "tick_hosts now hs n d b = (n', d', b') \<Longrightarrow> h_id ` set hs \<subseteq> target_ids d \<Longrightarrow> grows d d'"
proof (induction hs arbitrary: n d b)
  case (Cons h hs)
  obtain c d1 b1 where t: "transition_host h OFFLINE ''heartbeat_stale'' b now d = (c, d1, b1)"
    by (cases "transition_host h OFFLINE ''heartbeat_stale'' b now d") auto
  have g: "grows d d1" using grows_transition [of h d OFFLINE "''heartbeat_stale''" b now] Cons.prems(2) by (simp add: t)
  have "h_id ` set hs \<subseteq> target_ids d1" using Cons.prems(2) growsD(2) [OF g] by auto
  with Cons.IH Cons.prems(1) t have "grows d1 d'" by simp
  with g show ?case by (rule grows_trans)
qed simp

lemma grows_issue_connect:
  assumes "issue_connect_token sha cfg now rnow raw nid usr r d = Inr ((raw', tok, n), d')"
  shows "grows d d' \<and> t_id tok \<in> target_ids d'"
  using grows_insert_token [OF issue_connect_token_Inr(4) [OF assms]] grows_revoke
  by (auto simp: revoke_active_tokens_for_reservation_def intro: grows_trans)

lemma grows_issue_agent:
  assumes "issue_agent_token sha cfg rnow now raw nid hid usr d = Inr ((raw', tok, n), d')"
  shows "grows d d'"
  using grows_insert_token [OF issue_agent_token_Inr(7) [OF assms]] grows_revoke
  by (auto simp: revoke_active_agent_tokens_def intro: grows_trans)

lemma grows_issue_session:
  "issue_session sha ttl now raw nid usr d = Inr ((raw', tok), d') \<Longrightarrow> grows d d' \<and> t_id tok \<in> target_ids d'"
  by (rule grows_insert_token [OF issue_session_Inr(2)])

subsection \<open>Requests\<close>

text \<open>The acting user is a row of the table.\<close>

definition acting :: "user \<Rightarrow> db \<Rightarrow> bool" where
  "acting usr d \<longleftrightarrow> u_id usr \<in> user_ids d \<and> length (u_provider usr) \<le> 32"

lemma acting_grows: "acting usr d \<Longrightarrow> grows d d' \<Longrightarrow> acting usr d'"
  by (auto simp: acting_def dest: growsD)

lemma stored_ids: "get_host d i = Some h \<Longrightarrow> h_id h \<in> target_ids d" "get_reservation_row d i = Some r \<Longrightarrow> r_id r \<in> target_ids d"
  by (auto simp: target_ids_def dest: get_hostD get_reservation_rowD)

lemma grows_book_row:
  assumes "book_row nid created usr hid s e extra d = Inr (r, d')" "acting usr d" shows "grows d d'"
proof -
  obtain d1 where ins: "insert_reservation nid (u_id usr) hid (instant_of s) (instant_of e) created d = Inr d1"
    and row: "get_reservation_row d1 nid = Some r"
    and d': "d' = write_audit ''reservation_create'' (Some (u_id usr)) ActorUser (Some ''reservation'')
      (Some (r_id r)) AuditSuccess
      ([(''host_id'', JInt hid), (''starts_at'', JTime s), (''ends_at'', JTime e)] @ extra)
      (Some (u_provider usr)) None d1"
    using assms(1) by (auto simp: book_row_def split: sum.splits app_error.splits if_splits option.splits)
  have g: "grows d d1"
    using ins by (elim insert_reservation_Inr) (auto intro!: grows_frame simp: user_ids_def target_ids_def)
  show ?thesis unfolding d'
    using acting_grows [OF assms(2) g] stored_ids(2) [OF row] by (intro grows_write_audit g) (simp_all add: acting_def)
qed

lemma grows_create:
  "acting usr (w_db w) \<Longrightarrow> grows (w_db w) (w_db (snd (create_reservation_endpoint cfg n1 n2 nid created usr p w)))"
  by (auto simp: create_reservation_endpoint_def dest!: create_reservation_InrD(1) intro: grows_book_row split: sum.split)

lemma grows_response:
  assumes "acting usr (w_db w)" "r_id r \<in> target_ids (w_db w)"
  shows "grows (w_db w) (w_db (snd (issue_connect_token_response sha cfg now rnow raw tid usr r client w)))"
proof (cases "issue_connect_token sha cfg now rnow raw tid usr r (w_db w)")
  case (Inr x)
  obtain raw' tok n d1 where x: "x = ((raw', tok, n), d1)" by (metis surj_pair)
  note g = grows_issue_connect [OF Inr [unfolded x]]
  have "acting usr d1" "r_id r \<in> target_ids d1" "t_id tok \<in> target_ids d1"
    using acting_grows [OF assms(1)] growsD(2) assms(2) g by blast+
  then show ?thesis
    by (auto simp: issue_connect_token_response_def Let_def Inr x acting_def g intro!: grows_write_audit split: option.split)
qed (simp add: issue_connect_token_response_def split: option.split)

lemma grows_connect:
  assumes "acting usr (w_db w)"
  shows "grows (w_db w) (w_db (snd (connect_token_endpoint sha cfg now rnow raw tid rid client usr w)))"
  using grows_response [OF assms] stored_ids(2)
  by (auto simp: connect_token_endpoint_def get_reservation_Inr split: sum.split)

lemma grows_instant:
  assumes "acting usr (w_db w)"
  shows "grows (w_db w) (w_db (snd (instant_reservation_endpoint sha cfg clk nid created raw tid usr hid w)))"
proof (cases "create_instant_reservation cfg (ic_now clk) (ic_quota clk) nid created usr hid (w_db w)")
  case (Inr x)
  obtain r d1 where x: "x = (r, d1)" by (cases x)
  have b: "grows (w_db w) d1 \<and> r_id r \<in> target_ids d1"
    using Inr [unfolded x]
  proof (rule create_instant_InrD)
    fix s e
    assume b: "book_row nid created usr hid (at_utc s) (at_utc e) [(''instant'', JBool True)] (w_db w) = Inr (r, d1)"
    then obtain d0 where "get_reservation_row d0 nid = Some r" "target_ids d1 = target_ids d0"
      by (auto simp: book_row_def split: sum.splits app_error.splits if_splits option.splits)
    then show ?thesis using grows_book_row [OF b assms] stored_ids(2) by auto
  qed
  let ?w = "w\<lparr>w_db := d1\<rparr>"
  let ?iss = "issue_connect_token_response sha cfg (ic_issue clk) (ic_revoke clk) raw tid usr r (Some ''instant_use'') ?w"
  obtain res w2 where i: "?iss = (res, w2)" by (cases ?iss)
  have g2: "grows (w_db w) (w_db w2)"
    using grows_response [of usr ?w r sha cfg "ic_issue clk" "ic_revoke clk" raw tid "Some ''instant_use''"]
      acting_grows [OF assms] b by (auto simp: i intro: grows_trans)
  have "grows (w_db w) (fst (snd (transition_host h IN_USE ''instant_use'' None (ic_transition clk) (w_db w2))))"
    if "get_host (w_db w2) (r_host_id r) = Some h" for h
    by (rule grows_trans [OF g2 grows_transition]) (rule stored_ids(1) [OF that])
  with g2 show ?thesis
    by (simp add: instant_reservation_endpoint_def Inr x i split_beta split: sum.split option.split)
qed (simp add: instant_reservation_endpoint_def)

lemma grows_cancel:
  assumes "acting usr (w_db w)"
  shows "grows (w_db w) (w_db (snd (cancel_reservation_endpoint cn now rid usr w)))"
proof (cases "cancel_reservation cn usr rid (w_db w)")
  case (Inr x)
  obtain r d1 where x: "x = (r, d1)" by (cases x)
  have g: "grows (w_db w) d1"
    using Inr assms acting_grows [OF assms grows_cancel_row]
    by (auto simp: x cancel_reservation_def Let_def acting_def stored_ids split: sum.splits if_splits option.splits
        intro!: grows_write_audit grows_cancel_row)
  then show ?thesis
    by (auto simp: cancel_reservation_endpoint_def Inr x split: option.split
        intro: grows_trans [OF g grows_transition] stored_ids)
qed (simp add: cancel_reservation_endpoint_def)

lemma live_token_stored: "verify_connect_token sha now raw d = Some tok \<Longrightarrow> tok \<in> set (db_tokens d)"
  by (auto simp: verify_connect_token_def lookup_token_def find_Some_iff split: if_splits)

lemma grows_verify: "grows (w_db w) (w_db (snd (verify_token_endpoint sha cfg now cn rq p w)))"
proof -
  have "t_id tok \<in> target_ids (w_db w) \<and> t_id tok \<in> target_ids (snd (mark_consumed cn tok (w_db w)))"
    if "verify_connect_token sha now raw (w_db w) = Some tok" for raw tok
    using live_token_stored [OF that] growsD(2) [OF grows_mark] by (auto simp: target_ids_def)
  then show ?thesis
    by (auto simp: verify_token_endpoint_def finish_verify_def audit_verify_def split_beta
        split: sum.split option.split intro!: grows_write_audit grow_intros)
qed

lemma grows_pair:
  assumes "wf_db (w_db w)" shows "grows (w_db w) (w_db (snd (pairing_endpoint sha cfg now answers p w)))"
proof -
  have "t_user_id tok \<in> user_ids (w_db w)" if "verify_connect_token sha now raw (w_db w) = Some tok" for raw tok
    using live_token_stored [OF that] assms by (auto simp: user_ids_def wf_db_def refs_wf_def)
  then show ?thesis
    by (auto simp: pairing_endpoint_def bind_eq_Some_conv stored_ids split: option.split sum.split pairing_error.split
        intro!: grows_write_audit)
qed

lemma grows_enrol: "grows (w_db w) (w_db (snd (create_host_endpoint sha cfg rnow now raw hid tid usr p w)))"
  by (auto simp: create_host_endpoint_def split: sum.split option.split app_error.split prod.split
      intro: grows_trans [OF grows_insert_host grows_issue_agent])

lemma grows_rotate: "grows (w_db w) (w_db (snd (rotate_agent_token_endpoint sha cfg rnow now raw tid hid usr w)))"
  by (auto simp: rotate_agent_token_endpoint_def split: sum.split option.split prod.split intro: grows_issue_agent)

lemma grows_sunshine: "grows (w_db w) (w_db (snd (set_sunshine_token_endpoint hid secret w)))"
  by (simp add: set_sunshine_token_endpoint_def Let_def grows_save_host split: option.split sum.split)

lemma grows_heartbeat: "grows (w_db w) (w_db (snd (heartbeat_endpoint sha cfg an now rq p w)))"
proof (rule heartbeat_cases [of sha cfg an now rq p w])
  fix h tok d2 b
  assume h: "get_agent_host sha an rq (w_db w) = Inr (h, tok)"
    and t: "transition_host (heartbeat_host now p h)
       (heartbeat_status cfg now p (h_id h) (save_host (heartbeat_host now p h) (w_db w)))
       ''heartbeat'' (Some (w_broker w)) now (save_host (heartbeat_host now p h) (w_db w)) = b"
    and d2: "fst (snd b) = d2" and w: "w_db (snd (heartbeat_endpoint sha cfg an now rq p w)) = d2"
  have "h_id (heartbeat_host now p h) \<in> target_ids (w_db w)" using stored_ids(1) [OF get_agent_host_Inr(2) [OF h]] by simp
  then show ?thesis unfolding w d2 [symmetric] t [symmetric]
    by (intro grows_trans [OF grows_save_host grows_transition] growsD(2) [OF grows_save_host])
qed simp

lemma grows_login: "grows (w_db w) (w_db (snd (mock_callback sha cfg now nid raw tid rq body w)))"
  by (auto simp: mock_callback_def Let_def split: sum.split prod.split
      dest!: grows_upsert grows_issue_session intro!: grows_write_audit intro: grows_trans growsD)

lemma grows_logout:
  assumes "\<forall>usr. su = Some usr \<longrightarrow> u_id usr \<in> user_ids (w_db w)"
  shows "grows (w_db w) (w_db (snd (logout sha cfg now rq su w)))"
  using assms growsD(1) [OF grows_revoke]
  by (cases su) (auto simp: logout_def revoke_session_def split_beta provider_name_def split: option.split auth_provider.split
      intro!: grows_write_audit grow_intros)

lemma grows_monitor: "grows (w_db w) (w_db (monitor_step cfg now w))"
  by (auto simp: monitor_step_def run_one_tick_def tick_rows_def Let_def target_ids_def dest!: grows_tick_hosts
      split: prod.split)

subsection \<open>Every reachable state\<close>

lemma session_user_stored:
  "session_user sha now rq d = Some usr \<Longrightarrow> texts_fit d \<Longrightarrow> acting usr d"
  by (auto simp: session_user_def verify_session_def find_Some_iff acting_def user_ids_def texts_fit_def user_text_def
      split: option.splits if_splits)

lemma handle_grows:
  assumes "handle sha cfg dw rq c w = Some (res, w')" "wf_db (w_db w)" "texts_fit (w_db w)"
  shows "grows (w_db w) (w_db w')"
proof (cases "w' = w")
  case False
  have acts: "acting usr (w_db w)" if "session_user sha (dw_auth dw) rq (w_db w) = Some usr" for usr
    using session_user_stored [OF that assms(3)] .
  then have "\<forall>usr. session_user sha (dw_auth dw) rq (w_db w) = Some usr \<longrightarrow> u_id usr \<in> user_ids (w_db w)"
    by (simp add: acting_def)
  with handle_effect [OF assms(1) False] acts show ?thesis
    by (cases c) (auto simp: Let_def grows_create grows_instant grows_cancel grows_connect grows_verify assms(2)
        grows_pair grows_enrol grows_rotate grows_sunshine grows_heartbeat grows_login grows_logout)
qed simp

lemma app_step_grows:
  "app_step sha cfg s s' \<Longrightarrow> wf_db (w_db (snd s)) \<Longrightarrow> texts_fit (w_db (snd s)) \<Longrightarrow> grows (w_db (snd s)) (w_db (snd s'))"
  by (erule app_stepE) (auto simp: with_broker_def grows_monitor dest: handle_grows)

interpretation app_rows: invariant_system system_start "app_step sha cfg"
  "\<lambda>s. (\<forall>x. length (sha x) = 64) \<longrightarrow> system_inv cfg s \<and> text_state s \<and> audits_ok (w_db (snd s))"
  for sha cfg
proof
  show "(\<forall>x. length (sha x) = 64) \<longrightarrow> system_inv cfg s \<and> text_state s \<and> audits_ok (w_db (snd s))"
    if "system_start s" for s
    using that system_inv_start [OF that, of cfg]
    by (auto simp: system_start_def text_state_def texts_fit_def audits_ok_def empty_db_def)
next
  fix s s'
  assume inv: "(\<forall>x. length (sha x) = 64) \<longrightarrow> system_inv cfg s \<and> text_state s \<and> audits_ok (w_db (snd s))"
    and step: "app_step sha cfg s s'"
  have "wf_db (w_db (snd s))" if "system_inv cfg s" using that by (cases s) (simp add: system_inv_def)
  then show "(\<forall>x. length (sha x) = 64) \<longrightarrow> system_inv cfg s' \<and> text_state s' \<and> audits_ok (w_db (snd s'))"
    using inv app_step_grows [OF step] system_inv_step [OF _ app_step_simulated [OF step]]
      text_state_step [OF _ _ app_step_simulated [OF step]]
    by (auto simp: grows_def text_state_def)
qed

lemma entries_fit: "audits_ok d \<Longrightarrow> keys_fit d \<Longrightarrow> list_all (audit_entry_fits d) (db_audits d)"
  by (auto simp: audits_ok_def entry_ok_def audit_entry_fits_def list_all_iff keys_fit_def user_ids_def target_ids_def)


text \<open>A run under a digest of 64 characters: a login and the enrolment of a host.\<close>

definition digest64 :: "string \<Rightarrow> string" where
  "digest64 s = take 64 (s @ replicate 64 CHR ''0'')"

definition digest_login :: world where
  "digest_login = snd (answered (handle digest64 default_settings (plain_draws ''cookie'' 1 1) (cookie_request None)
     (login_form ''Lee'' ''admin'') run_start))"

definition digest_enrol :: world where
  "digest_enrol = snd (answered (handle digest64 default_settings (plain_draws ''agent'' 1 2)
     (cookie_request (Some ''cookie''))
     (CEnrol \<lparr>hp_hostname = ''pc-1'', hp_display_name = ''PC 1'', hp_location = None, hp_ip_address = Some ''10.0.0.1'',
      hp_sunshine_port = 47984, hp_gpu_model = None, hp_sunshine_broker_token = None\<rparr>) digest_login))"

lemma answered_step:
  "app_step sha default_settings (0, w) (0, snd (answered (handle sha default_settings (plain_draws raw i tid) rq c w)))"
proof -
  have "handle sha default_settings (plain_draws raw i tid) rq c w \<noteq> None"
    by (rule every_request_answered) (simp add: default_settings_def)
  then obtain res w' where h: "handle sha default_settings (plain_draws raw i tid) rq c w = Some (res, w')" by auto
  have "clocked 0 0 (draw_times (plain_draws raw i tid))"
    by (simp add: clocked_def draw_times_def plain_draws_def idle_clock_def)
  from Request [OF this h] show ?thesis by (simp add: h answered_def)
qed


end
