(* ===== verification/Python_Text.thy ===== *)
theory Python_Text
  imports Web
begin

text \<open>
  The text and number functions of the Python library that the agent calls: \<open>str.split\<close>,
  \<open>str.splitlines\<close>, \<open>str.rstrip\<close>, \<open>float\<close> on a string and \<open>round\<close>, with the facts
  about them that its parsers need.  A finite float is the rational it stands for: the rounding of
  binary floating point and its overflow are not modelled.
\<close>

subsection \<open>Splitting\<close>

text \<open>\<open>s.split(c)\<close> for a separator of one character.\<close>

fun split_on :: "char \<Rightarrow> string \<Rightarrow> string list" where
  "split_on c [] = [[]]"
| "split_on c (x # xs) =
     (if x = c then [] # split_on c xs
      else (case split_on c xs of [] \<Rightarrow> [[x]] | p # ps \<Rightarrow> (x # p) # ps))"

definition is_line_break :: "char \<Rightarrow> bool" where
  "is_line_break c \<longleftrightarrow> (of_char c :: nat) \<in> {10, 11, 12, 13, 28, 29, 30, 133}"

text \<open>\<open>s.splitlines()\<close>: \<open>acc\<close> is the current line, read backwards; \<open>cr\<close> tells that the
  last character was a carriage return, which a line feed completes.\<close>

fun lines_from :: "string \<Rightarrow> bool \<Rightarrow> string \<Rightarrow> string list" where
  "lines_from acc cr [] = (if acc = [] then [] else [rev acc])"
| "lines_from acc cr (c # cs) =
     (if cr \<and> c = CHR 0x0A then lines_from [] False cs
      else if is_line_break c then rev acc # lines_from [] (c = CHR 0x0D) cs
      else lines_from (c # acc) False cs)"

definition splitlines :: "string \<Rightarrow> string list" where
  "splitlines s = lines_from [] False s"

definition rstrip_char :: "char \<Rightarrow> string \<Rightarrow> string" where
  "rstrip_char c s = rev (dropWhile (\<lambda>x. x = c) (rev s))"

lemma split_on_no_sep: "c \<notin> set s \<Longrightarrow> split_on c s = [s]"
  by (induction s) auto

lemma split_on_append: "c \<notin> set p \<Longrightarrow> split_on c (p @ c # s) = p # split_on c s"
  by (induction p) auto

lemma split_on_not_Nil [simp]: "split_on c s \<noteq> []"
  by (cases s) (auto split: list.split)

lemma lines_from_line:
  "list_all (\<lambda>c. \<not> is_line_break c) l \<Longrightarrow>
   lines_from acc cr (l @ CHR 0x0A # cs) =
     (if cr \<and> l = [] then lines_from [] False cs else (rev acc @ l) # lines_from [] False cs)"
  by (induction l arbitrary: acc cr) (auto simp: is_line_break_def)

lemma lines_from_last:
  "list_all (\<lambda>c. \<not> is_line_break c) l \<Longrightarrow> lines_from acc cr l = (if acc = [] \<and> l = [] then [] else [rev acc @ l])"
  by (induction l arbitrary: acc cr) (auto simp: is_line_break_def)

text \<open>\<open>splitlines\<close> is the inverse of writing each line with a line feed at its end, and the last one with
  or without.\<close>

lemma splitlines_lines:
  assumes "list_all (list_all (\<lambda>c. \<not> is_line_break c)) ls"
  shows "lines_from [] False (concat (map (\<lambda>l. l @ [CHR 0x0A]) ls) @ rest) = ls @ lines_from [] False rest"
  using assms by (induction ls) (simp_all add: lines_from_line)

subsection \<open>Trimming\<close>

lemma strip_inner:
  assumes "s \<noteq> []" "\<not> is_space (hd s)" "\<not> is_space (last s)" "list_all is_space a" "list_all is_space b"
  shows "strip (a @ s @ b) = s"
proof -
  have "dropWhile is_space (a @ s @ b) = s @ b"
    using assms(1,2,4) by (induction a) (auto simp: hd_conv_nth neq_Nil_conv)
  moreover have "dropWhile is_space (rev b @ rev s) = rev s"
    using assms(1,3,5) by (subst dropWhile_append2) (auto simp: list_all_iff last_rev hd_rev dropWhile_eq_self_iff)
  ultimately show ?thesis by (simp add: strip_def)
qed

lemma strip_solid: "s \<noteq> [] \<Longrightarrow> list_all (\<lambda>c. \<not> is_space c) s \<Longrightarrow> strip s = s"
  using strip_inner [of s "[]" "[]"] by (auto simp: list_all_iff)

lemma strip_blank: "list_all is_space s \<Longrightarrow> strip s = []"
  by (simp add: strip_def list_all_iff dropWhile_eq_Nil_conv [THEN iffD2])

subsection \<open>Numbers\<close>

datatype pyfloat = Finite rat | Infinite bool | NotANumber

definition is_digit :: "char \<Rightarrow> bool" where
  "is_digit c \<longleftrightarrow> 48 \<le> (of_char c :: nat) \<and> (of_char c :: nat) \<le> 57"

definition nat_of_digits :: "string \<Rightarrow> nat" where
  "nat_of_digits s = foldl (\<lambda>n c. 10 * n + (of_char c - 48)) 0 (filter is_digit s)"

text \<open>Digits, with single underscores allowed between two of them.\<close>

definition digit_part :: "string \<Rightarrow> bool" where
  "digit_part s \<longleftrightarrow> list_all (\<lambda>p. p \<noteq> [] \<and> list_all is_digit p) (split_on CHR ''_'' s)"

definition cut_sign :: "string \<Rightarrow> bool \<times> string" where
  "cut_sign s =
     (case s of [] \<Rightarrow> (False, [])
      | c # cs \<Rightarrow> if c = CHR ''-'' then (True, cs) else if c = CHR ''+'' then (False, cs) else (False, s))"

definition exponent_value :: "string \<Rightarrow> int option" where
  "exponent_value s =
     (case cut_sign s of (neg, t) \<Rightarrow>
        if digit_part t then Some (if neg then - int (nat_of_digits t) else int (nat_of_digits t)) else None)"

definition mantissa_value :: "string \<Rightarrow> rat option" where
  "mantissa_value s =
     (case split_on CHR ''.'' s of
        [a] \<Rightarrow> if digit_part a then Some (of_nat (nat_of_digits a)) else None
      | [a, b] \<Rightarrow>
          if (a = [] \<or> digit_part a) \<and> (b = [] \<or> digit_part b) \<and> \<not> (a = [] \<and> b = [])
          then Some (of_nat (nat_of_digits (a @ b)) / 10 ^ length (filter is_digit b)) else None
      | _ \<Rightarrow> None)"

definition scale10 :: "int \<Rightarrow> rat \<Rightarrow> rat" where
  "scale10 e x = (if 0 \<le> e then x * 10 ^ nat e else x / 10 ^ nat (- e))"

definition unsigned_value :: "string \<Rightarrow> rat option" where
  "unsigned_value s =
     (let m = takeWhile (\<lambda>c. lower_char c \<noteq> CHR ''e'') s; r = drop (length m) s in
      case r of
        [] \<Rightarrow> mantissa_value m
      | _ # ex \<Rightarrow> (case (mantissa_value m, exponent_value ex) of
                      (Some v, Some e) \<Rightarrow> Some (scale10 e v) | _ \<Rightarrow> None))"

text \<open>\<open>float(s)\<close>; \<open>None\<close> is \<open>ValueError\<close>.\<close>

definition py_float :: "string \<Rightarrow> pyfloat option" where
  "py_float s =
     (case cut_sign (strip s) of (neg, t) \<Rightarrow>
        if map lower_char t \<in> {''inf'', ''infinity''} then Some (Infinite neg)
        else if map lower_char t = ''nan'' then Some NotANumber
        else map_option (\<lambda>v. Finite (if neg then - v else v)) (unsigned_value t))"

definition round_half_even :: "rat \<Rightarrow> int" where
  "round_half_even x =
     (let f = \<lfloor>x\<rfloor>; d = x - of_int f in
      if d < 1 / 2 then f else if d > 1 / 2 then f + 1 else if even f then f else f + 1)"

definition round_to :: "nat \<Rightarrow> rat \<Rightarrow> rat" where
  "round_to n x = of_int (round_half_even (x * 10 ^ n)) / 10 ^ n"

lemma round_half_even_mono: "x \<le> y \<Longrightarrow> round_half_even x \<le> round_half_even y"
proof -
  assume le: "x \<le> y"
  then have f: "\<lfloor>x\<rfloor> \<le> \<lfloor>y\<rfloor>" by (rule floor_mono)
  show ?thesis
  proof (cases "\<lfloor>x\<rfloor> = \<lfloor>y\<rfloor>")
    case True
    then show ?thesis using le by (auto simp: round_half_even_def Let_def)
  next
    case False
    with f have "\<lfloor>x\<rfloor> + 1 \<le> \<lfloor>y\<rfloor>" by simp
    then show ?thesis by (simp add: round_half_even_def Let_def)
  qed
qed

lemma round_half_even_int [simp]: "round_half_even (of_int n) = n"
  by (simp add: round_half_even_def)

lemma round_to_nonneg: "0 \<le> x \<Longrightarrow> 0 \<le> round_to n x"
  using round_half_even_mono [of 0 "x * 10 ^ n"] round_half_even_int [of 0]
  by (simp add: round_to_def)

end
