(* ===== verification/Agent_Collectors.thy ===== *)
theory Agent_Collectors
  imports Python_Text Host_Api
begin

text \<open>
  The collectors of the host agent (\<open>agent/smartclassroom_agent/collectors/*.py\<close>) and the payload
  of its heartbeat.  What the operating system, \<open>nvidia-smi\<close> and the local Sunshine server answer
  are arguments; the parsers of these answers are modelled in full.  A payload is a value of the
  broker's request type \<open>heartbeat\<close>, whose fields are those of the agent's dictionaries, with the
  graphics cards kept apart until they are known to be finite numbers.
\<close>

subsection \<open>Graphics cards\<close>

record gpu_snapshot =
  gs_name :: string
  gs_util_pct :: pyfloat
  gs_mem_pct :: pyfloat
  gs_temp_c :: "pyfloat option"

text \<open>\<open>(used / total) * 100.0 if total > 0 else 0.0\<close>, then \<open>round(_, 1)\<close>.\<close>

fun memory_percent :: "pyfloat \<Rightarrow> pyfloat \<Rightarrow> pyfloat" where
  "memory_percent used (Finite t) =
     (if t > 0
      then (case used of Finite u \<Rightarrow> Finite (u / t * 100) | Infinite neg \<Rightarrow> Infinite neg | NotANumber \<Rightarrow> NotANumber)
      else Finite 0)"
| "memory_percent used (Infinite neg) =
     (if neg then Finite 0 else (case used of Finite u \<Rightarrow> Finite 0 | _ \<Rightarrow> NotANumber))"
| "memory_percent used NotANumber = Finite 0"

fun round_float :: "nat \<Rightarrow> pyfloat \<Rightarrow> pyfloat" where
  "round_float n (Finite x) = Finite (round_to n x)"
| "round_float n x = x"

text \<open>One line of the output; \<open>None\<close> is \<open>continue\<close>.\<close>

definition parse_gpu_line :: "string \<Rightarrow> gpu_snapshot option" where
  "parse_gpu_line line =
     (let parts = map strip (split_on CHR '','' line) in
      if length parts < 5 then None
      else (case (py_float (parts ! 2), py_float (parts ! 3)) of
              (Some used, Some capacity) \<Rightarrow>
                (case (py_float (parts ! 1), py_float (parts ! 4)) of
                   (Some util, Some temp) \<Rightarrow>
                     Some \<lparr>gs_name = parts ! 0, gs_util_pct = util,
                           gs_mem_pct = round_float 1 (memory_percent used capacity), gs_temp_c = Some temp\<rparr>
                 | _ \<Rightarrow> None)
            | _ \<Rightarrow> None))"

definition parse_nvidia_smi :: "string \<Rightarrow> gpu_snapshot list" where
  "parse_nvidia_smi stdout = List.map_filter parse_gpu_line (splitlines (strip stdout))"

text \<open>What running \<open>nvidia-smi\<close> gives: not installed, a timeout or an operating system error, or an
  exit code and its output.\<close>

datatype smi_run = SmiMissing | SmiFailed | SmiExit int string

definition collect_gpu :: "smi_run \<Rightarrow> gpu_snapshot list" where
  "collect_gpu run =
     (case run of SmiExit code out \<Rightarrow> if code \<noteq> 0 then [] else parse_nvidia_smi out | _ \<Rightarrow> [])"

subsection \<open>Processes and users\<close>

text \<open>A process: the name in its \<open>info\<close> when that is a dictionary with one, and what \<open>name()\<close>
  returns, \<open>None\<close> when it raises one of the exceptions caught there or is not a string.\<close>

record process =
  pr_info_name :: "string option"
  pr_name_call :: "string option"

definition SUNSHINE_PROCESS_NAMES :: "string set" where
  "SUNSHINE_PROCESS_NAMES = {''sunshine'', ''sunshine.exe''}"

definition process_name :: "process \<Rightarrow> string" where
  "process_name p =
     (case pr_info_name p of
        Some n \<Rightarrow> n
      | None \<Rightarrow> (case pr_name_call p of Some n \<Rightarrow> n | None \<Rightarrow> ''''))"

fun find_sunshine_running :: "process list \<Rightarrow> bool" where
  "find_sunshine_running [] = False"
| "find_sunshine_running (p # ps) =
     (if map lower_char (process_name p) \<in> SUNSHINE_PROCESS_NAMES then True else find_sunshine_running ps)"

text \<open>The rows of \<open>psutil.users()\<close>, by their names.\<close>

definition active_user :: "string option list \<Rightarrow> string option" where
  "active_user rows = (case rows of [] \<Rightarrow> None | name # _ \<Rightarrow> name)"

subsection \<open>The state of the Sunshine server\<close>

definition starts_with_ci :: "string \<Rightarrow> string \<Rightarrow> bool" where
  "starts_with_ci p s \<longleftrightarrow> map lower_char (take (length p) s) = p"

text \<open>The group of \<open>re.search("<state>([^<]+)</state>", text, re.IGNORECASE)\<close>.\<close>

definition state_at :: "string \<Rightarrow> string option" where
  "state_at s =
     (if starts_with_ci ''<state>'' s
      then (let rest = drop 7 s; body = takeWhile (\<lambda>c. c \<noteq> CHR ''<'') rest in
            if body \<noteq> [] \<and> starts_with_ci ''</state>'' (drop (length body) rest) then Some body else None)
      else None)"

fun state_search :: "string \<Rightarrow> string option" where
  "state_search [] = None"
| "state_search (c # cs) =
     (case state_at (c # cs) of Some body \<Rightarrow> Some body | None \<Rightarrow> state_search cs)"

datatype serverinfo_answer = ServerinfoError | ServerinfoResponse int string

definition query_sunshine_serverinfo :: "serverinfo_answer \<Rightarrow> connection_state" where
  "query_sunshine_serverinfo ans =
     (case ans of
        ServerinfoError \<Rightarrow> Unknown
      | ServerinfoResponse status body \<Rightarrow>
          if status \<noteq> 200 then Unknown
          else (case state_search body of
                  None \<Rightarrow> Unknown
                | Some content \<Rightarrow>
                    (let state = strip content in
                     if state = ''SUNSHINE_SERVER_BUSY'' then Active
                     else if state = ''SUNSHINE_SERVER_FREE'' then Disconnected
                     else Unknown)))"

record session_snapshot =
  ss_sunshine_running :: bool
  ss_active_user :: "string option"
  ss_active_clients :: int
  ss_connection_state :: connection_state

text \<open>\<open>has_cfg\<close>: \<open>cfg is not None\<close>.\<close>

definition collect_session :: "bool \<Rightarrow> process list \<Rightarrow> string option list \<Rightarrow> serverinfo_answer \<Rightarrow> session_snapshot" where
  "collect_session has_cfg procs users serverinfo =
     (let running = find_sunshine_running procs in
      \<lparr>ss_sunshine_running = running, ss_active_user = active_user users, ss_active_clients = 0,
       ss_connection_state =
         (if \<not> running \<or> \<not> has_cfg then Unknown else query_sunshine_serverinfo serverinfo)\<rparr>)"

subsection \<open>System load and round trip\<close>

record system_snapshot =
  sy_cpu_pct :: rat
  sy_mem_pct :: rat
  sy_uptime_sec :: int
  sy_load_avg :: "rat list option"

text \<open>\<open>int(x)\<close> of a difference of times, in seconds: towards zero.\<close>

definition whole_seconds :: "int \<Rightarrow> int" where
  "whole_seconds us = (if 0 \<le> us then us div sec_us else - (- us div sec_us))"

text \<open>\<open>None\<close> when there is no \<open>getloadavg\<close> or it raises.\<close>

definition load_avg :: "rat list option \<Rightarrow> rat list option" where
  "load_avg reading = map_option (map (round_to 2)) reading"

definition collect_system :: "instant \<Rightarrow> instant \<Rightarrow> rat \<Rightarrow> rat \<Rightarrow> rat list option \<Rightarrow> system_snapshot" where
  "collect_system now booted cpu mem load =
     \<lparr>sy_cpu_pct = cpu, sy_mem_pct = mem, sy_uptime_sec = whole_seconds (now - booted),
      sy_load_avg = load_avg load\<rparr>"

text \<open>The request to \<open>/healthz\<close>: a transport error, or a status and the milliseconds it took.\<close>

datatype health_answer = HealthError | HealthResponse int rat

definition measure_rtt :: "health_answer \<Rightarrow> rat option" where
  "measure_rtt ans =
     (case ans of
        HealthError \<Rightarrow> None
      | HealthResponse status elapsed_ms \<Rightarrow> if status = 200 then Some (round_to 2 elapsed_ms) else None)"

subsection \<open>The payload\<close>

definition agent_version :: string where
  "agent_version = ''0.1.0''"

text \<open>What the machine shows during one cycle.\<close>

record readings =
  rd_now :: instant
  rd_boot_time :: instant
  rd_cpu_pct :: rat
  rd_mem_pct :: rat
  rd_load :: "rat list option"
  rd_processes :: "process list"
  rd_users :: "string option list"
  rd_serverinfo :: serverinfo_answer
  rd_smi :: smi_run
  rd_health :: health_answer

record agent_payload =
  ap_request :: heartbeat
  ap_gpu :: "gpu_snapshot list"

definition build_heartbeat_payload :: "bool \<Rightarrow> readings \<Rightarrow> agent_payload" where
  "build_heartbeat_payload has_cfg rd =
     (let sys = collect_system (rd_now rd) (rd_boot_time rd) (rd_cpu_pct rd) (rd_mem_pct rd) (rd_load rd);
          sess = collect_session has_cfg (rd_processes rd) (rd_users rd) (rd_serverinfo rd) in
      \<lparr>ap_request = \<lparr>hb_agent_version = agent_version, hb_boot_time = at_utc (rd_boot_time rd),
         hb_cpu_pct = sy_cpu_pct sys, hb_mem_pct = sy_mem_pct sys, hb_uptime_sec = sy_uptime_sec sys,
         hb_load_avg = sy_load_avg sys, hb_sunshine_running = ss_sunshine_running sess,
         hb_active_user = ss_active_user sess, hb_active_clients = ss_active_clients sess,
         hb_connection_state = Some (ss_connection_state sess), hb_gpu = Some [],
         hb_self_rtt_ms = measure_rtt (rd_health rd)\<rparr>,
       ap_gpu = collect_gpu (rd_smi rd)\<rparr>)"

text \<open>The body on the wire: numbers that are not finite have no JSON form, and the request fails.\<close>

fun finite_value :: "pyfloat \<Rightarrow> rat option" where
  "finite_value (Finite x) = Some x"
| "finite_value _ = None"

definition gpu_body :: "gpu_snapshot \<Rightarrow> gpu_metric option" where
  "gpu_body g =
     (case (finite_value (gs_util_pct g), finite_value (gs_mem_pct g)) of
        (Some u, Some m) \<Rightarrow>
          (case gs_temp_c g of
             None \<Rightarrow> Some \<lparr>gm_name = gs_name g, gm_util_pct = u, gm_mem_pct = m, gm_temp_c = None\<rparr>
           | Some t \<Rightarrow> map_option (\<lambda>x. \<lparr>gm_name = gs_name g, gm_util_pct = u, gm_mem_pct = m,
                                        gm_temp_c = Some x\<rparr>) (finite_value t))
      | _ \<Rightarrow> None)"

definition heartbeat_body :: "agent_payload \<Rightarrow> heartbeat option" where
  "heartbeat_body p = map_option (\<lambda>gs. (ap_request p)\<lparr>hb_gpu := Some gs\<rparr>) (those (map gpu_body (ap_gpu p)))"

end
