(* ===== verification/Agent_Loop.thy ===== *)
theory Agent_Loop
  imports Agent_Collectors
begin

text \<open>
  The agent around its collectors: the configuration (\<open>config.py\<close>), the client that carries the
  agent token (\<open>client.py\<close>), the heartbeat loop (\<open>heartbeat.py\<close>) and the commands
  (\<open>cli.py\<close>).  The loop may run for ever, so it is a \<open>partial_function\<close> whose value is \<open>None\<close>
  when it does not return; the body of a cycle is its argument, instantiated by \<open>broker_cycle\<close>
  with a request to the broker.
\<close>

subsection \<open>Configuration\<close>

datatype log_level = DEBUG | INFO | WARNING | ERROR

record agent_config =
  ac_broker_url :: string
  ac_host_id :: int
  ac_agent_token :: string
  ac_interval_seconds :: rat
  ac_log_level :: log_level
  ac_serverinfo_url :: string
  ac_query_timeout_seconds :: rat

definition agent_config_valid :: "agent_config \<Rightarrow> bool" where
  "agent_config_valid c \<longleftrightarrow> 1 \<le> ac_host_id c
     \<and> 16 \<le> length (ac_agent_token c) \<and> length (ac_agent_token c) \<le> 128
     \<and> 1 \<le> ac_interval_seconds c \<and> ac_interval_seconds c \<le> 600
     \<and> 1 / 2 \<le> ac_query_timeout_seconds c \<and> ac_query_timeout_seconds c \<le> 30"

definition broker_url_str :: "agent_config \<Rightarrow> string" where
  "broker_url_str c = rstrip_char CHR ''/'' (ac_broker_url c)"

text \<open>\<open>yaml.safe_load\<close> is third-party code: what it gives is a mapping, another value (whose truth
  matters for \<open>or {}\<close>), or an error.  \<open>model_validate\<close> reads the fields of a mapping with their types.\<close>

datatype 'v yaml = YamlMapping "(string \<times> 'v) list" | YamlOther bool

datatype config_error = FileNotFound | YamlError | NotAMapping | ConfigInvalid

definition load_config ::
  "(string \<Rightarrow> string option) \<Rightarrow> (string \<Rightarrow> 'v yaml option) \<Rightarrow> ((string \<times> 'v) list \<Rightarrow> agent_config option) \<Rightarrow>
     string \<Rightarrow> config_error + agent_config" where
  "load_config read safe_load model_validate path =
     (case read path of
        None \<Rightarrow> Inl FileNotFound
      | Some contents \<Rightarrow>
          (case safe_load contents of
             None \<Rightarrow> Inl YamlError
           | Some v \<Rightarrow>
               (case (case v of YamlMapping kvs \<Rightarrow> Some kvs | YamlOther truthy \<Rightarrow> if truthy then None else Some []) of
                  None \<Rightarrow> Inl NotAMapping
                | Some raw \<Rightarrow>
                    (case model_validate raw of
                       None \<Rightarrow> Inl ConfigInvalid
                     | Some c \<Rightarrow> if agent_config_valid c then Inr c else Inl ConfigInvalid))))"

subsection \<open>One cycle\<close>

text \<open>How the body of the \<open>try\<close> ends: \<open>CycleCancelled\<close> is an exception that is not an
  \<open>Exception\<close> (the cancellation of the task, an interrupt), which is not caught.\<close>

datatype cycle_outcome = CycleOk | CycleFailed | CycleCancelled

text \<open>What becomes of the request: delivered and answered, lost before or after the broker handled it, or the
  agent is interrupted before it is sent.\<close>

datatype network = Delivered | RequestLost | AnswerLost | Interrupted

text \<open>What one cycle meets: \<open>None\<close> for readings when a collector raises.\<close>

record cycle_input =
  ci_readings :: "readings option"
  ci_network :: network
  ci_auth_now :: instant
  ci_now :: instant

definition bearer_request :: "string \<Rightarrow> request" where
  "bearer_request agent_token =
     \<lparr>rq_path = ''/api/v1/agents/heartbeat'', rq_accept = ''*/*'', rq_cookie = None,
      rq_authorization = ''Bearer '' @ agent_token, rq_internal_token = '''', rq_request_id = None,
      rq_client_ip = None\<rparr>"

text \<open>\<open>post_heartbeat\<close>: the request as the broker handles it, and \<open>raise_for_status\<close>.\<close>

definition post_heartbeat ::
  "(string \<Rightarrow> string) \<Rightarrow> settings \<Rightarrow> string \<Rightarrow> cycle_input \<Rightarrow> agent_payload \<Rightarrow> world \<Rightarrow> cycle_outcome \<times> world" where
  "post_heartbeat sha cfg agent_token inp payload w =
     (case ci_network inp of
        RequestLost \<Rightarrow> (CycleFailed, w)
      | Interrupted \<Rightarrow> (CycleCancelled, w)
      | _ \<Rightarrow>
          (case heartbeat_body payload of
             None \<Rightarrow> (CycleFailed, w)
           | Some body \<Rightarrow>
               (case heartbeat_endpoint sha cfg (ci_auth_now inp) (ci_now inp) (bearer_request agent_token) body w of
                  (Inl _, w') \<Rightarrow> (CycleFailed, w')
                | (Inr _, w') \<Rightarrow> (if ci_network inp = Delivered then CycleOk else CycleFailed, w'))))"

definition broker_cycle ::
  "(string \<Rightarrow> string) \<Rightarrow> settings \<Rightarrow> string \<Rightarrow> bool \<Rightarrow> (nat \<Rightarrow> cycle_input) \<Rightarrow> nat \<Rightarrow> world \<Rightarrow> cycle_outcome \<times> world" where
  "broker_cycle sha cfg agent_token has_cfg inputs i w =
     (case ci_readings (inputs i) of
        None \<Rightarrow> (CycleFailed, w)
      | Some rd \<Rightarrow> post_heartbeat sha cfg agent_token (inputs i) (build_heartbeat_payload has_cfg rd) w)"

subsection \<open>The loop\<close>

text \<open>A stop event: is it set before the cycle, and does it become set during the wait after it?\<close>

record stop_event =
  se_is_set :: "nat \<Rightarrow> bool"
  se_wait :: "nat \<Rightarrow> bool"

definition stop_requested :: "stop_event option \<Rightarrow> nat \<Rightarrow> bool" where
  "stop_requested stop i \<longleftrightarrow> (case stop of None \<Rightarrow> False | Some ev \<Rightarrow> se_is_set ev i)"

definition stopped_waiting :: "stop_event option \<Rightarrow> nat \<Rightarrow> bool" where
  "stopped_waiting stop i \<longleftrightarrow> (case stop of None \<Rightarrow> False | Some ev \<Rightarrow> se_wait ev i)"

definition cycles_reached :: "int option \<Rightarrow> nat \<Rightarrow> bool" where
  "cycles_reached max_cycles i \<longleftrightarrow> (case max_cycles of None \<Rightarrow> False | Some m \<Rightarrow> int i \<ge> m)"

datatype loop_end = Cycles nat | Cancelled

partial_function (option) run_heartbeat_loop ::
  "(nat \<Rightarrow> 's \<Rightarrow> cycle_outcome \<times> 's) \<Rightarrow> stop_event option \<Rightarrow> int option \<Rightarrow> nat \<Rightarrow> 's \<Rightarrow> (loop_end \<times> 's) option" where
  "run_heartbeat_loop cycle stop max_cycles cycles s =
     (if stop_requested stop cycles then Some (Cycles cycles, s)
      else (case cycle cycles s of
              (outcome, s1) \<Rightarrow>
                if outcome = CycleCancelled then Some (Cancelled, s1)
                else if cycles_reached max_cycles (cycles + 1) then Some (Cycles (cycles + 1), s1)
                else if stopped_waiting stop cycles then Some (Cycles (cycles + 1), s1)
                else run_heartbeat_loop cycle stop max_cycles (cycles + 1) s1))"

subsection \<open>Commands\<close>

definition run_cmd :: "(nat \<Rightarrow> 's \<Rightarrow> cycle_outcome \<times> 's) \<Rightarrow> 's \<Rightarrow> (loop_end \<times> 's) option" where
  "run_cmd cycle s = run_heartbeat_loop cycle None None 0 s"

text \<open>\<open>doctor\<close> prints the number of cycles.\<close>

definition doctor_cmd :: "(nat \<Rightarrow> 's \<Rightarrow> cycle_outcome \<times> 's) \<Rightarrow> 's \<Rightarrow> (loop_end \<times> 's) option" where
  "doctor_cmd cycle s = run_heartbeat_loop cycle None (Some 1) 0 s"

subsection \<open>How the loop ends\<close>

text \<open>The state before the \<open>n\<close>-th cycle, had nothing stopped the loop.\<close>

primrec state_before :: "(nat \<Rightarrow> 's \<Rightarrow> cycle_outcome \<times> 's) \<Rightarrow> 's \<Rightarrow> nat \<Rightarrow> 's" where
  "state_before cycle s 0 = s"
| "state_before cycle s (Suc n) = snd (cycle n (state_before cycle s n))"

definition undisturbed :: "(nat \<Rightarrow> 's \<Rightarrow> cycle_outcome \<times> 's) \<Rightarrow> stop_event option \<Rightarrow> 's \<Rightarrow> nat \<Rightarrow> bool" where
  "undisturbed cycle stop s i \<longleftrightarrow> \<not> stop_requested stop i \<and> \<not> stopped_waiting stop i
     \<and> fst (cycle i (state_before cycle s i)) \<noteq> CycleCancelled"

lemma loop_advance:
  assumes "\<And>i. i < n \<Longrightarrow> undisturbed cycle stop s i \<and> \<not> cycles_reached mx (Suc i)"
  shows "run_heartbeat_loop cycle stop mx 0 s = run_heartbeat_loop cycle stop mx n (state_before cycle s n)"
  using assms
proof (induction n)
  case (Suc n)
  then have IH: "run_heartbeat_loop cycle stop mx 0 s = run_heartbeat_loop cycle stop mx n (state_before cycle s n)"
    by simp
  obtain outcome s1 where c: "cycle n (state_before cycle s n) = (outcome, s1)" by (metis prod.exhaust)
  have "undisturbed cycle stop s n" "\<not> cycles_reached mx (Suc n)" using Suc.prems [of n] by simp_all
  then have "run_heartbeat_loop cycle stop mx n (state_before cycle s n)
      = run_heartbeat_loop cycle stop mx (Suc n) s1"
    by (subst run_heartbeat_loop.simps) (simp add: undisturbed_def c)
  with IH show ?case by (simp add: c)
qed simp

lemma loop_limit:
  assumes "\<And>i. i < n \<Longrightarrow> undisturbed cycle stop s i" "n = max 1 (nat m)"
  shows "run_heartbeat_loop cycle stop (Some m) 0 s = Some (Cycles n, state_before cycle s n)"
proof -
  have "n \<noteq> 0" using assms(2) by simp
  then obtain k where k: "n = Suc k" by (cases n) auto
  have "run_heartbeat_loop cycle stop (Some m) 0 s = run_heartbeat_loop cycle stop (Some m) k (state_before cycle s k)"
    using assms by (intro loop_advance) (auto simp: k cycles_reached_def)
  moreover obtain outcome s1 where c: "cycle k (state_before cycle s k) = (outcome, s1)" by (metis prod.exhaust)
  have "run_heartbeat_loop cycle stop (Some m) k (state_before cycle s k) = Some (Cycles n, s1)"
    using assms(1) [of k] assms(2)
    by (subst run_heartbeat_loop.simps) (auto simp: undisturbed_def c k cycles_reached_def)
  ultimately show ?thesis by (simp add: k c)
qed

definition endless :: "(nat \<Rightarrow> 's \<Rightarrow> cycle_outcome \<times> 's) \<Rightarrow> stop_event option \<Rightarrow> int option \<Rightarrow> bool" where
  "endless cycle stop mx \<longleftrightarrow> (\<forall>j x. \<not> stop_requested stop j \<and> \<not> stopped_waiting stop j
     \<and> fst (cycle j x) \<noteq> CycleCancelled \<and> \<not> cycles_reached mx j)"

lemma loop_never_stops:
  assumes "run_heartbeat_loop cycle stop mx i s = Some r"
  shows "\<not> endless cycle stop mx"
proof (rule run_heartbeat_loop.raw_induct [where P = "\<lambda>cycle stop mx i s r. \<not> endless cycle stop mx", OF _ assms])
  fix loop and cycle :: "nat \<Rightarrow> 'a \<Rightarrow> cycle_outcome \<times> 'a" and stop :: "stop_event option" and mx :: "int option" and i and s :: 'a and r :: "loop_end \<times> 'a"
  assume IH: "\<And>cycle stop mx i s r. loop cycle stop mx i s = Some r \<Longrightarrow> \<not> endless cycle stop mx"
    and body: "(if stop_requested stop i then Some (Cycles i, s)
      else (case cycle i s of
              (outcome, s1) \<Rightarrow>
                if outcome = CycleCancelled then Some (Cancelled, s1)
                else if cycles_reached mx (i + 1) then Some (Cycles (i + 1), s1)
                else if stopped_waiting stop i then Some (Cycles (i + 1), s1)
                else loop cycle stop mx (i + 1) s1)) = Some r"
  show "\<not> endless cycle stop mx"
  proof
    assume e: "endless cycle stop mx"
    obtain outcome s1 where c: "cycle i s = (outcome, s1)" by (metis prod.exhaust)
    have "\<not> stop_requested stop i" "outcome \<noteq> CycleCancelled" "\<not> cycles_reached mx (i + 1)"
      "\<not> stopped_waiting stop i"
      using e c by (auto simp: endless_def) (metis fst_conv)
    with body c have "loop cycle stop mx (i + 1) s1 = Some r" by simp
    from IH [OF this] e show False by blast
  qed
qed

end
