(* ===== verification/Agent_Facts.thy ===== *)
theory Agent_Facts
  imports Agent_Collectors
begin

text \<open>
  The agent's collectors against what they read: the cards \<open>nvidia-smi\<close> prints are recovered from
  its output, the state of the Sunshine server is the one its answer names first, and the payload
  built from plausible readings meets the broker's schema exactly when the user name is short enough.
\<close>

subsection \<open>Decimal numbers\<close>

fun decimal :: "nat \<Rightarrow> string" where
  "decimal n = (if n < 10 then [char_of (48 + n)] else decimal (n div 10) @ [char_of (48 + n mod 10)])"

declare decimal.simps [simp del]

lemma of_char_digit [simp]: "d < 10 \<Longrightarrow> (of_char (char_of (48 + d)) :: nat) = 48 + d"
  by (simp add: of_char_of)

lemma is_digit_digit [simp]: "(d::nat) < 10 \<Longrightarrow> is_digit (char_of (48 + d))"
  by (simp add: is_digit_def)

lemma decimal_digits: "decimal n \<noteq> [] \<and> list_all is_digit (decimal n)"
proof (induction n rule: decimal.induct)
  case (1 n)
  then show ?case by (subst (1 2) decimal.simps) auto
qed

lemma nat_of_digits_snoc: "is_digit c \<Longrightarrow> nat_of_digits (s @ [c]) = 10 * nat_of_digits s + (of_char c - 48)"
  by (simp add: nat_of_digits_def)

lemma nat_of_decimal [simp]: "nat_of_digits (decimal n) = n"
proof (induction n rule: decimal.induct)
  case (1 n)
  show ?case
  proof (cases "n < 10")
    case True
    then show ?thesis by (subst decimal.simps) (simp add: nat_of_digits_def is_digit_def)
  next
    case False
    then show ?thesis
      using 1 by (subst decimal.simps) (simp add: nat_of_digits_snoc is_digit_def)
  qed
qed

definition solid :: "string \<Rightarrow> bool" where
  "solid s \<longleftrightarrow> list_all (\<lambda>c. \<not> is_space c \<and> \<not> is_line_break c \<and> c \<noteq> CHR '','') s"

lemma digit_facts:
  assumes "is_digit c"
  shows "\<not> is_space c" "\<not> is_line_break c" "c \<notin> {CHR '','', CHR ''_'', CHR ''.'', CHR ''-'', CHR ''+''}"
    "lower_char c = c" "c \<notin> {CHR ''e'', CHR ''i'', CHR ''n''}"
  using assms by (auto simp: is_digit_def is_space_def is_line_break_def lower_char_def)

lemma solid_decimal: "solid (decimal n)"
  using decimal_digits [of n] digit_facts(1-3) by (fastforce simp: solid_def list_all_iff)

lemma py_float_decimal: "py_float (decimal n) = Some (Finite (of_nat n))"
proof -
  obtain c cs where d: "decimal n = c # cs" using decimal_digits [of n] by (cases "decimal n") auto
  have digits: "list_all is_digit (c # cs)" using decimal_digits [of n] by (simp add: d)
  then have c: "is_digit c" by simp
  have strip: "strip (decimal n) = decimal n"
    using decimal_digits [of n] by (intro strip_solid) (auto simp: list_all_iff digit_facts)
  have sign: "cut_sign (c # cs) = (False, c # cs)" using digit_facts(3) [OF c] by (simp add: cut_sign_def)
  have no_sep: "x \<notin> set (c # cs)" if "x \<in> {CHR ''_'', CHR ''.''}" for x
    using digits digit_facts(3) that by (auto simp: list_all_iff)
  have "takeWhile (\<lambda>c. lower_char c \<noteq> CHR ''e'') (c # cs) = c # cs"
    using digits digit_facts(4,5) by (subst takeWhile_eq_all_conv) (auto simp: list_all_iff)
  moreover have "digit_part (c # cs)"
    unfolding digit_part_def using split_on_no_sep [OF no_sep, of "CHR ''_''"] digits by simp
  ultimately have "unsigned_value (c # cs) = Some (of_nat n)"
    unfolding unsigned_value_def mantissa_value_def Let_def
    using split_on_no_sep [OF no_sep, of "CHR ''.''"] nat_of_decimal [of n] by (simp add: d del: nat_of_decimal)
  then show ?thesis
    using digit_facts(4,5) [OF c] by (simp add: py_float_def strip [unfolded d] d sign)
qed

subsection \<open>Graphics cards\<close>

text \<open>A line of \<open>nvidia-smi --format=csv,noheader,nounits\<close>: whole numbers, and \<open>[N/A]\<close> for what a card
  does not measure.\<close>

record smi_reading =
  sm_name :: string
  sm_util :: "nat option"
  sm_used :: "nat option"
  sm_total :: "nat option"
  sm_temp :: "nat option"

definition smi_field :: "nat option \<Rightarrow> string" where
  "smi_field v = (case v of None \<Rightarrow> ''[N/A]'' | Some n \<Rightarrow> decimal n)"

definition smi_line :: "smi_reading \<Rightarrow> string" where
  "smi_line r = sm_name r @ '', '' @ smi_field (sm_util r) @ '', '' @ smi_field (sm_used r) @ '', ''
     @ smi_field (sm_total r) @ '', '' @ smi_field (sm_temp r)"

definition smi_output :: "smi_reading list \<Rightarrow> string" where
  "smi_output rs = concat (map (\<lambda>r. smi_line r @ [CHR 0x0A]) rs)"

definition card_name :: "string \<Rightarrow> bool" where
  "card_name n \<longleftrightarrow> n \<noteq> [] \<and> \<not> is_space (hd n) \<and> \<not> is_space (last n)
     \<and> list_all (\<lambda>c. \<not> is_line_break c \<and> c \<noteq> CHR '','') n"

definition card_snapshot :: "smi_reading \<Rightarrow> gpu_snapshot option" where
  "card_snapshot r =
     (case (sm_util r, sm_used r, sm_total r, sm_temp r) of
        (Some u, Some m, Some t, Some c) \<Rightarrow>
          Some \<lparr>gs_name = sm_name r, gs_util_pct = Finite (of_nat u),
            gs_mem_pct = Finite (round_to 1 (if t = 0 then 0 else of_nat m / of_nat t * 100)),
            gs_temp_c = Some (Finite (of_nat c))\<rparr>
      | _ \<Rightarrow> None)"

lemma solid_field: "solid (smi_field v)" "smi_field v \<noteq> []"
  using decimal_digits by (auto simp: smi_field_def solid_decimal split: option.split)
    (simp add: solid_def is_space_def is_line_break_def)

lemma py_float_field: "py_float (smi_field v) = map_option (\<lambda>n. Finite (of_nat n)) v"
proof (cases v)
  case None
  have "py_float ''[N/A]'' = None" by code_simp
  with None show ?thesis by (simp add: smi_field_def)
qed (simp add: smi_field_def py_float_decimal)

lemma field_text:
  "CHR '','' \<notin> set (smi_field v)" "strip (CHR '' '' # smi_field v) = smi_field v"
  "list_all (\<lambda>c. \<not> is_line_break c) (smi_field v)" "\<not> is_space (last (smi_field v))"
proof -
  have s: "list_all (\<lambda>c. \<not> is_space c) (smi_field v)"
    using solid_field(1) [of v] by (auto simp: solid_def list_all_iff)
  have "is_space (CHR '' '')" by (simp add: is_space_def)
  then show "strip (CHR '' '' # smi_field v) = smi_field v"
    using strip_inner [of "smi_field v" "[CHR '' '']" "[]"] s solid_field(2) [of v] by (simp add: list_all_iff)
  show "CHR '','' \<notin> set (smi_field v)" "list_all (\<lambda>c. \<not> is_line_break c) (smi_field v)"
    using solid_field(1) [of v] by (auto simp: solid_def list_all_iff)
  show "\<not> is_space (last (smi_field v))" using s solid_field(2) [of v] by (simp add: list_all_iff)
qed

lemma parse_smi_line:
  assumes "card_name (sm_name r)"
  shows "parse_gpu_line (smi_line r) = card_snapshot r"
proof -
  have n: "CHR '','' \<notin> set (sm_name r)" and s: "strip (sm_name r) = sm_name r"
    using assms strip_inner [of "sm_name r" "[]" "[]"] by (auto simp: card_name_def list_all_iff)
  have f: "split_on CHR '','' (CHR '' '' # smi_field v @ CHR '','' # rest)
      = (CHR '' '' # smi_field v) # split_on CHR '','' rest" for v rest
    using split_on_append [of "CHR '',''" "CHR '' '' # smi_field v" rest] field_text(1) [of v] by simp
  have l: "split_on CHR '','' (CHR '' '' # smi_field v) = [CHR '' '' # smi_field v]" for v
    using split_on_no_sep [of "CHR '',''" "CHR '' '' # smi_field v"] field_text(1) [of v] by simp
  have parts: "map strip (split_on CHR '','' (smi_line r)) =
      [sm_name r, smi_field (sm_util r), smi_field (sm_used r), smi_field (sm_total r), smi_field (sm_temp r)]"
    unfolding smi_line_def by (simp add: split_on_append [OF n] f l s field_text(2) del: split_on.simps)
  show ?thesis
    unfolding parse_gpu_line_def parts Let_def
    by (cases "sm_util r"; cases "sm_used r"; cases "sm_total r"; cases "sm_temp r")
      (simp_all add: py_float_field card_snapshot_def)
qed

lemma smi_line_text:
  assumes "card_name (sm_name r)"
  shows "smi_line r \<noteq> []" "\<not> is_space (hd (smi_line r))" "\<not> is_space (last (smi_line r))"
    "list_all (\<lambda>c. \<not> is_line_break c) (smi_line r)"
  using assms field_text(3,4) solid_field(2)
  by (auto simp: smi_line_def card_name_def list_all_iff is_line_break_def)

lemma splitlines_output:
  assumes "list_all (\<lambda>r. card_name (sm_name r)) rs"
  shows "splitlines (strip (smi_output rs)) = map smi_line rs"
proof (cases rs rule: rev_cases)
  case Nil
  then show ?thesis by (simp add: smi_output_def splitlines_def strip_def)
next
  case (snoc qs q)
  let ?body = "concat (map (\<lambda>r. smi_line r @ [CHR 0x0A]) qs) @ smi_line q"
  have q: "card_name (sm_name q)" and qs: "list_all (list_all (\<lambda>c. \<not> is_line_break c)) (map smi_line qs)"
    using assms smi_line_text(4) by (auto simp: snoc list_all_iff)
  have "\<not> is_space (hd ?body)"
    using assms smi_line_text(1,2) by (cases qs) (auto simp: snoc list_all_iff)
  moreover have "is_space (CHR 0x0A)" by (simp add: is_space_def)
  ultimately have "strip (smi_output rs) = ?body"
    using strip_inner [of ?body "[]" "[CHR 0x0A]"] smi_line_text(1,3) [OF q] by (simp add: smi_output_def snoc)
  then show ?thesis
    using splitlines_lines [OF qs, of "smi_line q"] smi_line_text(1,4) [OF q]
    by (simp add: splitlines_def lines_from_last snoc comp_def)
qed

lemma collect_gpu_output:
  assumes "list_all (\<lambda>r. card_name (sm_name r)) rs"
  shows "collect_gpu (SmiExit 0 (smi_output rs)) = List.map_filter card_snapshot rs"
proof -
  have "List.map_filter parse_gpu_line (map smi_line rs) = List.map_filter card_snapshot rs"
    using assms parse_smi_line by (induction rs) (simp_all add: List.map_filter_simps split: option.split)
  then show ?thesis by (simp add: collect_gpu_def parse_nvidia_smi_def splitlines_output [OF assms])
qed

text \<open>C36: The agent reports exactly the cards for which \<open>nvidia-smi\<close> prints all four numbers, in its
  order and with its values, the memory as a percentage with one decimal; a card that does not
  measure one of them, be it the temperature the schema declares optional, is not reported at all.\<close>
theorem gpu_report_correct:
  assumes "list_all (\<lambda>r. card_name (sm_name r)) rs"
  shows "collect_gpu (SmiExit 0 (smi_output rs)) = List.map_filter card_snapshot rs"
  by (rule collect_gpu_output [OF assms])

definition sample_cards :: "smi_reading list" where
  "sample_cards = [\<lparr>sm_name = ''RTX 4090'', sm_util = Some 40, sm_used = Some 100, sm_total = Some 300, sm_temp = Some 55\<rparr>,
     \<lparr>sm_name = ''Tesla'', sm_util = Some 10, sm_used = Some 1, sm_total = Some 2, sm_temp = None\<rparr>]"

theorem gpu_report_correct_witness:
  "map gs_name (collect_gpu (SmiExit 0 (smi_output sample_cards))) = [''RTX 4090'']
   \<and> map gs_mem_pct (collect_gpu (SmiExit 0 (smi_output sample_cards))) = [Finite (333 / 10)]"
proof -
  have names: "list_all (\<lambda>r. card_name (sm_name r)) sample_cards" by code_simp
  have "map gs_name (List.map_filter card_snapshot sample_cards) = [''RTX 4090'']" by code_simp
  moreover have "map gs_mem_pct (List.map_filter card_snapshot sample_cards) = [Finite (333 / 10)]" by code_simp
  ultimately show ?thesis by (simp only: gpu_report_correct [OF names] simp_thms)
qed

subsection \<open>The state of the Sunshine server\<close>

lemma lower_char_angle: "lower_char c = CHR ''<'' \<longleftrightarrow> c = CHR ''<''"
proof
  assume l: "lower_char c = CHR ''<''"
  show "c = CHR ''<''"
  proof (rule ccontr)
    assume "c \<noteq> CHR ''<''"
    with l obtain n :: nat where n: "n = of_char c" "65 \<le> n \<and> n \<le> 90 \<or> 192 \<le> n \<and> n \<le> 222"
      "char_of (n + 32) = CHR ''<''" by (auto simp: lower_char_def Let_def split: if_splits)
    then have "of_char (char_of (n + 32) :: char) = (60 :: nat)" by simp
    moreover have "of_char (char_of (n + 32) :: char) = (n + 32) mod 256" by (rule of_char_of)
    ultimately show False using n(2) by auto
  qed
qed (simp add: lower_char_def)

text \<open>A string that starts with the tag, in any case.\<close>

lemma starts_with_ci_append: "starts_with_ci p s \<longleftrightarrow> (\<exists>h r. s = h @ r \<and> map lower_char h = p)"
proof
  assume "starts_with_ci p s"
  then show "\<exists>h r. s = h @ r \<and> map lower_char h = p"
    unfolding starts_with_ci_def by (metis append_take_drop_id)
next
  assume "\<exists>h r. s = h @ r \<and> map lower_char h = p"
  then show "starts_with_ci p s" by (auto simp: starts_with_ci_def)
qed

definition state_element :: "string \<Rightarrow> string \<Rightarrow> bool" where
  "state_element b s \<longleftrightarrow> (\<exists>h c r. s = h @ b @ c @ r \<and> map lower_char h = ''<state>''
     \<and> map lower_char c = ''</state>'' \<and> b \<noteq> [] \<and> CHR ''<'' \<notin> set b)"

lemma state_at_iff: "state_at s = Some b \<longleftrightarrow> state_element b s"
proof
  assume a: "state_at s = Some b"
  let ?rest = "drop 7 s"
  from a have h: "starts_with_ci ''<state>'' s" and b: "b = takeWhile (\<lambda>c. c \<noteq> CHR ''<'') ?rest" "b \<noteq> []"
    and c: "starts_with_ci ''</state>'' (drop (length b) ?rest)"
    by (auto simp: state_at_def Let_def split: if_splits)
  have s: "s = take 7 s @ b @ drop (length b) ?rest"
    by (metis append_take_drop_id b(1) takeWhile_eq_take)
  have h': "map lower_char (take 7 s) = ''<state>''" using h by (simp add: starts_with_ci_def numeral_eq_Suc)
  have no: "CHR ''<'' \<notin> set b" unfolding b(1) by (auto dest: set_takeWhileD)
  from c [unfolded starts_with_ci_append]
  obtain k r where k: "drop (length b) ?rest = k @ r" "map lower_char k = ''</state>''"
    by (elim exE conjE) (rule that)
  show "state_element b s"
    unfolding state_element_def
    by (rule exI [of _ "take 7 s"], rule exI [of _ k], rule exI [of _ r])
      (rule conjI [OF s [unfolded k(1)] conjI [OF h' conjI [OF k(2) conjI [OF b(2) no]]]])
next
  assume "state_element b s"
  from this [unfolded state_element_def]
  obtain h k r where s: "s = h @ b @ k @ r" and h: "map lower_char h = ''<state>''"
    and k: "map lower_char k = ''</state>''" and b: "b \<noteq> []" "CHR ''<'' \<notin> set b"
    by (elim exE conjE) (rule that)
  have "length h = 7" using arg_cong [OF h, of length] by simp
  then have rest: "drop 7 s = b @ k @ r" by (simp add: s)
  obtain k' where k': "k = CHR ''<'' # k'" using k by (cases k) (auto simp: lower_char_angle)
  have "takeWhile (\<lambda>c. c \<noteq> CHR ''<'') (drop 7 s) = b"
    unfolding rest using b(2) by (subst takeWhile_append2) (auto simp: k')
  moreover have "starts_with_ci ''<state>'' s"
    unfolding starts_with_ci_append using s h by (intro exI [of _ h] exI [of _ "b @ k @ r"] conjI)
  moreover have "starts_with_ci ''</state>'' (drop (length b) (drop 7 s))"
    unfolding starts_with_ci_append using k by (intro exI [of _ k] exI [of _ r] conjI) (simp_all only: rest, simp)
  ultimately show "state_at s = Some b" using b(1) by (simp add: state_at_def Let_def)
qed

lemma state_search_iff:
  "state_search s = Some b \<longleftrightarrow>
     (\<exists>pre t. s = pre @ t \<and> state_element b t \<and> (\<forall>j < length pre. state_at (drop j s) = None))"
proof (induction s)
  case Nil
  show ?case by (auto simp: state_element_def)
next
  case (Cons x xs)
  show ?case
  proof (cases "state_at (x # xs)")
    case None
    have here: "\<not> state_element b (x # xs)" using None state_at_iff [of "x # xs" b] by simp
    have "(\<exists>pre t. x # xs = pre @ t \<and> state_element b t \<and> (\<forall>j < length pre. state_at (drop j (x # xs)) = None))
        \<longleftrightarrow> (\<exists>pre t. xs = pre @ t \<and> state_element b t \<and> (\<forall>j < length pre. state_at (drop j xs) = None))"
      (is "?L \<longleftrightarrow> ?R")
    proof
      assume ?L
      then obtain pre t where p: "x # xs = pre @ t" "state_element b t"
        "\<forall>j < length pre. state_at (drop j (x # xs)) = None" by blast
      with here obtain pre' where pre: "pre = x # pre'" by (cases pre) auto
      have "\<forall>j < length pre'. state_at (drop j xs) = None" using p(3) by (auto simp: pre)
      moreover have "xs = pre' @ t" using p(1) by (simp add: pre)
      ultimately show ?R using p(2) by blast
    next
      assume ?R
      then obtain pre t where p: "xs = pre @ t" "state_element b t" "\<forall>j < length pre. state_at (drop j xs) = None"
        by blast
      have "state_at (drop j (x # xs)) = None" if "j < length (x # pre)" for j
        using that p(3) None by (cases j) auto
      with p(1,2) show ?L by (intro exI [of _ "x # pre"] exI [of _ t]) auto
    qed
    with None Cons.IH show ?thesis by simp
  next
    case (Some b')
    have "(\<exists>pre t. x # xs = pre @ t \<and> state_element b t \<and> (\<forall>j < length pre. state_at (drop j (x # xs)) = None))
        \<longleftrightarrow> state_element b (x # xs)"
      (is "?L \<longleftrightarrow> _")
    proof
      assume ?L
      then obtain pre t where p: "x # xs = pre @ t" "state_element b t"
        "\<forall>j < length pre. state_at (drop j (x # xs)) = None" by blast
      have "pre = []" using Some spec [OF p(3), of 0] by (cases pre) simp_all
      with p(1,2) show "state_element b (x # xs)" by simp
    next
      assume "state_element b (x # xs)"
      then show ?L by (intro exI [of _ "[]"] exI [of _ "x # xs"]) simp
    qed
    with Some state_at_iff [of "x # xs" b] show ?thesis by simp
  qed
qed

lemma state_at_None_iff: "state_at s = None \<longleftrightarrow> (\<nexists>b. state_element b s)"
  by (metis not_Some_eq state_at_iff)

text \<open>The agent reports an active stream exactly when the Sunshine server answers 200 and the first
  state element of its text, tags in any case, says it is busy.\<close>
theorem serverinfo_active_iff:
  "query_sunshine_serverinfo ans = Active \<longleftrightarrow>
     (\<exists>pre b t. ans = ServerinfoResponse 200 (pre @ t) \<and> state_element b t
        \<and> strip b = ''SUNSHINE_SERVER_BUSY'' \<and> (\<nexists>j b'. j < length pre \<and> state_element b' (drop j (pre @ t))))"
proof (cases ans)
  case (ServerinfoResponse status body)
  have "query_sunshine_serverinfo ans = Active \<longleftrightarrow>
      status = 200 \<and> (\<exists>b. state_search body = Some b \<and> strip b = ''SUNSHINE_SERVER_BUSY'')"
    by (auto simp: ServerinfoResponse query_sunshine_serverinfo_def Let_def split: option.split if_splits)
  also have "\<dots> \<longleftrightarrow> status = 200 \<and> (\<exists>b pre t. body = pre @ t \<and> state_element b t \<and> strip b = ''SUNSHINE_SERVER_BUSY''
      \<and> (\<nexists>j b'. j < length pre \<and> state_element b' (drop j (pre @ t))))" (is "_ \<longleftrightarrow> _ \<and> (\<exists>b pre t. ?P b pre t)")
  proof -
    have "(state_search body = Some b \<and> strip b = ''SUNSHINE_SERVER_BUSY'') \<longleftrightarrow> (\<exists>pre t. ?P b pre t)" for b
      unfolding state_search_iff state_at_None_iff by (safe; simp only: ex_simps; blast)
    then show ?thesis by (simp only:)
  qed
  finally show ?thesis unfolding ServerinfoResponse serverinfo_answer.inject by blast
qed (simp add: query_sunshine_serverinfo_def)

subsection \<open>The payload and the broker's schema\<close>

definition plausible_card :: "smi_reading \<Rightarrow> bool" where
  "plausible_card r \<longleftrightarrow> card_name (sm_name r) \<and> length (sm_name r) \<le> 128
     \<and> (case sm_util r of None \<Rightarrow> True | Some u \<Rightarrow> u \<le> 100)
     \<and> (case (sm_used r, sm_total r) of (Some m, Some t) \<Rightarrow> m \<le> t | _ \<Rightarrow> True)"

definition card_metric :: "smi_reading \<Rightarrow> gpu_metric option" where
  "card_metric r = Option.bind (card_snapshot r) gpu_body"

definition metric_valid :: "gpu_metric \<Rightarrow> bool" where
  "metric_valid g \<longleftrightarrow> 1 \<le> length (gm_name g) \<and> length (gm_name g) \<le> 128
     \<and> percentage (gm_util_pct g) \<and> percentage (gm_mem_pct g)"

lemma percentage_round: "percentage x \<Longrightarrow> percentage (round_to 1 x)"
  using round_half_even_mono [of "x * 10" 1000] round_half_even_mono [of 0 "x * 10"]
    round_half_even_int [of 1000] round_half_even_int [of 0]
  by (simp add: percentage_def round_to_def)

lemma card_snapshot_valid:
  assumes "plausible_card r" "card_snapshot r = Some g"
  shows "\<exists>m. gpu_body g = Some m \<and> metric_valid m"
proof -
  obtain u m t c where v: "sm_util r = Some u" "sm_used r = Some m" "sm_total r = Some t" "sm_temp r = Some c"
    using assms(2) by (auto simp: card_snapshot_def split: option.splits)
  have "percentage (if t = 0 then 0 else of_nat m / of_nat t * 100)"
    using assms(1) by (simp add: plausible_card_def v percentage_def field_simps)
  from percentage_round [OF this] show ?thesis
    using assms by (auto simp: card_snapshot_def v gpu_body_def plausible_card_def card_name_def metric_valid_def
        percentage_def neq_Nil_conv)
qed

lemma cards_body:
  assumes "list_all plausible_card rs"
  shows "\<exists>gs. those (map gpu_body (List.map_filter card_snapshot rs)) = Some gs \<and> list_all metric_valid gs"
  using assms
proof (induction rs)
  case (Cons r rs)
  then obtain gs where gs: "those (map gpu_body (List.map_filter card_snapshot rs)) = Some gs" "list_all metric_valid gs"
    by auto
  show ?case
  proof (cases "card_snapshot r")
    case (Some g)
    then obtain m where "gpu_body g = Some m" "metric_valid m" using card_snapshot_valid Cons.prems by auto
    with gs Some show ?thesis by (simp add: List.map_filter_simps)
  qed (use gs in \<open>simp add: List.map_filter_simps\<close>)
qed (simp add: List.map_filter_simps)

text \<open>What the operating system promises about its readings.\<close>

definition plausible_readings :: "readings \<Rightarrow> smi_reading list \<Rightarrow> bool" where
  "plausible_readings rd cards \<longleftrightarrow> percentage (rd_cpu_pct rd) \<and> percentage (rd_mem_pct rd)
     \<and> rd_boot_time rd \<le> rd_now rd \<and> rd_smi rd = SmiExit 0 (smi_output cards) \<and> list_all plausible_card cards
     \<and> (case rd_health rd of HealthError \<Rightarrow> True | HealthResponse _ ms \<Rightarrow> 0 \<le> ms)"

lemma heartbeat_body_valid:
  assumes "plausible_readings rd cards"
  shows "\<exists>p. heartbeat_body (build_heartbeat_payload has_cfg rd) = Some p
    \<and> (heartbeat_valid p \<longleftrightarrow> short_option 64 (active_user (rd_users rd)))"
proof -
  have cards: "list_all plausible_card cards" and smi: "rd_smi rd = SmiExit 0 (smi_output cards)"
    using assms by (simp_all add: plausible_readings_def)
  have "list_all (\<lambda>r. card_name (sm_name r)) cards"
    using cards by (auto simp: list_all_iff plausible_card_def)
  then have gpu: "ap_gpu (build_heartbeat_payload has_cfg rd) = List.map_filter card_snapshot cards"
    by (simp add: build_heartbeat_payload_def Let_def smi collect_gpu_output)
  obtain gs where gs: "those (map gpu_body (List.map_filter card_snapshot cards)) = Some gs" "list_all metric_valid gs"
    using cards_body [OF cards] by blast
  let ?p = "(ap_request (build_heartbeat_payload has_cfg rd))\<lparr>hb_gpu := Some gs\<rparr>"
  have rtt: "case measure_rtt (rd_health rd) of None \<Rightarrow> True | Some x \<Rightarrow> 0 \<le> x"
    using assms by (auto simp: plausible_readings_def measure_rtt_def round_to_nonneg split: health_answer.splits)
  have up: "0 \<le> whole_seconds (rd_now rd - rd_boot_time rd)"
    using assms by (simp add: plausible_readings_def whole_seconds_def pos_imp_zdiv_nonneg_iff)
  have "heartbeat_valid ?p \<longleftrightarrow> short_option 64 (active_user (rd_users rd))"
    using assms rtt up gs(2)
    by (auto simp: heartbeat_valid_def build_heartbeat_payload_def Let_def collect_system_def collect_session_def
        agent_version_def plausible_readings_def metric_valid_def list_all_iff)
  then show ?thesis using gs(1) by (simp add: heartbeat_body_def gpu)
qed

text \<open>C20: With readings the operating system vouches for, the payload the agent builds always has a JSON
  form, and the broker's schema accepts it exactly when the name of the logged-in user has at most 64
  characters: with a longer name the broker refuses every heartbeat of the host.\<close>
theorem agent_payload_accepted:
  assumes "plausible_readings rd cards"
  shows "\<exists>p. heartbeat_body (build_heartbeat_payload has_cfg rd) = Some p
    \<and> (heartbeat_valid p \<longleftrightarrow> short_option 64 (active_user (rd_users rd)))"
  by (rule heartbeat_body_valid [OF assms])

definition sample_readings :: "string \<Rightarrow> readings" where
  "sample_readings name = \<lparr>rd_now = hour_us, rd_boot_time = 0, rd_cpu_pct = 20, rd_mem_pct = 30, rd_load = Some [1 / 3],
     rd_processes = [\<lparr>pr_info_name = None, pr_name_call = Some ''Sunshine.exe''\<rparr>], rd_users = [Some name],
     rd_serverinfo = ServerinfoResponse 200 ''<State>SUNSHINE_SERVER_BUSY</State>'',
     rd_smi = SmiExit 0 (smi_output sample_cards), rd_health = HealthResponse 200 (1234 / 1000)\<rparr>"

theorem agent_payload_accepted_witness:
  "\<exists>p q. heartbeat_body (build_heartbeat_payload True (sample_readings ''kim'')) = Some p \<and> heartbeat_valid p
     \<and> heartbeat_body (build_heartbeat_payload True (sample_readings (replicate 65 CHR ''k''))) = Some q
     \<and> \<not> heartbeat_valid q"
proof -
  have ok: "plausible_readings (sample_readings name) sample_cards" for name
  proof -
    have "list_all plausible_card sample_cards" by code_simp
    then show ?thesis by (simp add: plausible_readings_def sample_readings_def percentage_def)
  qed
  have "short_option 64 (active_user (rd_users (sample_readings ''kim'')))"
    "\<not> short_option 64 (active_user (rd_users (sample_readings (replicate 65 CHR ''k''))))"
    by (simp_all add: short_option_def active_user_def sample_readings_def)
  then show ?thesis
    using agent_payload_accepted [OF ok [of "''kim''"], of True]
      agent_payload_accepted [OF ok [of "replicate 65 CHR ''k''"], of True] by auto
qed

end
