(* ===== verification/Agent_System.thy ===== *)
theory Agent_System
  imports Agent_Loop Agent_Facts Host_Facts
begin

text \<open>
  The agent's loop and the agent together with the broker: when the loop ends, that failures do not
  end it, and that a host whose agent gets through is online in the broker, through any number of
  ticks of the monitor in between.
\<close>

subsection \<open>When the loop ends\<close>

fun completed_cycles :: "loop_end \<Rightarrow> nat" where
  "completed_cycles (Cycles n) = n"
| "completed_cycles Cancelled = 0"

lemma loop_returns:
  "\<exists>e s'. run_heartbeat_loop cycle stop (Some m) i s = Some (e, s') \<and> completed_cycles e \<le> max (Suc i) (nat m)"
proof (induction "nat m - i" arbitrary: i s rule: less_induct)
  case less
  obtain outcome s1 where c: "cycle i s = (outcome, s1)" by (metis prod.exhaust)
  show ?case
  proof (cases "cycles_reached (Some m) (i + 1)")
    case True
    then show ?thesis by (subst run_heartbeat_loop.simps) (auto simp: c)
  next
    case False
    then have lt: "nat m - Suc i < nat m - i" "max (Suc (Suc i)) (nat m) = max (Suc i) (nat m)"
      by (auto simp: cycles_reached_def)
    from less [OF lt(1), of s1] lt(2) show ?thesis
      by (subst run_heartbeat_loop.simps) (auto simp: c)
  qed
qed

text \<open>A loop with a limit always returns, whatever its cycles do and whenever it is stopped, after
  at most the allowed number of cycles (at least one).\<close>
theorem heartbeat_loop_returns:
  "\<exists>e s'. run_heartbeat_loop cycle stop (Some m) 0 s = Some (e, s') \<and> completed_cycles e \<le> max 1 (nat m)"
  using loop_returns [of cycle stop m 0 s] by simp

text \<open>C35: Failed cycles never end the loop: unless it is stopped or cancelled, a loop with a limit runs
  to the limit and one without never returns.\<close>
theorem failures_do_not_end_loop:
  assumes "\<And>i. \<not> stop_requested stop i \<and> \<not> stopped_waiting stop i"
    and "\<And>i x. fst (cycle i x) \<noteq> CycleCancelled"
  shows "run_heartbeat_loop cycle stop (Some m) 0 s =
      Some (Cycles (max 1 (nat m)), state_before cycle s (max 1 (nat m)))
    \<and> run_heartbeat_loop cycle stop None 0 s = None"
proof
  show "run_heartbeat_loop cycle stop (Some m) 0 s =
      Some (Cycles (max 1 (nat m)), state_before cycle s (max 1 (nat m)))"
    using assms by (intro loop_limit) (simp_all add: undisturbed_def)
  have "endless cycle stop None" using assms by (simp add: endless_def cycles_reached_def)
  then show "run_heartbeat_loop cycle stop None 0 s = None"
    using loop_never_stops [of cycle stop None 0 s] by (cases "run_heartbeat_loop cycle stop None 0 s") auto
qed

theorem failures_do_not_end_loop_witness:
  "doctor_cmd (\<lambda>i n. (CycleFailed, n + 1)) (0 :: nat) = Some (Cycles 1, 1)
   \<and> run_cmd (\<lambda>i n. (CycleFailed, n + 1)) (0 :: nat) = None"
  using failures_do_not_end_loop [of None "\<lambda>i n. (CycleFailed, n + 1)" 1 "0 :: nat"]
  by (simp add: doctor_cmd_def run_cmd_def stop_requested_def stopped_waiting_def)

subsection \<open>The agent keeps its host online\<close>

lemma get_agent_host_later:
  assumes "get_agent_host sha t0 rq d = Inr (h, tok)" and "wf_db d" and "tokens_wf (db_tokens d')"
    and "db_tokens d' = db_tokens d" and "get_host d' (h_id h) = Some h'" and "t < t_expires_at tok"
  shows "get_agent_host sha t rq d' = Inr (h', tok)"
proof -
  let ?raw = "strip (drop 7 (rq_authorization rq))"
  note A = get_agent_host_Inr [OF assms(1)]
  have wf: "tokens_wf (db_tokens d)" using assms(2) by (simp add: wf_db_def)
  have raw: "?raw \<noteq> []" and "tok \<in> set (db_tokens d) \<and> t_jti tok = sha ?raw \<and> token_live Agent t0 tok"
    using A(4) lookup_token_iff [OF wf] by (auto simp: verify_agent_token_def split: if_splits)
  then have "lookup_token sha Agent t ?raw d' = Some tok"
    using assms(4,6) by (simp add: lookup_token_iff [OF assms(3)] token_live_def)
  moreover have "starts_with ''bearer '' (map lower_char (rq_authorization rq))"
    using assms(1) by (simp add: get_agent_host_def Let_def split: if_splits)
  ultimately show ?thesis
    using raw A(3) assms(5) by (simp add: get_agent_host_def Let_def verify_agent_token_def)
qed

text \<open>The ticks of the monitor at the times \<open>ts\<close>.\<close>

definition monitor_ticks :: "settings \<Rightarrow> instant list \<Rightarrow> world \<Rightarrow> world" where
  "monitor_ticks cfg ts w = foldl (\<lambda>w t. monitor_step cfg t w) w ts"

lemma monitor_ticks_keep:
  assumes "wf_db (w_db w)" and "get_host (w_db w) i = Some h" and "list_all (\<lambda>t. \<not> offline_row cfg t h) ts"
  shows "wf_db (w_db (monitor_ticks cfg ts w)) \<and> get_host (w_db (monitor_ticks cfg ts w)) i = Some h
    \<and> db_tokens (w_db (monitor_ticks cfg ts w)) = db_tokens (w_db w)"
  using assms
proof (induction ts arbitrary: w)
  case (Cons t ts)
  obtain n d b where r: "run_one_tick cfg t (w_db w) (Some (w_broker w)) = (n, d, b)" by (metis prod.exhaust)
  note T = tick_spec [OF Cons.prems(1) r]
  have "w_db (monitor_step cfg t w) = d" by (simp add: monitor_step_def r)
  then show ?case
    using Cons.IH [of "monitor_step cfg t w"] Cons.prems T(1) T(3) [of i] T(4) by (simp add: monitor_ticks_def)
qed (simp add: monitor_ticks_def)

text \<open>A cycle of the agent, with the ticks of the broker's monitor during the wait after it.\<close>

definition monitored_cycle ::
  "(string \<Rightarrow> string) \<Rightarrow> settings \<Rightarrow> string \<Rightarrow> (nat \<Rightarrow> cycle_input) \<Rightarrow> (nat \<Rightarrow> instant list) \<Rightarrow> nat \<Rightarrow> world \<Rightarrow>
     cycle_outcome \<times> world" where
  "monitored_cycle sha cfg agent_token inputs ticks i w =
     (case broker_cycle sha cfg agent_token True inputs i w of (outcome, w1) \<Rightarrow> (outcome, monitor_ticks cfg (ticks i) w1))"

definition healthy_input :: "cycle_input \<Rightarrow> bool" where
  "healthy_input inp \<longleftrightarrow> ci_network inp = Delivered
     \<and> (\<exists>rd cards. ci_readings inp = Some rd \<and> plausible_readings rd cards \<and> short_option 64 (active_user (rd_users rd)))"

definition host_online :: "int \<Rightarrow> instant \<Rightarrow> world \<Rightarrow> bool" where
  "host_online hid now w \<longleftrightarrow>
     (\<exists>h. get_host (w_db w) hid = Some h \<and> h_last_heartbeat_at h = Some now \<and> h_status h \<noteq> OFFLINE)"

lemma healthy_cycle:
  assumes "healthy_input (inputs i)" and "wf_db (w_db w)"
    and "get_agent_host sha (ci_auth_now (inputs i)) (bearer_request agent_token) (w_db w) = Inr (h, tok)"
    and "0 \<le> host_offline_after_seconds cfg"
    and "list_all (\<lambda>t. t \<le> ci_now (inputs i) + host_offline_after_seconds cfg * sec_us) (ticks i)"
  shows "\<exists>w'. monitored_cycle sha cfg agent_token inputs ticks i w = (CycleOk, w')
    \<and> wf_db (w_db w') \<and> db_tokens (w_db w') = db_tokens (w_db w) \<and> host_online (h_id h) (ci_now (inputs i)) w'"
proof -
  let ?now = "ci_now (inputs i)" and ?rq = "bearer_request agent_token"
  obtain rd cards where rd: "ci_readings (inputs i) = Some rd" "plausible_readings rd cards"
    "short_option 64 (active_user (rd_users rd))" using assms(1) by (auto simp: healthy_input_def)
  obtain p where p: "heartbeat_body (build_heartbeat_payload True rd) = Some p" "heartbeat_valid p"
    using heartbeat_body_valid [OF rd(2), of True] rd(3) by blast
  have "\<exists>resp w1. heartbeat_endpoint sha cfg (ci_auth_now (inputs i)) ?now ?rq p w = (Inr resp, w1)"
    using assms(3) p(2) by (simp add: heartbeat_endpoint_def Let_def split_beta)
  then obtain resp w1 where hb: "heartbeat_endpoint sha cfg (ci_auth_now (inputs i)) ?now ?rq p w = (Inr resp, w1)"
    by blast
  have cyc: "broker_cycle sha cfg agent_token True inputs i w = (CycleOk, w1)"
    using assms(1) by (simp add: broker_cycle_def post_heartbeat_def rd(1) p(1) hb healthy_input_def)
  have wf: "wf_db (w_db w1)"
    using evolves_heartbeat [of w sha cfg "ci_auth_now (inputs i)" ?now ?rq p] assms(2) hb by (simp add: evolves_def)
  from hb obtain q where q: "get_host (w_db w1) (h_id h) = Some q" "h_last_heartbeat_at q = Some ?now"
    "h_status q \<noteq> OFFLINE" and tk: "db_tokens (w_db w1) = db_tokens (w_db w)"
  proof (rule heartbeat_Inr)
    fix h' :: host and tok'
    assume a: "get_agent_host sha (ci_auth_now (inputs i)) ?rq (w_db w) = Inr (h', tok')"
      and g: "\<And>i. get_host (w_db w1) i = (if i = h_id h'
         then Some ((heartbeat_host ?now p h')\<lparr>h_status := heartbeat_status cfg ?now p (h_id h') (w_db w)\<rparr>)
         else get_host (w_db w) i)" and k: "db_tokens (w_db w1) = db_tokens (w_db w)"
    show thesis
      by (rule that [of "(heartbeat_host ?now p h')\<lparr>h_status := heartbeat_status cfg ?now p (h_id h') (w_db w)\<rparr>"])
        (use a g k assms(3) heartbeat_status_online [OF assms(4)] in simp_all)
  qed
  have "list_all (\<lambda>t. \<not> offline_row cfg t q) (ticks i)"
    using assms(5) q(2) by (auto simp: list_all_iff offline_row_def)
  from monitor_ticks_keep [OF wf q(1) this] show ?thesis
    using q(2,3) tk by (auto simp: monitored_cycle_def cyc host_online_def)
qed


definition sample_input :: "nat \<Rightarrow> cycle_input" where
  "sample_input i = \<lparr>ci_readings = Some (sample_readings ''kim''), ci_network = Delivered,
     ci_auth_now = hour_us + int i * (30 * sec_us), ci_now = hour_us + int i * (30 * sec_us)\<rparr>"


end
