(* ===== verification/Agent_Service.thy ===== *)
theory Agent_Service
  imports Python_Text
begin

text \<open>
  Installing the agent as a service (\<open>service/systemd.py\<close>, \<open>service/windows.py\<close> and the command
  \<open>install-service\<close> of \<open>cli.py\<close>): the texts they produce, and whether the command line in them
  has the intended arguments.  Paths are the strings they are printed as; the interpreter
  (\<open>sys.executable\<close>) and the resolved path of the configuration are arguments.
\<close>

subsection \<open>systemd\<close>

abbreviation newline :: string where "newline \<equiv> [CHR 0x0A]"

definition lines_text :: "string list \<Rightarrow> string" where
  "lines_text ls = concat (map (\<lambda>l. l @ newline) ls)"

text \<open>The value of the key \<open>ExecStart\<close>.\<close>

definition exec_start :: "string \<Rightarrow> string \<Rightarrow> string" where
  "exec_start python_exe config_path =
     python_exe @ '' -m smartclassroom_agent run --config '' @ config_path"

definition UNIT_TEMPLATE :: "string \<Rightarrow> string \<Rightarrow> string" where
  "UNIT_TEMPLATE python_exe config_path = lines_text
     [''[Unit]'', ''Description=SmartClassroom host agent (T11)'', ''After=network-online.target'',
      ''Wants=network-online.target'', '''',
      ''[Service]'', ''Type=simple'', ''ExecStart='' @ exec_start python_exe config_path,
      ''Restart=on-failure'', ''RestartSec=10'', ''StandardOutput=journal'', ''StandardError=journal'', '''',
      ''[Install]'', ''WantedBy=multi-user.target'']"

text \<open>\<open>python_exe or sys.executable\<close>.\<close>

definition or_executable :: "string option \<Rightarrow> string \<Rightarrow> string" where
  "or_executable python_exe executable =
     (case python_exe of Some p \<Rightarrow> if p = '''' then executable else p | None \<Rightarrow> executable)"

definition render_systemd_unit :: "string option \<Rightarrow> string \<Rightarrow> string \<Rightarrow> string" where
  "render_systemd_unit python_exe executable config_path =
     UNIT_TEMPLATE (or_executable python_exe executable) config_path"

subsection \<open>Windows\<close>

definition SERVICE_NAME :: string where
  "SERVICE_NAME = ''SmartClassroomAgent''"

definition build_nssm_install_args :: "string \<Rightarrow> string option \<Rightarrow> string \<Rightarrow> string \<Rightarrow> string list" where
  "build_nssm_install_args config_path python_exe executable nssm_path =
     [nssm_path, ''install'', SERVICE_NAME, or_executable python_exe executable, ''-m'', ''smartclassroom_agent'',
      ''run'', ''--config'', config_path]"

definition quote_arg :: "string \<Rightarrow> string" where
  "quote_arg a = (if CHR '' '' \<in> set a then CHR 0x22 # a @ [CHR 0x22] else a)"

text \<open>\<open>" ".join(...)\<close>\<close>

fun join_words :: "string list \<Rightarrow> string" where
  "join_words [] = []"
| "join_words [a] = a"
| "join_words (a # b # as) = a @ CHR '' '' # join_words (b # as)"

definition install_command :: "string \<Rightarrow> string \<Rightarrow> string" where
  "install_command config_path executable =
     join_words (map quote_arg (build_nssm_install_args config_path None executable ''nssm.exe''))"

text \<open>The commands among the instructions; the sentences around them are not modelled.\<close>

definition install_instructions :: "string \<Rightarrow> string \<Rightarrow> string list" where
  "install_instructions config_path executable =
     [install_command config_path executable, ''nssm.exe start '' @ SERVICE_NAME]"

text \<open>\<open>install-service\<close>: the instructions on Windows, the unit elsewhere.\<close>

definition install_service_cmd :: "bool \<Rightarrow> string \<Rightarrow> string \<Rightarrow> string list" where
  "install_service_cmd windows abs_config executable =
     (if windows then install_instructions abs_config executable
      else [render_systemd_unit None executable abs_config])"

subsection \<open>Command lines and their arguments\<close>

text \<open>How a command line falls into arguments: at spaces outside double quotes.  This is the documented
  behaviour of both consumers on text without backslashes, percent signs and other quotes.\<close>

fun words_from :: "bool \<Rightarrow> bool \<Rightarrow> string \<Rightarrow> string \<Rightarrow> string list" where
  "words_from quoted started acc [] = (if started then [rev acc] else [])"
| "words_from quoted started acc (c # cs) =
     (if c = CHR 0x22 then words_from (\<not> quoted) True acc cs
      else if c = CHR '' '' \<and> \<not> quoted
        then (if started then rev acc # words_from False False [] cs else words_from False False [] cs)
      else words_from quoted True (c # acc) cs)"

definition command_words :: "string \<Rightarrow> string list" where
  "command_words s = words_from False False [] s"

lemma words_plain:
  "CHR 0x22 \<notin> set a \<Longrightarrow> CHR '' '' \<notin> set a \<or> quoted \<Longrightarrow>
   words_from quoted started acc (a @ rest) = words_from quoted (started \<or> a \<noteq> []) (rev a @ acc) rest"
  by (induction a arbitrary: started acc) auto

lemma words_arg:
  assumes "CHR 0x22 \<notin> set a" "a \<noteq> []"
  shows "words_from False False [] (quote_arg a @ rest) = words_from False True (rev a) rest"
  using assms by (auto simp: quote_arg_def words_plain)

lemma command_words_join:
  assumes "list_all (\<lambda>a. CHR 0x22 \<notin> set a \<and> a \<noteq> []) as"
  shows "words_from False False [] (join_words (map quote_arg as)) = as"
  using assms
proof (induction as rule: join_words.induct)
  case (2 a)
  then show ?case using words_arg [of a "[]"] by simp
next
  case (3 a b as)
  then show ?case using words_arg [of a "CHR '' '' # join_words (map quote_arg (b # as))"] by simp
qed simp

lemma words_no_space:
  "CHR 0x22 \<notin> set s \<Longrightarrow> CHR '' '' \<notin> set acc \<Longrightarrow>
   list_all (\<lambda>w. CHR '' '' \<notin> set w) (words_from False started acc s)"
  by (induction s arbitrary: started acc) auto

text \<open>The installation command for Windows falls back into exactly the arguments it was built from,
  with spaces in the interpreter or in the path of the configuration.\<close>
theorem install_command_words:
  assumes "CHR 0x22 \<notin> set config_path \<and> config_path \<noteq> []" and "CHR 0x22 \<notin> set executable \<and> executable \<noteq> []"
  shows "command_words (install_command config_path executable)
    = build_nssm_install_args config_path None executable ''nssm.exe''"
  unfolding command_words_def install_command_def
  by (rule command_words_join)
    (use assms in \<open>simp add: build_nssm_install_args_def or_executable_def SERVICE_NAME_def\<close>)

text \<open>The unit for systemd quotes nothing: its command has the intended arguments exactly when neither
  the interpreter nor the path of the configuration contains a space.\<close>
theorem exec_start_words_iff:
  assumes "CHR 0x22 \<notin> set config_path \<and> config_path \<noteq> []" and "CHR 0x22 \<notin> set python_exe \<and> python_exe \<noteq> []"
  shows "command_words (exec_start python_exe config_path)
      = [python_exe, ''-m'', ''smartclassroom_agent'', ''run'', ''--config'', config_path]
    \<longleftrightarrow> CHR '' '' \<notin> set python_exe \<and> CHR '' '' \<notin> set config_path"
    (is "_ = ?args \<longleftrightarrow> ?plain")
proof
  assume w: "command_words (exec_start python_exe config_path) = ?args"
  have "list_all (\<lambda>w. CHR '' '' \<notin> set w) (command_words (exec_start python_exe config_path))"
    unfolding command_words_def by (rule words_no_space) (use assms in \<open>simp_all add: exec_start_def\<close>)
  then show ?plain by (simp add: w)
next
  assume ?plain
  then have "exec_start python_exe config_path = join_words (map quote_arg ?args)"
    by (simp add: exec_start_def quote_arg_def)
  moreover have "list_all (\<lambda>a. CHR 0x22 \<notin> set a \<and> a \<noteq> []) ?args" using assms by simp
  ultimately show "command_words (exec_start python_exe config_path) = ?args"
    using command_words_join [of ?args] by (simp only: command_words_def)
qed

theorem install_command_words_witness:
  "command_words (install_command ''C:/Smart Classroom/agent.yaml'' ''C:/Python312/python.exe'')
     = [''nssm.exe'', ''install'', ''SmartClassroomAgent'', ''C:/Python312/python.exe'', ''-m'',
        ''smartclassroom_agent'', ''run'', ''--config'', ''C:/Smart Classroom/agent.yaml'']"
  by (subst install_command_words)
    (simp_all add: build_nssm_install_args_def or_executable_def SERVICE_NAME_def)

theorem exec_start_words_iff_witness:
  "command_words (exec_start ''/usr/bin/python3'' ''/opt/smart classroom/agent.yaml'')
     \<noteq> [''/usr/bin/python3'', ''-m'', ''smartclassroom_agent'', ''run'', ''--config'', ''/opt/smart classroom/agent.yaml'']"
  using exec_start_words_iff [of "''/opt/smart classroom/agent.yaml''" "''/usr/bin/python3''"] by simp

end
