(* ===== verification/Middleware.thy ===== *)
theory Middleware
  imports Lifecycle
begin

text \<open>
  The middleware of \<open>core/middleware.py\<close> around the application, in the order of \<open>create_app\<close>:
  the request identifier outermost, then the session, then the access log.  The context variables of
  the logger are a record that the layers bind and unbind; the application is the function from the
  user of the request to the status of its answer, or \<open>None\<close> for an exception no handler turned into
  an answer.
\<close>

record log_context =
  cx_request_id :: "string option"
  cx_user :: "(int \<times> string) option"

record log_line =
  ll_event :: string
  ll_path :: string
  ll_status :: "int option"
  ll_client_ip :: "string option"
  ll_context :: log_context

text \<open>A layer: what it hands back is the status and the response header of the request identifier, or
  \<open>None\<close> when the exception goes on, with the context and the log.\<close>

record served =
  sv_status :: "int option"
  sv_request_id :: "string option"
  sv_context :: log_context
  sv_log :: "log_line list"

type_synonym layer = "user option \<Rightarrow> log_context \<Rightarrow> log_line list \<Rightarrow> served"

definition access_log_dispatch :: "request \<Rightarrow> (user option \<Rightarrow> int option) \<Rightarrow> layer" where
  "access_log_dispatch rq app usr cx lines =
     (case app usr of
        None \<Rightarrow> \<lparr>sv_status = None, sv_request_id = None, sv_context = cx,
          sv_log = lines @ [\<lparr>ll_event = ''http.request.error'', ll_path = rq_path rq, ll_status = None,
            ll_client_ip = None, ll_context = cx\<rparr>]\<rparr>
      | Some status \<Rightarrow> \<lparr>sv_status = Some status, sv_request_id = None, sv_context = cx,
          sv_log = lines @ [\<lparr>ll_event = ''http.request'', ll_path = rq_path rq, ll_status = Some status,
            ll_client_ip = rq_client_ip rq, ll_context = cx\<rparr>]\<rparr>)"

definition auth_session_dispatch :: "(string \<Rightarrow> string) \<Rightarrow> instant \<Rightarrow> request \<Rightarrow> db \<Rightarrow> layer \<Rightarrow> log_context \<Rightarrow> log_line list \<Rightarrow> served" where
  "auth_session_dispatch sha now rq d call_next cx lines =
     (case session_user sha now rq d of
        None \<Rightarrow> call_next None cx lines
      | Some usr \<Rightarrow>
          (let s = call_next (Some usr) (cx\<lparr>cx_user := Some (u_id usr, u_provider usr)\<rparr>) lines in
           s\<lparr>sv_context := (sv_context s)\<lparr>cx_user := None\<rparr>\<rparr>))"

definition request_id_dispatch :: "string \<Rightarrow> request \<Rightarrow> (log_context \<Rightarrow> log_line list \<Rightarrow> served) \<Rightarrow> log_context \<Rightarrow> log_line list \<Rightarrow> served" where
  "request_id_dispatch fresh rq call_next cx lines =
     (let rid = response_request_id fresh rq;
          s = call_next (cx\<lparr>cx_request_id := Some rid\<rparr>) lines;
          s' = s\<lparr>sv_context := (sv_context s)\<lparr>cx_request_id := None\<rparr>\<rparr> in
      case sv_status s' of None \<Rightarrow> s' | Some _ \<Rightarrow> s'\<lparr>sv_request_id := Some rid\<rparr>)"

definition serve ::
  "(string \<Rightarrow> string) \<Rightarrow> instant \<Rightarrow> string \<Rightarrow> request \<Rightarrow> db \<Rightarrow> (user option \<Rightarrow> int option) \<Rightarrow> log_line list \<Rightarrow> served" where
  "serve sha now fresh rq d app lines =
     request_id_dispatch fresh rq (auth_session_dispatch sha now rq d (access_log_dispatch rq app))
       \<lparr>cx_request_id = None, cx_user = None\<rparr> lines"

text \<open>Every request leaves exactly one line in the access log, which names its identifier and its user
  even when the application raises; the identifier is the caller's, or a fresh one, and is returned
  with every answer; no context survives the request.\<close>
theorem request_logged_once:
  "serve sha now fresh rq d app lines =
     \<lparr>sv_status = app (session_user sha now rq d),
      sv_request_id = map_option (\<lambda>_. response_request_id fresh rq) (app (session_user sha now rq d)),
      sv_context = \<lparr>cx_request_id = None, cx_user = None\<rparr>,
      sv_log = lines @ [\<lparr>ll_event = (if app (session_user sha now rq d) = None then ''http.request.error'' else ''http.request''),
        ll_path = rq_path rq, ll_status = app (session_user sha now rq d),
        ll_client_ip = Option.bind (app (session_user sha now rq d)) (\<lambda>_. rq_client_ip rq),
        ll_context = \<lparr>cx_request_id = Some (response_request_id fresh rq),
          cx_user = map_option (\<lambda>u. (u_id u, u_provider u)) (session_user sha now rq d)\<rparr>\<rparr>]\<rparr>"
  by (simp add: serve_def request_id_dispatch_def auth_session_dispatch_def access_log_dispatch_def Let_def
      split: option.split)

end
