(* ===== verification/Logging.thy ===== *)
theory Logging
  imports Agent_Loop
begin

text \<open>
  The logging of both programs (\<open>core/logging.py\<close>, the agent's \<open>logging.py\<close>): the state of Python's
  \<open>logging\<close> and of structlog as far as the two \<open>configure_logging\<close> set it, and which events are written.
  What the processors do to an event is structlog's; loggers cached before a later configuration
  are not considered.
\<close>

subsection \<open>Levels\<close>

text \<open>The names \<open>logging\<close> knows, with their numbers, and the levels the settings admit, in their order.\<close>

definition level_numbers :: "(string \<times> int) list" where
  "level_numbers = [(''CRITICAL'', 50), (''FATAL'', 50), (''ERROR'', 40), (''WARN'', 30), (''WARNING'', 30),
     (''INFO'', 20), (''DEBUG'', 10), (''NOTSET'', 0)]"

definition level_number :: "string \<Rightarrow> int option" where
  "level_number = map_of level_numbers"

definition level_name :: "log_level \<Rightarrow> string" where
  "level_name l = (case l of DEBUG \<Rightarrow> ''DEBUG'' | INFO \<Rightarrow> ''INFO'' | WARNING \<Rightarrow> ''WARNING'' | ERROR \<Rightarrow> ''ERROR'')"

definition upper_char :: "char \<Rightarrow> char" where
  "upper_char c = (let n = (of_char c :: nat) in if 97 \<le> n \<and> n \<le> 122 then char_of (n - 32) else c)"

definition severity :: "log_level \<Rightarrow> int" where
  "severity l = the (level_number (level_name l))"

lemma severity_simps [simp]: "severity DEBUG = 10" "severity INFO = 20" "severity WARNING = 30" "severity ERROR = 40"
  by (simp_all add: severity_def level_number_def level_numbers_def level_name_def)

lemma severity_inj: "severity l = severity m \<longleftrightarrow> l = m"
  by (cases l; cases m) simp_all

instantiation log_level :: linorder
begin

definition less_eq_log_level :: "log_level \<Rightarrow> log_level \<Rightarrow> bool" where
  "less_eq_log_level l m \<longleftrightarrow> severity l \<le> severity m"

definition less_log_level :: "log_level \<Rightarrow> log_level \<Rightarrow> bool" where
  "less_log_level l m \<longleftrightarrow> severity l < severity m"

instance
  by standard (auto simp: less_eq_log_level_def less_log_level_def severity_inj)

end

lemma level_of_setting: "level_number (map upper_char (level_name l)) = Some (severity l)"
proof -
  have "\<forall>l \<in> {DEBUG, INFO, WARNING, ERROR}. level_number (map upper_char (level_name l)) = Some (severity l)" by code_simp
  then show ?thesis by (cases l) simp_all
qed

subsection \<open>The state\<close>

datatype out_stream = Stdout | Stderr

datatype log_processor =
  MergeContextvars | AddLogLevel | TimeStamper | StackInfoRenderer | FormatExcInfo | JSONRenderer

record log_handler =
  lh_stream :: out_stream
  lh_level :: int

record structlog_config =
  sg_processors :: "log_processor list"
  sg_min_level :: int
  sg_stream :: out_stream

record log_state =
  lg_handlers :: "log_handler list"
  lg_root_level :: int
  lg_structlog :: "structlog_config option"

definition shared_processors :: "log_processor list" where
  "shared_processors = [MergeContextvars, AddLogLevel, TimeStamper, StackInfoRenderer, FormatExcInfo]"

subsection \<open>Configuration\<close>

text \<open>The broker: structlog first, then the root logger, with \<open>force=True\<close>, which removes the handlers there
  are.  A name \<open>logging\<close> does not know would be an error; the settings admit none.\<close>

definition configure_logging :: "log_level \<Rightarrow> log_state \<Rightarrow> log_state option" where
  "configure_logging l s =
     (case level_number (map upper_char (level_name l)) of
        None \<Rightarrow> None
      | Some n \<Rightarrow>
          Some (s\<lparr>lg_structlog := Some \<lparr>sg_processors = shared_processors @ [JSONRenderer], sg_min_level = n,
                     sg_stream = Stdout\<rparr>,
                  lg_handlers := [\<lparr>lh_stream = Stdout, lh_level = 0\<rparr>], lg_root_level := n\<rparr>))"

text \<open>The agent: an unknown name counts as \<open>INFO\<close>; the handlers are removed one by one.\<close>

fun remove_handlers :: "log_handler list \<Rightarrow> log_state \<Rightarrow> log_state" where
  "remove_handlers [] s = s"
| "remove_handlers (h # hs) s = remove_handlers hs (s\<lparr>lg_handlers := remove1 h (lg_handlers s)\<rparr>)"

definition agent_configure_logging :: "string \<Rightarrow> log_state \<Rightarrow> log_state" where
  "agent_configure_logging level s =
     (let n = (case level_number (map upper_char level) of Some n \<Rightarrow> n | None \<Rightarrow> 20);
          s1 = remove_handlers (lg_handlers s) s in
      s1\<lparr>lg_handlers := lg_handlers s1 @ [\<lparr>lh_stream = Stderr, lh_level = n\<rparr>], lg_root_level := n,
         lg_structlog := Some \<lparr>sg_processors = [MergeContextvars, AddLogLevel, TimeStamper, JSONRenderer],
           sg_min_level = n, sg_stream = Stderr\<rparr>\<rparr>)"

text \<open>\<open>_load_and_configure\<close> of the commands.\<close>

definition load_and_configure ::
  "(string \<Rightarrow> string option) \<Rightarrow> (string \<Rightarrow> 'v yaml option) \<Rightarrow> ((string \<times> 'v) list \<Rightarrow> agent_config option) \<Rightarrow>
     string \<Rightarrow> log_state \<Rightarrow> (config_error + agent_config) \<times> log_state" where
  "load_and_configure read safe_load model_validate path s =
     (case load_config read safe_load model_validate path of
        Inl e \<Rightarrow> (Inl e, s)
      | Inr cfg \<Rightarrow> (Inr cfg, agent_configure_logging (level_name (ac_log_level cfg)) s))"

subsection \<open>What is written\<close>

text \<open>An event of structlog is written, and where to, when its level passes the filtering logger.\<close>

definition written_to :: "log_level \<Rightarrow> log_state \<Rightarrow> out_stream option" where
  "written_to l s =
     (case lg_structlog s of
        None \<Rightarrow> None
      | Some c \<Rightarrow> if sg_min_level c \<le> severity l then Some (sg_stream c) else None)"

text \<open>A record of the standard library reaches the streams of the handlers it passes.\<close>

definition record_streams :: "log_level \<Rightarrow> log_state \<Rightarrow> out_stream list" where
  "record_streams l s =
     (if lg_root_level s \<le> severity l
      then map lh_stream (filter (\<lambda>h. lh_level h \<le> severity l) (lg_handlers s)) else [])"

lemma remove_handlers_all: "remove_handlers hs (s\<lparr>lg_handlers := hs\<rparr>) = s\<lparr>lg_handlers := []\<rparr>"
  by (induction hs) simp_all

lemma removed_handlers: "remove_handlers (lg_handlers s) s = s\<lparr>lg_handlers := []\<rparr>"
  using remove_handlers_all [of "lg_handlers s" s] by simp

text \<open>Whatever was configured before, after the configuration exactly the events of the configured level and
  above are written, the broker's to the standard output and the agent's to the standard error,
  and each record of the standard library once.\<close>
theorem broker_log_written:
  "configure_logging l s \<noteq> None"
  "configure_logging l s = Some s' \<Longrightarrow> written_to m s' = (if l \<le> m then Some Stdout else None)"
  "configure_logging l s = Some s' \<Longrightarrow> record_streams m s' = (if l \<le> m then [Stdout] else [])"
  by (cases l; cases m; auto simp: configure_logging_def level_of_setting written_to_def record_streams_def
      less_eq_log_level_def)+

theorem agent_log_written:
  "written_to m (agent_configure_logging (level_name l) s) = (if l \<le> m then Some Stderr else None)"
  "record_streams m (agent_configure_logging (level_name l) s) = (if l \<le> m then [Stderr] else [])"
  by (auto simp: agent_configure_logging_def level_of_setting written_to_def record_streams_def Let_def
      less_eq_log_level_def removed_handlers)

text \<open>Configuring again adds no handler: both functions are idempotent.\<close>
theorem configure_logging_idempotent:
  "Option.bind (configure_logging l s) (configure_logging l) = configure_logging l s"
  "agent_configure_logging n (agent_configure_logging n s) = agent_configure_logging n s"
  by (simp add: configure_logging_def level_of_setting)
    (simp add: agent_configure_logging_def removed_handlers Let_def)

end
