(* ===== verification/Spec2Isabelle.thy ===== *)
theory Spec2Isabelle
  imports Interleaving Status_Interleaving Providers Orm_Models Application_Rows Agent_System Agent_Service Middleware Logging
begin

text \<open>
  SmartClassroom: a verification development of the broker and of the host agent.

  \<^bold>\<open>The program.\<close>  A broker (\<open>src/broker\<close>, FastAPI over PostgreSQL) lets students reserve the PCs
  of a classroom by the half hour or use a free one at once, hands out one-time secrets with which the
  streaming client connects, relays pairing PINs to the Sunshine server of a PC, and keeps the status
  of every PC from the heartbeats of an agent (\<open>src/agent\<close>) that runs there.  The web frontend and the
  patches to the streaming client and server are other programs.

  \<^bold>\<open>How the parts interact.\<close>  A request passes the middleware (identifier, session, access log),
  the dependencies of its route (user, administrator, internal caller, agent), the schema of its body,
  and the services, which read and write the tables and raise domain errors that the exception
  handlers turn into answers.  Bookings are checked by the rules of the reservation service and
  then by the exclusion constraint of the database.  Heartbeats and a background monitor drive the
  status of a host; every change is written to the audit log and published to the subscribers of the
  event stream.  The agent's loop posts a heartbeat every cycle, which the broker handles as any
  other request.

  \<^bold>\<open>Modelling.\<close>  A table is the list of its rows, a row a record, the database the record \<open>db\<close>
  (\<open>Domain\<close>); constraints are checked by the insertions and updates of \<open>Database\<close>.  The
  state of the broker is the record \<open>world\<close> of \<open>Web\<close>: tables, event broker, gauges.  A route is a
  function \<open>world \<Rightarrow> (app_error + 'a) \<times> world\<close> that returns the tables it started from when it raises
  (the transaction is rolled back).  Clock readings, new keys and random secrets are arguments, one for
  each place where the code reads or draws them; SHA-256 is the parameter \<open>sha\<close>, of which nothing
  is assumed: where two secrets must not collide the fresh digest is a hypothesis, as the unique column
  demands.  Instants are whole microseconds, a \<open>datetime\<close> is a wall clock with an offset or without
  one.  Strings are lists of 8-bit characters; texts of messages are not modelled, codes and details are.
  Floats are the rationals they stand for.  Python's integers are integers; where a number of a request
  reaches the driver it must fit what the statement binds, 32 bits for a key (\<open>session_get\<close>) and 64 bits for
  a filter (\<open>fits_filter\<close>), and raises otherwise.

  \<^bold>\<open>Theories and sources.\<close>
  \<^item> \<open>Prelude\<close>: tables as lists, results as sums, the locales \<open>invariant_system\<close> and
    \<open>simulation\<close> for transition systems.
  \<^item> \<open>Clock\<close>, \<open>Config\<close>, \<open>Errors\<close>: time; \<open>core/config.py\<close> and the guards of
    \<open>main.py\<close>; \<open>core/errors.py\<close> and \<open>core/auth_responses.py\<close>.
  \<^item> \<open>Domain\<close>, \<open>Database\<close>: \<open>domain/*.py\<close> and \<open>alembic/versions\<close>: rows, constraints,
    audit log, and their invariant \<open>wf_db\<close>.
  \<^item> \<open>Reservation_Rules\<close>, \<open>Reservation_Service\<close>, \<open>Reservation_Facts\<close>, \<open>Calendar\<close>:
    \<open>services/reservation.py\<close>: windows, quotas, booking, instant use, cancelling, listing, calendar.
  \<^item> \<open>Credentials\<close>, \<open>Tokens\<close>, \<open>Token_Facts\<close>, \<open>Connect_Facts\<close>: \<open>services/token_service.py\<close>,
    \<open>services/agent_token_service.py\<close>, \<open>core/auth_session.py\<close>.  \<open>Credentials\<close> is the interface the
    three kinds of secret share, a locale interpreted on each.
  \<^item> \<open>Event_Broker\<close>, \<open>Host_Status\<close>: \<open>services/host_events.py\<close> (the queue is a locale, interpreted on
    the list model of \<open>asyncio.Queue\<close>), \<open>services/host_status.py\<close>, \<open>services/host_status_monitor.py\<close>,
    \<open>core/metrics.py\<close>.
  \<^item> \<open>Pairing\<close>: \<open>services/pairing_service.py\<close>; the HTTP answers are an argument.
  \<^item> \<open>Web\<close>, \<open>Reservation_Api\<close>, \<open>Host_Api\<close>, \<open>Token_Api\<close>, \<open>Auth_Api\<close>: \<open>api/deps.py\<close>,
    \<open>api/v1\<close>, \<open>api/schemas\<close>, \<open>providers/mock.py\<close>, \<open>services/user_upsert.py\<close>.
  \<^item> \<open>Lifecycle\<close>, \<open>Middleware\<close>: \<open>main.py\<close>, \<open>infra/db.py\<close>, \<open>api/v1/health.py\<close>, \<open>meta.py\<close>,
    \<open>host_events.py\<close>, \<open>core/middleware.py\<close>.
  \<^item> \<open>Application\<close>: \<open>api/v1/router.py\<close> and the decorators of the routes as a table; what the application does with
    a request, from the cookie over the dependencies of the route to the handler (\<open>handle\<close>).
    \<open>Application_Facts\<close> embeds its requests into the transition system of the broker.
  \<^item> \<open>Schema\<close>, \<open>Migrations\<close>, \<open>Orm_Models\<close>: schemas of the database and the statements that change them,
    \<open>alembic/versions\<close> and \<open>alembic/env.py\<close>, the declarations of \<open>domain/*.py\<close>.  \<open>Conformance\<close> reads the
    constraints off the migrated schema and relates them to \<open>wf_db\<close>; \<open>Application_Rows\<close> shows that the running
    application keeps them.
  \<^item> \<open>Logging\<close>: \<open>core/logging.py\<close> and the agent's \<open>logging.py\<close>.
  \<^item> \<open>Evolution\<close>, \<open>System\<close>, \<open>System_Facts\<close>, \<open>Status_Facts\<close>, \<open>Refinement\<close>: the broker
    as a transition system \<open>system_step\<close> whose steps are the routes, the monitor, the event
    subscribers and time; what every step keeps, what holds in every reachable state, and the simulation
    of the abstract timetable.
  \<^item> \<open>Interleaving\<close>: the bookings and cancellations of \<open>services/reservation.py\<close> again, one statement at a
    time: tasks that are each at some statement, with PostgreSQL's default isolation (a statement sees what is
    committed before it, an insertion waits for the uncommitted rows of others).  Every step of
    \<open>system_step\<close> is a sequence of such statements.  \<open>Status_Interleaving\<close>: the halves of a tick of the
    monitor and of a heartbeat, with the columns each writes.
  \<^item> \<open>Providers\<close>: \<open>core/auth.py\<close>, \<open>providers/*.py\<close>: the protocol of a login provider, what the routes rely on
    as a locale interpreted on both providers, and the factory.
  \<^item> \<open>Route_Facts\<close>, \<open>Session_Facts\<close>, \<open>Host_Facts\<close>, \<open>Instant_Facts\<close>: what single routes and sequences of
    them promise, immediate use from every reachable state.
  \<^item> \<open>Python_Text\<close>, \<open>Agent_Collectors\<close>, \<open>Agent_Loop\<close>, \<open>Agent_Service\<close>: the library
    functions the agent calls on text and numbers; \<open>collectors/*.py\<close>; \<open>heartbeat.py\<close>, \<open>client.py\<close>,
    \<open>config.py\<close>, \<open>cli.py\<close>; \<open>service/*.py\<close>.  \<open>Agent_Facts\<close> and \<open>Agent_System\<close> hold the theorems about
    them and about the agent together with the broker.

  \<^bold>\<open>What the theorems show.\<close>
  \<^item> Bookings: when a booking succeeds and why it is refused; no two active reservations of a host
    ever overlap and the broker refines the abstract timetable, however the statements of concurrent requests
    interleave; the limits hold after a booking and in every reachable state when requests are handled one
    after another, and with \<open>K\<close> bookings of a user in flight they are exceeded by at most \<open>K - 1\<close>, a bound that
    is met; what is listed as free can be booked; the calendar is exact and terminates.
  \<^item> Secrets: a connect token is issued exactly to those and when it should, works once, and at most
    one per reservation is open; a consumed, revoked or expired secret stays dead; cookies and
    agent tokens identify their owners until they expire or are revoked.
  \<^item> Status: a tick agrees with the evaluation; a heartbeat protects its host for the configured time, as
    long as no tick runs inside it or around it; a failed tick is made up for; an agent that gets through keeps
    its host online.
  \<^item> The application: its runs are runs of the broker; nothing changes without a credential; the
    reservations of a user are changed by nobody but him and administrators; who is turned away and how; a
    refused request leaves at most an audit entry; every route is reachable under its own path.
  \<^item> The schema: the constraints the migrations create are the invariant \<open>wf_db\<close>, and in every reachable
    state the rows satisfy them and fit their columns; the revisions can be undone, all but one, and one
    that fails leaves nothing behind; the models agree with the migrated tables but for a named list.
  \<^item> Errors: which errors a booking can end in, that a foreign reservation looks like a missing
    one, and that a refused booking leaves the state alone.
  \<^item> The agent: its parsers recover what was printed, its payload meets the broker's schema, its
    loop ends when it should and only then.
  \<^item> Where the code does less than it promises, a theorem exhibits it: interleaved bookings,
    interleaved issues, a heartbeat inside a tick, the daily limit across midnight, the connect token of a cancelled
    reservation, a user name longer than the schema of the heartbeat allows, a name at login
    longer than its column, a number of more than 32 bits in a request, a production deployment in which
    nobody can log in.

  \<^bold>\<open>Bounds and fuel.\<close>  The two loops of the calendar and the agent's loop are
  \<open>partial_function\<close>s in the option monad, so not returning is \<open>None\<close>; that they return is proved
  (for the agent's loop with a limit; without one it is proved never to return).  The retry loop of the pairing
  counts its attempts down from the configured maximum.  \<open>drain_stream\<close> takes as fuel the number of
  events it may read; the capacity of a queue, 100, is enough to empty it.

  \<^bold>\<open>Not modelled.\<close>  The texts of messages and logs; third-party code (the web framework, the database
  driver, Alembic's choice of the revisions to run, the HTTP client, YAML, psutil, Prometheus), which appears as
  arguments; how the framework matches a path is an argument with a hypothesis.  The rows of \<open>db\<close> hold the columns
  the code writes itself or reads, but for the request identifier of an audit entry; the others are part of the
  schema and filled by their defaults.  The text of an address is accepted as it is given, and so is a NUL character
  in a text, which the database refuses.  The login page; the \<open>/metrics\<close> page; overflow of dates beyond the
  year 9999 and of floats; two requests inside each other, except for bookings and cancellations
  (\<open>Interleaving\<close>), a tick and a heartbeat (\<open>Status_Interleaving\<close>) and the issues and consumptions of
  \<open>Connect_Facts\<close>.  Which statement of a transaction
  waits for how long, and deadlocks between transactions, are the database's; a task may fail anywhere.
\<close>

end
